(* ===== verification/Prelude.thy ===== *)
theory Prelude
  imports Main "HOL-Library.Word" "HOL-Library.AList" "HOL-Library.Multiset"
begin

text \<open>
  Shared vocabulary of the development: the machine types of the Go sources, the interface
  every encoder/decoder pair of the node satisfies (locale \<open>codec\<close>), the interface of a
  component whose operations keep an invariant (locale \<open>machine\<close>), the outcomes of a
  goroutine, and generic lemmas on lists, association lists and 64-bit words.
\<close>

section \<open>Machine types\<close>

type_synonym byte = "8 word"
type_synonym u64 = "64 word"

text \<open>A Go string is a sequence of bytes; \<open>bytes\<close> and \<open>str\<close> are the conversions
  \<^verbatim>\<open>[]byte(s)\<close> and \<^verbatim>\<open>string(b)\<close>.\<close>

definition bytes :: "string \<Rightarrow> byte list" where
  "bytes s = map (\<lambda>c. word_of_nat (of_char c)) s"

definition str :: "byte list \<Rightarrow> string" where
  "str bs = map (\<lambda>b. char_of (unat b)) bs"

section \<open>Outcomes of a piece of goroutine code\<close>

text \<open>
  A statement of a goroutine returns normally, panics (nil dereference, index out of range: an
  unrecovered panic ends the process), or blocks for ever on a lock it holds itself. The state
  reached so far is kept in every case.
\<close>

datatype ('s, 'a) outcome = Returns 's 'a | Panics 's | Blocks 's

fun final_state :: "('s, 'a) outcome \<Rightarrow> 's" where
  "final_state (Returns s a) = s"
| "final_state (Panics s) = s"
| "final_state (Blocks s) = s"

fun returns :: "('s, 'a) outcome \<Rightarrow> bool" where
  "returns (Returns s a) = True"
| "returns (Panics s) = False"
| "returns (Blocks s) = False"

fun and_then :: "('s, 'a) outcome \<Rightarrow> ('s \<Rightarrow> 'a \<Rightarrow> ('s, 'b) outcome) \<Rightarrow> ('s, 'b) outcome" where
  "and_then (Returns s a) f = f s a"
| "and_then (Panics s) f = Panics s"
| "and_then (Blocks s) f = Blocks s"

section \<open>Go maps\<close>

text \<open>
  A Go map is an association list without duplicate keys, in insertion order; \<open>AList.update\<close>
  overwrites in place or appends. Where the source ranges over a map the order is unspecified and may differ
  from call to call; the model visits the list from its front. For the two account maps of a block the order is
  proved irrelevant (\<open>batch_order_irrelevant\<close>); for the genesis allocation it is irrelevant exactly when
  no two keys name one address with different amounts (\<open>genesis_order\<close>).
\<close>

definition map_get :: "('k \<times> u64) list \<Rightarrow> 'k \<Rightarrow> u64" where
  "map_get m k = (case map_of m k of Some v \<Rightarrow> v | None \<Rightarrow> 0)"

definition map_has :: "('k \<times> 'v) list \<Rightarrow> 'k \<Rightarrow> bool" where
  "map_has m k \<longleftrightarrow> map_of m k \<noteq> None"

section \<open>The collections of simplification rules\<close>

named_theorems roundtrip_simps \<open>decode after encode\<close>
named_theorems wf_simps \<open>well-formedness of the data of the node\<close>

section \<open>Encoder/decoder pairs\<close>

text \<open>The contract of an encoding the node uses for keys, files, hashes or messages: on the
  values \<open>ok\<close> accepts, decoding what was encoded gives the value back.\<close>

locale codec =
  fixes enc :: "'a \<Rightarrow> 'b"
    and dec :: "'b \<Rightarrow> 'a option"
    and ok :: "'a \<Rightarrow> bool"
  assumes dec_enc: "ok x \<Longrightarrow> dec (enc x) = Some x"
begin

lemma enc_inject: "ok x \<Longrightarrow> ok y \<Longrightarrow> enc x = enc y \<longleftrightarrow> x = y"
  by (metis dec_enc option.inject)

lemma inj_on_enc: "inj_on enc {x. ok x}"
  by (auto intro!: inj_onI simp: enc_inject)

lemma map_enc_inject:
  assumes "list_all ok xs" and "list_all ok ys"
  shows "map enc xs = map enc ys \<longleftrightarrow> xs = ys"
  using assms
proof (induction xs arbitrary: ys)
  case (Cons x xs)
  then show ?case by (cases ys) (auto simp: enc_inject)
qed auto

end

text \<open>Two encodings in a row (a value as JSON, the JSON as text) are an encoding.\<close>

locale codec_pair = inner: codec enc1 dec1 ok1 + outer: codec enc2 dec2 ok2
  for enc1 :: "'a \<Rightarrow> 'b" and dec1 ok1 and enc2 :: "'b \<Rightarrow> 'c" and dec2 ok2 +
  assumes ok_chain: "ok1 x \<Longrightarrow> ok2 (enc1 x)"
begin

sublocale pair: codec "\<lambda>x. enc2 (enc1 x)" "\<lambda>y. Option.bind (dec2 y) dec1" ok1
  by unfold_locales (simp add: ok_chain inner.dec_enc outer.dec_enc)

end

section \<open>State machines\<close>

text \<open>A component driven by a sequence of operations, each of which keeps the invariant.\<close>

locale machine =
  fixes step :: "'op \<Rightarrow> 's \<Rightarrow> 's"
    and inv :: "'s \<Rightarrow> bool"
  assumes step_inv: "inv s \<Longrightarrow> inv (step op s)"
begin

lemma run_inv: "inv s \<Longrightarrow> inv (fold step ops s)"
  by (induction ops arbitrary: s) (auto intro: step_inv)

end

text \<open>A component with a labelled step relation: its runs, and an invariant of all of them.\<close>

inductive run :: "('s \<Rightarrow> 'e \<Rightarrow> 's \<Rightarrow> bool) \<Rightarrow> 's \<Rightarrow> 'e list \<Rightarrow> 's \<Rightarrow> bool" for step where
  run_Nil: "run step s [] s"
| run_Cons: "step s e s' \<Longrightarrow> run step s' es s'' \<Longrightarrow> run step s (e # es) s''"

inductive_cases run_NilE: "run step s [] s'"
inductive_cases run_ConsE: "run step s (e # es) s'"

locale transitions =
  fixes step :: "'s \<Rightarrow> 'e \<Rightarrow> 's \<Rightarrow> bool"
    and inv :: "'s \<Rightarrow> bool"
    and allowed :: "'e \<Rightarrow> bool"
  assumes step_keeps: "inv s \<Longrightarrow> allowed e \<Longrightarrow> step s e s' \<Longrightarrow> inv s'"
begin

lemma run_keeps: "run step s es s' \<Longrightarrow> list_all allowed es \<Longrightarrow> inv s \<Longrightarrow> inv s'"
  by (induction rule: run.induct) (auto dest: step_keeps)

end

section \<open>Generic lemmas\<close>

lemma of_char_lt_256 [simp]: "(of_char c :: nat) < 256"
  using of_char_mod_256 [of c, where 'a = nat] by (metis mod_less_divisor zero_less_numeral)

lemma unat_byte_lt [simp]: "unat (b :: byte) < 256"
  using unsigned_less [where 'a = nat, of b] by simp

lemma unat_word_of_char [simp]: "unat (word_of_nat (of_char c) :: byte) = of_char c"
  by (simp add: unat_of_nat)

lemma word_of_char_of_byte [simp]: "(word_of_nat (of_char (char_of (unat (b :: byte)) :: char)) :: byte) = b"
  by simp

lemma str_bytes [roundtrip_simps]: "str (bytes s) = s"
  by (simp add: str_def bytes_def comp_def)

lemma bytes_str [roundtrip_simps]: "bytes (str bs) = bs"
  by (simp add: str_def bytes_def comp_def)

lemma bytes_inject [simp]: "bytes s = bytes t \<longleftrightarrow> s = t"
  by (metis str_bytes)

lemma bytes_append [simp]: "bytes (s @ t) = bytes s @ bytes t"
  by (simp add: bytes_def)

lemma length_bytes [simp]: "length (bytes s) = length s"
  by (simp add: bytes_def)

interpretation text_bytes: codec bytes "\<lambda>bs. Some (str bs)" "\<lambda>_. True"
  by unfold_locales (simp add: str_bytes)

lemma map_get_update [simp]:
  "map_get (AList.update k v m) k' = (if k' = k then v else map_get m k')"
  by (simp add: map_get_def update_conv')

lemma map_has_update [simp]: "map_has (AList.update k v m) k' \<longleftrightarrow> k' = k \<or> map_has m k'"
  by (auto simp: map_has_def update_conv')

lemma map_has_Nil [simp]: "\<not> map_has [] k"
  by (simp add: map_has_def)

lemma map_get_Nil [simp]: "map_get [] k = 0"
  by (simp add: map_get_def)

lemma map_has_iff_key: "map_has m k \<longleftrightarrow> k \<in> fst ` set m"
  by (simp add: map_has_def map_of_eq_None_iff)

lemma map_get_in: "distinct (map fst m) \<Longrightarrow> (k, v) \<in> set m \<Longrightarrow> map_get m k = v"
  by (simp add: map_get_def)

lemma and_then_Returns_iff:
  "and_then r f = Returns s b \<longleftrightarrow> (\<exists>s' a. r = Returns s' a \<and> f s' a = Returns s b)"
  by (cases r) auto

end
