(* ===== verification/Encoding.thy ===== *)
theory Encoding
  imports Prelude
begin

text \<open>
  The encodings of Go's standard library that the sources call: \<^verbatim>\<open>encoding/hex\<close>,
  \<^verbatim>\<open>encoding/binary\<close> (big-endian 64-bit integers), \<^verbatim>\<open>strconv\<close> (decimal
  integers) and \<^verbatim>\<open>encoding/base64\<close> (as \<^verbatim>\<open>encoding/json\<close> uses it for byte
  slices), each with its round trip as an interpretation of \<open>codec\<close>.
\<close>

unbundle bit_operations_syntax

section \<open>encoding/hex\<close>

datatype hex_error = InvalidByteError char | ErrLength

definition hex_digit :: "nat \<Rightarrow> char" where
  "hex_digit n = (if n < 10 then char_of (48 + n) else char_of (87 + n))"

definition hex_EncodeToString :: "byte list \<Rightarrow> string" where
  "hex_EncodeToString bs =
     concat (map (\<lambda>b. [hex_digit (unat b div 16), hex_digit (unat b mod 16)]) bs)"

text \<open>Both letter cases are accepted on input.\<close>

definition hex_value :: "char \<Rightarrow> nat option" where
  "hex_value c = (let n = of_char c :: nat in
     if 48 \<le> n \<and> n \<le> 57 then Some (n - 48)
     else if 97 \<le> n \<and> n \<le> 102 then Some (n - 87)
     else if 65 \<le> n \<and> n \<le> 70 then Some (n - 55)
     else None)"

text \<open>\<^verbatim>\<open>hex.DecodeString\<close> returns the bytes decoded before the error together with it.\<close>

fun hex_DecodeString :: "string \<Rightarrow> byte list \<times> hex_error option" where
  "hex_DecodeString [] = ([], None)"
| "hex_DecodeString [p] =
     (case hex_value p of None \<Rightarrow> ([], Some (InvalidByteError p)) | Some _ \<Rightarrow> ([], Some ErrLength))"
| "hex_DecodeString (p # q # s) =
     (case hex_value p of
        None \<Rightarrow> ([], Some (InvalidByteError p))
      | Some a \<Rightarrow>
          (case hex_value q of
             None \<Rightarrow> ([], Some (InvalidByteError q))
           | Some b \<Rightarrow>
               (let (bs, e) = hex_DecodeString s in (word_of_nat (16 * a + b) # bs, e))))"

definition hex_Decode :: "string \<Rightarrow> byte list option" where
  "hex_Decode s = (case hex_DecodeString s of (bs, None) \<Rightarrow> Some bs | _ \<Rightarrow> None)"

section \<open>encoding/binary\<close>

definition BigEndian_PutUint64 :: "u64 \<Rightarrow> byte list" where
  "BigEndian_PutUint64 v = map (\<lambda>i. ucast (drop_bit (8 * i) v)) [7, 6, 5, 4, 3, 2, 1, 0]"

text \<open>The reader indexes bytes 0 to 7; every caller checks the length first.\<close>

definition BigEndian_Uint64 :: "byte list \<Rightarrow> u64" where
  "BigEndian_Uint64 b = foldl (\<lambda>acc x. push_bit 8 acc OR ucast x) 0 (take 8 b)"

section \<open>strconv\<close>

fun decimal :: "nat \<Rightarrow> string" where
  "decimal n = (if n < 10 then [char_of (48 + n)] else decimal (n div 10) @ [char_of (48 + n mod 10)])"

declare decimal.simps [simp del]

definition is_digit :: "char \<Rightarrow> bool" where
  "is_digit c \<longleftrightarrow> (let n = of_char c :: nat in 48 \<le> n \<and> n \<le> 57)"

definition digits_value :: "string \<Rightarrow> nat" where
  "digits_value s = foldl (\<lambda>a c. 10 * a + (of_char c - 48)) 0 s"

definition ParseUint64 :: "string \<Rightarrow> u64 option" where
  "ParseUint64 s = (if s \<noteq> [] \<and> list_all is_digit s \<and> digits_value s < 2 ^ 64
                    then Some (word_of_nat (digits_value s)) else None)"

definition FormatInt64 :: "u64 \<Rightarrow> string" where
  "FormatInt64 v = (if sint v < 0 then CHR ''-'' # decimal (nat (- sint v)) else decimal (nat (sint v)))"

definition ParseInt64 :: "string \<Rightarrow> u64 option" where
  "ParseInt64 s = (case s of
       [] \<Rightarrow> None
     | c # ds \<Rightarrow>
         if c = CHR ''-'' then
           (if ds \<noteq> [] \<and> list_all is_digit ds \<and> digits_value ds \<le> 2 ^ 63
            then Some (word_of_int (- int (digits_value ds))) else None)
         else if list_all is_digit s \<and> digits_value s < 2 ^ 63
         then Some (word_of_nat (digits_value s)) else None)"

section \<open>encoding/base64 (standard alphabet, with padding)\<close>

definition b64_char :: "nat \<Rightarrow> char" where
  "b64_char n = (if n < 26 then char_of (65 + n)
                 else if n < 52 then char_of (71 + n)
                 else if n < 62 then char_of (n - 4)
                 else if n = 62 then CHR ''+'' else CHR ''/'')"

definition b64_value :: "char \<Rightarrow> nat option" where
  "b64_value c = (let n = of_char c :: nat in
     if 65 \<le> n \<and> n \<le> 90 then Some (n - 65)
     else if 97 \<le> n \<and> n \<le> 122 then Some (n - 71)
     else if 48 \<le> n \<and> n \<le> 57 then Some (n + 4)
     else if n = 43 then Some 62 else if n = 47 then Some 63 else None)"

fun b64_encode :: "byte list \<Rightarrow> string" where
  "b64_encode [] = []"
| "b64_encode [a] =
     [b64_char (unat a div 4), b64_char (unat a mod 4 * 16), CHR ''='', CHR ''='']"
| "b64_encode [a, b] =
     [b64_char (unat a div 4), b64_char (unat a mod 4 * 16 + unat b div 16),
      b64_char (unat b mod 16 * 4), CHR ''='']"
| "b64_encode (a # b # c # r) =
     [b64_char (unat a div 4), b64_char (unat a mod 4 * 16 + unat b div 16),
      b64_char (unat b mod 16 * 4 + unat c div 64), b64_char (unat c mod 64)] @ b64_encode r"

text \<open>Decoding skips carriage returns and newlines and does not check the unused low bits of the
  last group (the encoding is not in strict mode).\<close>

definition octet1 :: "nat \<Rightarrow> nat \<Rightarrow> byte" where
  "octet1 p q = word_of_nat (p * 4 + q div 16)"

definition octet2 :: "nat \<Rightarrow> nat \<Rightarrow> byte" where
  "octet2 q s = word_of_nat (q mod 16 * 16 + s div 4)"

definition octet3 :: "nat \<Rightarrow> nat \<Rightarrow> byte" where
  "octet3 s t = word_of_nat (s mod 4 * 64 + t)"

fun b64_groups :: "string \<Rightarrow> byte list option" where
  "b64_groups [] = Some []"
| "b64_groups (w # x # y # z # r) =
     (case (b64_value w, b64_value x) of
        (Some p, Some q) \<Rightarrow>
          (case b64_value y of
             Some s \<Rightarrow>
               (case b64_value z of
                  Some t \<Rightarrow>
                    map_option (\<lambda>bs. octet1 p q # octet2 q s # octet3 s t # bs) (b64_groups r)
                | None \<Rightarrow> if z = CHR ''='' \<and> r = []
                    then Some [octet1 p q, octet2 q s]
                    else None)
           | None \<Rightarrow> if y = CHR ''='' \<and> z = CHR ''='' \<and> r = []
               then Some [octet1 p q] else None)
      | _ \<Rightarrow> None)"
| "b64_groups _ = None"

definition b64_decode :: "string \<Rightarrow> byte list option" where
  "b64_decode s = b64_groups (filter (\<lambda>c. c \<noteq> CHR 0x0A \<and> c \<noteq> CHR 0x0D) s)"

section \<open>Round trips\<close>

lemma of_char_of_small [simp]: "n < 256 \<Longrightarrow> (of_char (char_of n :: char) :: nat) = n"
  by simp

lemma hex_value_digit [simp]: "n < 16 \<Longrightarrow> hex_value (hex_digit n) = Some n"
  by (auto simp: hex_value_def hex_digit_def Let_def)

lemma hex_DecodeString_append:
  "hex_DecodeString (hex_EncodeToString bs @ s) =
     (let (cs, e) = hex_DecodeString s in (bs @ cs, e))"
proof (induction bs)
  case (Cons b bs)
  have "unat b div 16 < 16" using unat_byte_lt [of b] by linarith
  then show ?case using Cons by (simp add: hex_EncodeToString_def split: prod.splits)
qed (simp add: hex_EncodeToString_def)

lemma hex_DecodeString_Encode [roundtrip_simps]:
  "hex_DecodeString (hex_EncodeToString bs) = (bs, None)"
  using hex_DecodeString_append [of bs "[]"] by simp

interpretation hex: codec hex_EncodeToString hex_Decode "\<lambda>_. True"
  by unfold_locales (simp add: hex_Decode_def hex_DecodeString_Encode)

lemma length_hex [simp]: "length (hex_EncodeToString bs) = 2 * length bs"
  by (induction bs) (simp_all add: hex_EncodeToString_def)

lemma length_PutUint64 [simp]: "length (BigEndian_PutUint64 v) = 8"
  by (simp add: BigEndian_PutUint64_def)

lemma bit_shift_in:
  assumes "n < 64"
  shows "bit (foldl (\<lambda>acc x. push_bit 8 acc OR ucast x) (a :: u64) (bs :: byte list)) n \<longleftrightarrow>
    (if n < 8 * length bs then bit (rev bs ! (n div 8)) (n mod 8) else bit a (n - 8 * length bs))"
  using assms
proof (induction bs arbitrary: n rule: rev_induct)
  case (snoc x bs)
  show ?case
  proof (cases "n < 8")
    case True
    then show ?thesis by (simp add: bit_simps)
  next
    case False
    then have d: "n div 8 = Suc ((n - 8) div 8)" by (simp add: le_div_geq)
    from False have m: "n mod 8 = (n - 8) mod 8" by (simp add: le_mod_geq)
    have "bit (ucast x :: u64) n \<longleftrightarrow> False"
      using False bit_imp_le_length [of x n] by (auto simp: bit_ucast_iff)
    with False snoc.prems snoc.IH [of "n - 8"] show ?thesis
      by (simp add: bit_or_iff bit_push_bit_iff d m diff_diff_left less_diff_conv2)
  qed
qed simp

lemma BigEndian_Uint64_Put [roundtrip_simps]: "BigEndian_Uint64 (BigEndian_PutUint64 v) = v"
proof (rule bit_word_eqI)
  fix n assume "n < LENGTH(64)"
  then have n: "n < 64" and d: "n div 8 < 8" and m: "8 * (n div 8) + n mod 8 = n" by auto
  have "rev (BigEndian_PutUint64 v) = map (\<lambda>i. ucast (drop_bit (8 * i) v)) [0..<8]"
    by (simp add: BigEndian_PutUint64_def upt_rec)
  then have "rev (BigEndian_PutUint64 v) ! (n div 8) = ucast (drop_bit (8 * (n div 8)) v)"
    using d by simp
  moreover have "bit (ucast (drop_bit (8 * (n div 8)) v) :: byte) (n mod 8) \<longleftrightarrow> bit v n"
    using m by (simp add: bit_simps)
  ultimately show "bit (BigEndian_Uint64 (BigEndian_PutUint64 v)) n \<longleftrightarrow> bit v n"
    using n by (simp add: BigEndian_Uint64_def bit_shift_in)
qed

interpretation be64: codec BigEndian_PutUint64 "\<lambda>b. Some (BigEndian_Uint64 b)" "\<lambda>_. True"
  by unfold_locales (simp add: BigEndian_Uint64_Put)

subsection \<open>Decimal integers\<close>

lemma decimal_nonempty [simp]: "decimal n \<noteq> []"
  by (subst decimal.simps) simp

lemma is_digit_char [simp]: "(n :: nat) < 10 \<Longrightarrow> is_digit (char_of (48 + n))"
  by (simp add: is_digit_def)

lemma decimal_digits [simp]: "list_all is_digit (decimal n)"
proof (induction n rule: decimal.induct)
  case (1 n)
  then show ?case by (subst decimal.simps) simp
qed

lemma digits_value_snoc: "digits_value (s @ [c]) = 10 * digits_value s + (of_char c - 48)"
  by (simp add: digits_value_def)

lemma digits_value_decimal [simp]: "digits_value (decimal n) = n"
proof (induction n rule: decimal.induct)
  case (1 n)
  show ?case
  proof (cases "n < 10")
    case True
    then show ?thesis by (subst decimal.simps) (simp add: digits_value_def)
  next
    case False
    with 1 have "digits_value (decimal (n div 10)) = n div 10" by simp
    with False show ?thesis by (subst decimal.simps) (simp add: digits_value_snoc)
  qed
qed

lemma decimal_no_minus: "decimal n \<noteq> CHR ''-'' # ds"
  using decimal_digits [of n] by (cases "decimal n") (auto simp: is_digit_def)

lemma ParseUint64_decimal [roundtrip_simps]: "ParseUint64 (decimal (unat v)) = Some v"
  using unsigned_less [where 'a = nat, of v] by (simp add: ParseUint64_def)

interpretation dec64: codec "\<lambda>v. decimal (unat v)" ParseUint64 "\<lambda>_. True"
  by unfold_locales (simp add: ParseUint64_decimal)

lemma ParseInt64_Format [roundtrip_simps]: "ParseInt64 (FormatInt64 v) = Some v"
proof (cases "sint v < 0")
  case True
  have "- (2 ^ 63) \<le> sint v" using sint_ge [of v] by simp
  with True show ?thesis by (simp add: FormatInt64_def ParseInt64_def)
next
  case False
  have "sint v < 2 ^ 63" using sint_lt [of v] by simp
  then have b: "nat (sint v) < 2 ^ 63" using False by simp
  have w: "(word_of_nat (nat (sint v)) :: u64) = v" using False by (simp add: word_of_int_nat)
  obtain c ds where d: "decimal (nat (sint v)) = c # ds" by (cases "decimal (nat (sint v))") auto
  have "c \<noteq> CHR ''-''" using decimal_no_minus d by metis
  moreover have "list_all is_digit (c # ds)" and "digits_value (c # ds) = nat (sint v)"
    using decimal_digits [of "nat (sint v)"] digits_value_decimal [of "nat (sint v)"] d by auto
  ultimately show ?thesis using False b w d by (simp add: FormatInt64_def ParseInt64_def)
qed

interpretation int64: codec FormatInt64 ParseInt64 "\<lambda>_. True"
  by unfold_locales (simp add: ParseInt64_Format)

subsection \<open>Base 64\<close>

lemma b64_value_char [simp]: "n < 64 \<Longrightarrow> b64_value (b64_char n) = Some n"
  by (auto simp: b64_value_def b64_char_def Let_def)

lemma b64_value_pad [simp]: "b64_value (CHR ''='') = None"
  by (simp add: b64_value_def)

lemma b64_char_not_newline [simp]: "n < 64 \<Longrightarrow> b64_char n \<noteq> CHR 0x0A \<and> b64_char n \<noteq> CHR 0x0D"
  using b64_value_char [of n] by (auto simp: b64_value_def)

lemma sextets:
  fixes a b c :: byte
  shows "unat a div 4 < 64" and "unat a mod 4 * 16 < 64" and "unat a mod 4 * 16 + unat b div 16 < 64"
    and "unat b mod 16 * 4 < 64" and "unat b mod 16 * 4 + unat c div 64 < 64" and "unat c mod 64 < 64"
  using unat_byte_lt [of a] unat_byte_lt [of b] unat_byte_lt [of c] by linarith+

lemma word_of_unat_eq: "n = unat b \<Longrightarrow> word_of_nat n = (b :: byte)"
  by simp

lemma octets:
  fixes a b c :: byte
  shows "octet1 (unat a div 4) (unat a mod 4 * 16 + unat b div 16) = a"
    and "octet1 (unat a div 4) (unat a mod 4 * 16) = a"
    and "octet2 (unat a mod 4 * 16 + unat b div 16) (unat b mod 16 * 4 + unat c div 64) = b"
    and "octet2 (unat a mod 4 * 16 + unat b div 16) (unat b mod 16 * 4) = b"
    and "octet3 (unat b mod 16 * 4 + unat c div 64) (unat c mod 64) = c"
proof -
  have b: "unat b div 16 < 16" and c: "unat c div 64 < 4"
    using unat_byte_lt [of b] unat_byte_lt [of c] by linarith+
  show "octet1 (unat a div 4) (unat a mod 4 * 16 + unat b div 16) = a"
    unfolding octet1_def using b by (intro word_of_unat_eq) simp
  show "octet1 (unat a div 4) (unat a mod 4 * 16) = a"
    unfolding octet1_def by (intro word_of_unat_eq) simp
  show "octet2 (unat a mod 4 * 16 + unat b div 16) (unat b mod 16 * 4 + unat c div 64) = b"
    unfolding octet2_def using b c by (intro word_of_unat_eq) simp
  show "octet2 (unat a mod 4 * 16 + unat b div 16) (unat b mod 16 * 4) = b"
    unfolding octet2_def using b by (intro word_of_unat_eq) simp
  show "octet3 (unat b mod 16 * 4 + unat c div 64) (unat c mod 64) = c"
    unfolding octet3_def using c by (intro word_of_unat_eq) simp
qed

lemma b64_decode_encode [roundtrip_simps]: "b64_decode (b64_encode bs) = Some bs"
proof (induction bs rule: b64_encode.induct)
  case (4 a b c r)
  then show ?case by (simp add: b64_decode_def sextets octets)
qed (simp_all add: b64_decode_def sextets octets)

interpretation b64: codec b64_encode b64_decode "\<lambda>_. True"
  by unfold_locales (simp add: b64_decode_encode)

end
