(* ===== verification/Json.thy ===== *)
theory Json
  imports Encoding
begin

text \<open>
  \<^verbatim>\<open>encoding/json\<close> as the sources use it: the value tree, \<^verbatim>\<open>Marshal\<close> and
  \<^verbatim>\<open>MarshalIndent\<close> as renderers, \<^verbatim>\<open>Unmarshal\<close> as a parser of the JSON grammar
  followed by typed decoders (range checks, \<^verbatim>\<open>null\<close> leaves a field unchanged, unknown
  fields ignored, exact field name first and then the case-folded one, base 64 for byte slices,
  number arrays for byte arrays). Bytes above 127 inside strings are copied as they are: the
  replacement of ill-formed UTF-8 is not modelled, and neither are the nesting limit of the scanner and
  the reuse of old elements when one object names a slice field twice.
\<close>

datatype json = JNull | JBool bool | JNum string | JStr string
  | JArr "json list" | JObj "(string \<times> json) list"

section \<open>Rendering\<close>

definition hex4 :: "nat \<Rightarrow> string" where
  "hex4 n = [hex_digit (n div 4096 mod 16), hex_digit (n div 256 mod 16),
             hex_digit (n div 16 mod 16), hex_digit (n mod 16)]"

definition escape_char :: "char \<Rightarrow> string" where
  "escape_char c = (let n = of_char c :: nat in
     if c = CHR 0x22 \<or> c = CHR 0x5C then [CHR 0x5C, c]
     else if c = CHR 0x0A then [CHR 0x5C, CHR ''n'']
     else if c = CHR 0x0D then [CHR 0x5C, CHR ''r'']
     else if c = CHR 0x09 then [CHR 0x5C, CHR ''t'']
     else if n < 32 \<or> c = CHR ''<'' \<or> c = CHR ''>'' \<or> c = CHR ''&''
     then CHR 0x5C # CHR ''u'' # hex4 n
     else [c])"

definition json_quote :: "string \<Rightarrow> string" where
  "json_quote s = CHR 0x22 # concat (map escape_char s) @ [CHR 0x22]"

text \<open>\<open>nl d\<close> is written before each element and before a closing bracket at depth \<open>d\<close>,
  \<open>sp\<close> after a colon: both empty for \<^verbatim>\<open>Marshal\<close>.\<close>

fun render :: "(nat \<Rightarrow> string) \<Rightarrow> string \<Rightarrow> nat \<Rightarrow> json \<Rightarrow> string"
and render_elems :: "(nat \<Rightarrow> string) \<Rightarrow> string \<Rightarrow> nat \<Rightarrow> json list \<Rightarrow> string"
and render_members :: "(nat \<Rightarrow> string) \<Rightarrow> string \<Rightarrow> nat \<Rightarrow> (string \<times> json) list \<Rightarrow> string" where
  "render nl sp d JNull = ''null''"
| "render nl sp d (JBool b) = (if b then ''true'' else ''false'')"
| "render nl sp d (JNum l) = l"
| "render nl sp d (JStr s) = json_quote s"
| "render nl sp d (JArr vs) = CHR ''['' # (if vs = [] then [CHR '']'']
     else nl (Suc d) @ render_elems nl sp (Suc d) vs @ nl d @ [CHR '']''])"
| "render nl sp d (JObj kvs) = CHR ''{'' # (if kvs = [] then [CHR ''}'']
     else nl (Suc d) @ render_members nl sp (Suc d) kvs @ nl d @ [CHR ''}''])"
| "render_elems nl sp d [] = []"
| "render_elems nl sp d (v # vs) = render nl sp d v @
     (if vs = [] then [] else CHR '','' # nl d @ render_elems nl sp d vs)"
| "render_members nl sp d [] = []"
| "render_members nl sp d ((k, v) # kvs) = json_quote k @ CHR '':'' # sp @ render nl sp d v @
     (if kvs = [] then [] else CHR '','' # nl d @ render_members nl sp d kvs)"

definition json_Marshal :: "json \<Rightarrow> string" where
  "json_Marshal v = render (\<lambda>_. []) [] 0 v"

definition json_MarshalIndent :: "json \<Rightarrow> string" where
  "json_MarshalIndent v = render (\<lambda>d. CHR 0x0A # replicate (2 * d) (CHR 0x20)) [CHR 0x20] 0 v"

section \<open>Parsing\<close>

definition is_ws :: "char \<Rightarrow> bool" where
  "is_ws c \<longleftrightarrow> c = CHR 0x20 \<or> c = CHR 0x09 \<or> c = CHR 0x0A \<or> c = CHR 0x0D"

definition skip_ws :: "string \<Rightarrow> string" where
  "skip_ws s = dropWhile is_ws s"

text \<open>UTF-8 of a code point below \<open>0x110000\<close>.\<close>

definition utf8 :: "nat \<Rightarrow> string" where
  "utf8 n = (if n < 128 then [char_of n]
     else if n < 2048 then [char_of (192 + n div 64), char_of (128 + n mod 64)]
     else if n < 65536 then
       [char_of (224 + n div 4096), char_of (128 + n div 64 mod 64), char_of (128 + n mod 64)]
     else [char_of (240 + n div 262144), char_of (128 + n div 4096 mod 64),
           char_of (128 + n div 64 mod 64), char_of (128 + n mod 64)])"

definition read_hex4 :: "char \<Rightarrow> char \<Rightarrow> char \<Rightarrow> char \<Rightarrow> nat option" where
  "read_hex4 a b c d = (case (hex_value a, hex_value b, hex_value c, hex_value d) of
     (Some w, Some x, Some y, Some z) \<Rightarrow> Some (4096 * w + 256 * x + 16 * y + z) | _ \<Rightarrow> None)"

definition unescape :: "char \<Rightarrow> char option" where
  "unescape e = (if e = CHR 0x22 \<or> e = CHR 0x5C \<or> e = CHR ''/'' then Some e
     else if e = CHR ''b'' then Some (CHR 0x08) else if e = CHR ''f'' then Some (CHR 0x0C)
     else if e = CHR ''n'' then Some (CHR 0x0A) else if e = CHR ''r'' then Some (CHR 0x0D)
     else if e = CHR ''t'' then Some (CHR 0x09) else None)"

definition prepend :: "string \<Rightarrow> (string \<times> string) option \<Rightarrow> (string \<times> string) option" where
  "prepend p r = map_option (\<lambda>(t, s). (p @ t, s)) r"

text \<open>An escape sequence after its backslash; a lone surrogate becomes U+FFFD.\<close>

definition hex_escape :: "string \<Rightarrow> (nat \<times> string) option" where
  "hex_escape s = (case s of a # b # c # d # r \<Rightarrow> map_option (\<lambda>n. (n, r)) (read_hex4 a b c d) | _ \<Rightarrow> None)"

definition low_half :: "string \<Rightarrow> (nat \<times> string) option" where
  "low_half s = (case s of b # u # r \<Rightarrow> if b = CHR 0x5C \<and> u = CHR ''u'' then hex_escape r else None | _ \<Rightarrow> None)"

definition unicode_escape :: "nat \<Rightarrow> string \<Rightarrow> string \<times> string" where
  "unicode_escape n s =
     (if 55296 \<le> n \<and> n < 57344 then
        (case low_half s of
           Some (m, r) \<Rightarrow> if n < 56320 \<and> 56320 \<le> m \<and> m < 57344
             then (utf8 (65536 + (n - 55296) * 1024 + (m - 56320)), r) else (utf8 65533, s)
         | None \<Rightarrow> (utf8 65533, s))
      else (utf8 n, s))"

definition parse_escape :: "string \<Rightarrow> (string \<times> string) option" where
  "parse_escape s = (case s of
     [] \<Rightarrow> None
   | e # r \<Rightarrow> if e = CHR ''u'' then map_option (\<lambda>(n, r'). unicode_escape n r') (hex_escape r)
              else map_option (\<lambda>x. ([x], r)) (unescape e))"

lemma hex_escape_length: "hex_escape s = Some (n, r) \<Longrightarrow> length r < length s"
  by (auto simp: hex_escape_def split: list.splits)

lemma low_half_length: "low_half s = Some (n, r) \<Longrightarrow> length r < length s"
  by (auto simp: low_half_def split: list.splits if_splits dest: hex_escape_length)

lemma unicode_escape_length: "length (snd (unicode_escape n s)) \<le> length s"
  by (auto simp: unicode_escape_def split: option.splits dest: low_half_length)

lemma parse_escape_length: "parse_escape s = Some (t, r) \<Longrightarrow> length r < length s"
proof (cases s)
  case (Cons e s1)
  assume *: "parse_escape s = Some (t, r)"
  show ?thesis
  proof (cases "e = CHR ''u''")
    case True
    then obtain n r' where "hex_escape s1 = Some (n, r')" and "unicode_escape n r' = (t, r)"
      using * Cons by (auto simp: parse_escape_def)
    then show ?thesis using Cons hex_escape_length unicode_escape_length [of n r'] by fastforce
  next
    case False
    then show ?thesis using * Cons by (auto simp: parse_escape_def)
  qed
qed (simp add: parse_escape_def)

text \<open>The characters of a string after its opening quote.\<close>

function parse_chars :: "string \<Rightarrow> (string \<times> string) option" where
  "parse_chars [] = None"
| "parse_chars (c # s) =
     (if c = CHR 0x22 then Some ([], s)
      else if c = CHR 0x5C then
        (case parse_escape s of None \<Rightarrow> None | Some (t, r) \<Rightarrow> prepend t (parse_chars r))
      else if (of_char c :: nat) < 32 then None
      else prepend [c] (parse_chars s))"
  by pat_completeness auto
termination
  by (relation "measure length") (auto dest: parse_escape_length)

definition digits :: "string \<Rightarrow> string \<times> string" where
  "digits s = (takeWhile is_digit s, dropWhile is_digit s)"

definition starts :: "char \<Rightarrow> string \<Rightarrow> bool" where
  "starts c s \<longleftrightarrow> (case s of [] \<Rightarrow> False | x # _ \<Rightarrow> x = c)"

text \<open>The number literal at the start of the input, by the JSON grammar.\<close>

definition parse_frac :: "string \<Rightarrow> (string \<times> string) option" where
  "parse_frac s = (if starts (CHR ''.'') s then
       (case digits (tl s) of (ds, r) \<Rightarrow> if ds = [] then None else Some (CHR ''.'' # ds, r))
     else Some ([], s))"

definition parse_exp :: "string \<Rightarrow> (string \<times> string) option" where
  "parse_exp s = (if starts (CHR ''e'') s \<or> starts (CHR ''E'') s then
       (let s1 = tl s;
            sg = (if starts (CHR ''+'') s1 \<or> starts (CHR ''-'') s1 then [hd s1] else []);
            s2 = drop (length sg) s1
        in case digits s2 of (ds, r) \<Rightarrow> if ds = [] then None else Some (hd s # sg @ ds, r))
     else Some ([], s))"

definition parse_int_part :: "string \<Rightarrow> (string \<times> string) option" where
  "parse_int_part s = (if starts (CHR ''0'') s then Some (''0'', tl s)
     else case digits s of (ds, r) \<Rightarrow> if ds = [] then None else Some (ds, r))"

definition parse_number :: "string \<Rightarrow> (string \<times> string) option" where
  "parse_number s =
     (let sg = (if starts (CHR ''-'') s then ''-'' else [])
      in case parse_int_part (drop (length sg) s) of None \<Rightarrow> None | Some (ip, s1) \<Rightarrow>
         (case parse_frac s1 of None \<Rightarrow> None | Some (fp, s2) \<Rightarrow>
         (case parse_exp s2 of None \<Rightarrow> None | Some (ep, s3) \<Rightarrow> Some (sg @ ip @ fp @ ep, s3))))"

definition parse_literal :: "string \<Rightarrow> json \<Rightarrow> string \<Rightarrow> (json \<times> string) option" where
  "parse_literal l v s = (if take (length l) s = l then Some (v, drop (length l) s) else None)"

text \<open>Each call spends one unit of fuel; \<open>json_Unmarshal\<close> gives more than the input can use
  (lemma \<open>parse_fuel\<close>), so that \<open>None\<close> is a syntax error.\<close>

fun parse_value :: "nat \<Rightarrow> string \<Rightarrow> (json \<times> string) option"
and parse_elems :: "nat \<Rightarrow> string \<Rightarrow> (json list \<times> string) option"
and parse_members :: "nat \<Rightarrow> string \<Rightarrow> ((string \<times> json) list \<times> string) option" where
  "parse_value 0 s = None"
| "parse_value (Suc n) s =
     (case skip_ws s of
        [] \<Rightarrow> None
      | c # r \<Rightarrow>
          if c = CHR 0x22 then map_option (\<lambda>(t, r'). (JStr t, r')) (parse_chars r)
          else if c = CHR ''['' then
            (if starts (CHR '']'') (skip_ws r) then Some (JArr [], tl (skip_ws r))
             else map_option (\<lambda>(vs, r'). (JArr vs, r')) (parse_elems n r))
          else if c = CHR ''{'' then
            (if starts (CHR ''}'') (skip_ws r) then Some (JObj [], tl (skip_ws r))
             else map_option (\<lambda>(kvs, r'). (JObj kvs, r')) (parse_members n r))
          else if c = CHR ''n'' then parse_literal ''null'' JNull (c # r)
          else if c = CHR ''t'' then parse_literal ''true'' (JBool True) (c # r)
          else if c = CHR ''f'' then parse_literal ''false'' (JBool False) (c # r)
          else map_option (\<lambda>(l, r'). (JNum l, r')) (parse_number (c # r)))"
| "parse_elems 0 s = None"
| "parse_elems (Suc n) s =
     (case parse_value n s of
        None \<Rightarrow> None
      | Some (v, r) \<Rightarrow>
          (case skip_ws r of
             [] \<Rightarrow> None
           | c # r' \<Rightarrow>
               if c = CHR '','' then map_option (\<lambda>(vs, r''). (v # vs, r'')) (parse_elems n r')
               else if c = CHR '']'' then Some ([v], r') else None))"
| "parse_members 0 s = None"
| "parse_members (Suc n) s =
     (if \<not> starts (CHR 0x22) (skip_ws s) then None else
      case parse_chars (tl (skip_ws s)) of
        None \<Rightarrow> None
      | Some (k, r1) \<Rightarrow>
          if \<not> starts (CHR '':'') (skip_ws r1) then None else
          case parse_value n (tl (skip_ws r1)) of
            None \<Rightarrow> None
          | Some (v, r) \<Rightarrow>
              (case skip_ws r of
                 [] \<Rightarrow> None
               | c # r' \<Rightarrow>
                   if c = CHR '','' then map_option (\<lambda>(kvs, r''). ((k, v) # kvs, r'')) (parse_members n r')
                   else if c = CHR ''}'' then Some ([(k, v)], r') else None))"

definition json_Unmarshal :: "string \<Rightarrow> json option" where
  "json_Unmarshal s = (case parse_value (2 * length s + 2) s of
     Some (v, r) \<Rightarrow> if skip_ws r = [] then Some v else None | None \<Rightarrow> None)"

section \<open>Typed decoding\<close>

text \<open>A decoder takes the JSON value and the old content of the variable.\<close>

type_synonym 'a decoder = "json \<Rightarrow> 'a \<Rightarrow> 'a option"

definition dec_uint64 :: "u64 decoder" where
  "dec_uint64 j old = (case j of JNull \<Rightarrow> Some old | JNum l \<Rightarrow> ParseUint64 l | _ \<Rightarrow> None)"

definition dec_int64 :: "u64 decoder" where
  "dec_int64 j old = (case j of JNull \<Rightarrow> Some old | JNum l \<Rightarrow> ParseInt64 l | _ \<Rightarrow> None)"

definition dec_uint8 :: "byte decoder" where
  "dec_uint8 j old = (case j of JNull \<Rightarrow> Some old
     | JNum l \<Rightarrow> (case ParseUint64 l of Some v \<Rightarrow> if unat v < 256 then Some (ucast v) else None | None \<Rightarrow> None)
     | _ \<Rightarrow> None)"

definition dec_string :: "string decoder" where
  "dec_string j old = (case j of JNull \<Rightarrow> Some old | JStr s \<Rightarrow> Some s | _ \<Rightarrow> None)"

text \<open>A byte array \<^verbatim>\<open>[n]byte\<close>: elements beyond the array are ignored, missing ones are 0.\<close>

fun dec_array_elems :: "json list \<Rightarrow> byte list \<Rightarrow> byte list option" where
  "dec_array_elems _ [] = Some []"
| "dec_array_elems [] (b # bs) = Some (replicate (length (b # bs)) 0)"
| "dec_array_elems (v # vs) (b # bs) =
     (case dec_uint8 v b of None \<Rightarrow> None
      | Some x \<Rightarrow> map_option (\<lambda>xs. x # xs) (dec_array_elems vs bs))"

definition dec_array :: "byte list decoder" where
  "dec_array j old = (case j of JNull \<Rightarrow> Some old | JArr vs \<Rightarrow> dec_array_elems vs old | _ \<Rightarrow> None)"

text \<open>A slice of any element type; \<open>z\<close> is the zero value each element starts from.\<close>

fun dec_elems :: "'a decoder \<Rightarrow> 'a \<Rightarrow> json list \<Rightarrow> 'a list option" where
  "dec_elems f z [] = Some []"
| "dec_elems f z (v # vs) =
     (case f v z of None \<Rightarrow> None | Some x \<Rightarrow> map_option (\<lambda>xs. x # xs) (dec_elems f z vs))"

definition dec_list :: "'a decoder \<Rightarrow> 'a \<Rightarrow> 'a list decoder" where
  "dec_list f z j old = (case j of JNull \<Rightarrow> Some [] | JArr vs \<Rightarrow> dec_elems f z vs | _ \<Rightarrow> None)"

text \<open>A byte slice: base 64, or a list of numbers; \<^verbatim>\<open>null\<close> makes it nil, here the empty list.\<close>

definition dec_slice :: "byte list decoder" where
  "dec_slice j old = (case j of JStr s \<Rightarrow> b64_decode s | _ \<Rightarrow> dec_list dec_uint8 0 j old)"

text \<open>A pointer: \<^verbatim>\<open>null\<close> makes it nil.\<close>

definition dec_ptr :: "'a decoder \<Rightarrow> 'a \<Rightarrow> 'a option decoder" where
  "dec_ptr f z j old = (case j of JNull \<Rightarrow> Some None
     | _ \<Rightarrow> map_option Some (f j (case old of None \<Rightarrow> z | Some x \<Rightarrow> x)))"

text \<open>Field names are matched exactly first, then up to simple case folding (ASCII letters, the
  Kelvin sign and the long s).\<close>

fun fold_key :: "string \<Rightarrow> string" where
  "fold_key [] = []"
| "fold_key (c # s) =
     (if c = CHR 0xE2 \<and> take 2 s = [CHR 0x84, CHR 0xAA] then CHR ''k'' # fold_key (drop 2 s)
      else if c = CHR 0xC5 \<and> take 1 s = [CHR 0xBF] then CHR ''s'' # fold_key (drop 1 s)
      else (let n = of_char c :: nat in if 65 \<le> n \<and> n \<le> 90 then char_of (n + 32) else c) # fold_key s)"

definition find_field :: "(string \<times> 'f) list \<Rightarrow> string \<Rightarrow> 'f option" where
  "find_field fs k = (case map_of fs k of
     Some f \<Rightarrow> Some f
   | None \<Rightarrow> (case filter (\<lambda>nf. fold_key (fst nf) = fold_key k) fs of [] \<Rightarrow> None | nf # _ \<Rightarrow> Some (snd nf)))"

fun dec_members :: "(string \<times> 'r decoder) list \<Rightarrow> (string \<times> json) list \<Rightarrow> 'r \<Rightarrow> 'r option" where
  "dec_members fs [] r = Some r"
| "dec_members fs ((k, v) # kvs) r =
     (case find_field fs k of
        None \<Rightarrow> dec_members fs kvs r
      | Some f \<Rightarrow> (case f v r of None \<Rightarrow> None | Some r' \<Rightarrow> dec_members fs kvs r'))"

definition dec_struct :: "(string \<times> 'r decoder) list \<Rightarrow> 'r decoder" where
  "dec_struct fs j old = (case j of JNull \<Rightarrow> Some old | JObj kvs \<Rightarrow> dec_members fs kvs old | _ \<Rightarrow> None)"

section \<open>Typed encoding\<close>

definition enc_uint64 :: "u64 \<Rightarrow> json" where
  "enc_uint64 v = JNum (decimal (unat v))"

definition enc_int64 :: "u64 \<Rightarrow> json" where
  "enc_int64 v = JNum (FormatInt64 v)"

definition enc_array :: "byte list \<Rightarrow> json" where
  "enc_array bs = JArr (map (\<lambda>b. JNum (decimal (unat b))) bs)"

text \<open>Nil slices are written \<^verbatim>\<open>null\<close>; the model does not distinguish a nil slice from an
  empty one, and both decode to the empty list.\<close>

definition enc_slice :: "byte list \<Rightarrow> json" where
  "enc_slice bs = (if bs = [] then JNull else JStr (b64_encode bs))"

definition enc_list :: "('a \<Rightarrow> json) \<Rightarrow> 'a list \<Rightarrow> json" where
  "enc_list f xs = (if xs = [] then JNull else JArr (map f xs))"

end
