(* ===== verification/Json_Roundtrip.thy ===== *)
theory Json_Roundtrip
  imports Json
begin

text \<open>
  The JSON layer is a faithful transport: parsing never runs out of fuel, and what
  \<^verbatim>\<open>Marshal\<close> or \<^verbatim>\<open>MarshalIndent\<close> wrote is read back as the same value.
\<close>

section \<open>Well-formed values: the integer literals the encoders emit\<close>

definition int_literal :: "string \<Rightarrow> bool" where
  "int_literal l \<longleftrightarrow> (let ds = (if starts (CHR ''-'') l then tl l else l) in
     ds \<noteq> [] \<and> list_all is_digit ds \<and> (ds = ''0'' \<or> \<not> starts (CHR ''0'') ds))"

fun wf_json :: "json \<Rightarrow> bool" where
  "wf_json (JNum l) = int_literal l"
| "wf_json (JArr vs) = (\<forall>v \<in> set vs. wf_json v)"
| "wf_json (JObj kvs) = (\<forall>kv \<in> set kvs. wf_json (snd kv))"
| "wf_json _ = True"

text \<open>What may follow a number: not a character that would extend it.\<close>

definition num_end :: "string \<Rightarrow> bool" where
  "num_end r \<longleftrightarrow> (case r of [] \<Rightarrow> True
     | c # _ \<Rightarrow> \<not> is_digit c \<and> c \<noteq> CHR ''.'' \<and> c \<noteq> CHR ''e'' \<and> c \<noteq> CHR ''E'')"

section \<open>White space\<close>

lemma skip_ws_append [simp]: "list_all is_ws w \<Longrightarrow> skip_ws (w @ s) = skip_ws s"
  by (induction w) (auto simp: skip_ws_def)

lemma skip_ws_Cons: "skip_ws (c # s) = (if is_ws c then skip_ws s else c # s)"
  by (simp add: skip_ws_def)

lemma length_skip_ws [simp]: "length (skip_ws s) \<le> length s"
  by (simp add: skip_ws_def length_dropWhile_le)

lemma skip_ws_length: "skip_ws s = c # r \<Longrightarrow> length r < length s"
  using length_skip_ws [of s] by simp

lemma parse_value_ws [simp]: "list_all is_ws w \<Longrightarrow> parse_value n (w @ s) = parse_value n s"
  by (cases n) simp_all

lemma parse_elems_ws [simp]: "list_all is_ws w \<Longrightarrow> parse_elems n (w @ s) = parse_elems n s"
  by (cases n) simp_all

lemma parse_members_ws [simp]: "list_all is_ws w \<Longrightarrow> parse_members n (w @ s) = parse_members n s"
  by (cases n) simp_all

lemma starts_Cons [simp]: "starts c (x # s) \<longleftrightarrow> x = c" and starts_Nil [simp]: "\<not> starts c []"
  by (simp_all add: starts_def)

lemma starts_length: "starts c s \<Longrightarrow> length s - Suc 0 < length s"
  by (cases s) simp_all

lemma starts_skip_length: "starts c (skip_ws s) \<Longrightarrow> length s < n \<Longrightarrow> length (skip_ws s) - Suc 0 < n"
  using length_skip_ws [of s] by linarith

section \<open>Every parser consumes input\<close>

lemma prepend_Some [simp]: "prepend p r = Some (t, s) \<longleftrightarrow> (\<exists>t'. r = Some (t', s) \<and> t = p @ t')"
  by (auto simp: prepend_def)

lemma parse_chars_length: "parse_chars s = Some (t, r) \<Longrightarrow> length r < length s"
proof (induction s arbitrary: t r rule: length_induct)
  case (1 s)
  then show ?case
  proof (cases s)
    case (Cons c s')
    from 1 have IH: "\<And>s1 t r. length s1 < length s \<Longrightarrow> parse_chars s1 = Some (t, r) \<Longrightarrow> length r < length s1"
      by blast
    consider "c = CHR 0x22" | "c = CHR 0x5C" | "c \<noteq> CHR 0x22" "c \<noteq> CHR 0x5C" by blast
    then show ?thesis
    proof cases
      case 2
      then obtain u s1 t' where e: "parse_escape s' = Some (u, s1)" and p: "parse_chars s1 = Some (t', r)"
        using "1.prems" Cons by (auto split: option.splits)
      from e have "length s1 < length s'" by (rule parse_escape_length)
      with IH [OF _ p] Cons show ?thesis by simp
    qed (use "1.prems" Cons IH [of s'] in \<open>auto split: if_splits dest: less_SucI\<close>)
  qed simp
qed

lemma digits_length: "digits s = (ds, r) \<Longrightarrow> length s = length ds + length r"
  unfolding digits_def by (metis length_append prod.inject takeWhile_dropWhile_id)

lemma parse_int_part_length: "parse_int_part s = Some (l, r) \<Longrightarrow> length r < length s"
  by (auto simp: parse_int_part_def starts_length split: if_splits prod.splits dest: digits_length)

lemma parse_frac_length: "parse_frac s = Some (l, r) \<Longrightarrow> length r \<le> length s"
  by (auto simp: parse_frac_def split: if_splits prod.splits dest!: digits_length)

lemma parse_exp_length: "parse_exp s = Some (l, r) \<Longrightarrow> length r \<le> length s"
  by (auto simp: parse_exp_def Let_def split: if_splits prod.splits dest!: digits_length)

lemma parse_number_length: "parse_number s = Some (l, r) \<Longrightarrow> length r < length s"
proof (cases s)
  case Nil
  then show "parse_number s = Some (l, r) \<Longrightarrow> ?thesis"
    by (simp add: parse_number_def parse_int_part_def digits_def)
next
  case (Cons c s')
  then show "parse_number s = Some (l, r) \<Longrightarrow> ?thesis"
    by (fastforce simp: parse_number_def Let_def split: if_splits option.splits prod.splits
        dest!: parse_int_part_length parse_frac_length parse_exp_length)
qed

lemma parse_literal_length:
  "parse_literal l v s = Some (w, r) \<Longrightarrow> l \<noteq> [] \<Longrightarrow> length r < length s"
  by (cases s; cases l) (auto simp: parse_literal_def split: if_splits)

lemma parse_length:
  "parse_value n s = Some (v, r) \<Longrightarrow> length r < length s"
  "parse_elems n s = Some (vs, r) \<Longrightarrow> length r < length s"
  "parse_members n s = Some (kvs, r) \<Longrightarrow> length r < length s"
proof (induction n s and n s and n s arbitrary: v r and vs r and kvs r
    rule: parse_value_parse_elems_parse_members.induct)
  case (2 n s)
  then show ?case
    by (auto split: list.splits if_splits
        dest!: skip_ws_length parse_chars_length parse_number_length parse_literal_length
        intro: starts_skip_length less_trans)
next
  case (4 n s)
  then show ?case
    by (fastforce split: option.splits list.splits if_splits dest!: skip_ws_length)
next
  case (6 n s)
  from "6.prems" obtain k r1 v r2 c r' where st: "starts (CHR 0x22) (skip_ws s)"
    and k: "parse_chars (tl (skip_ws s)) = Some (k, r1)" and st1: "starts (CHR '':'') (skip_ws r1)"
    and v: "parse_value n (tl (skip_ws r1)) = Some (v, r2)" and c: "skip_ws r2 = c # r'"
    and r: "r = r' \<or> (\<exists>kvs. parse_members n r' = Some (kvs, r))"
    by (auto split: option.splits list.splits if_splits)
  have "length r1 < length s"
    using parse_chars_length [OF k] length_skip_ws [of s] unfolding length_tl by linarith
  moreover have "length r2 < length (tl (skip_ws r1))"
    using "6.IH"(1) st k st1 v by fastforce
  moreover have "length r' < length r2" using c by (rule skip_ws_length)
  moreover have "length r \<le> length r'"
    using r "6.IH"(2) st k st1 v c "6.prems" by (fastforce split: if_splits)
  ultimately show ?case using length_skip_ws [of r1] unfolding length_tl by linarith
qed simp_all

section \<open>Fuel\<close>

declare parse_value.simps(2) [simp del] parse_elems.simps(2) [simp del] parse_members.simps(2) [simp del]

lemma parse_fuel:
  "2 * length s < n \<Longrightarrow> parse_value (Suc n) s = parse_value n s"
  "2 * length s + 1 < n \<Longrightarrow> parse_elems (Suc n) s = parse_elems n s"
  "2 * length s + 1 < n \<Longrightarrow> parse_members (Suc n) s = parse_members n s"
proof (induction n arbitrary: s)
  case (Suc n)
  {
    case 1
    have "parse_elems (Suc n) r = parse_elems n r \<and> parse_members (Suc n) r = parse_members n r"
      if "skip_ws s = c # r" for c r
      using Suc.IH(2,3) [of r] skip_ws_length [OF that] 1 by simp
    then show ?case
      unfolding parse_value.simps(2) [of "Suc n" s] parse_value.simps(2) [of n s] by (auto split: list.split)
  next
    case 2
    have v: "parse_value (Suc n) s = parse_value n s" using 2 Suc.IH(1) by simp
    have "parse_elems (Suc n) r' = parse_elems n r'"
      if "parse_value n s = Some (v, r)" "skip_ws r = c # r'" for v r c r'
      using Suc.IH(2) [of r'] skip_ws_length [OF that(2)] parse_length(1) [OF that(1)] 2 by simp
    then show ?case
      unfolding parse_elems.simps(2) [of "Suc n" s] parse_elems.simps(2) [of n s] v
      by (cases "parse_value n s") (auto split: list.split)
  next
    case 3
    have v: "parse_value (Suc n) (tl (skip_ws r1)) = parse_value n (tl (skip_ws r1))"
      if "parse_chars (tl (skip_ws s)) = Some (k, r1)" for k r1
      using Suc.IH(1) [of "tl (skip_ws r1)"] parse_chars_length [OF that] 3
        length_skip_ws [of s] length_skip_ws [of r1] unfolding length_tl by linarith
    have m: "parse_members (Suc n) r' = parse_members n r'"
      if "parse_chars (tl (skip_ws s)) = Some (k, r1)" "parse_value n (tl (skip_ws r1)) = Some (v, r)"
        "skip_ws r = c # r'" for k r1 v r c r'
      using Suc.IH(3) [of r'] skip_ws_length [OF that(3)] parse_length(1) [OF that(2)]
        parse_chars_length [OF that(1)] 3 length_skip_ws [of s] length_skip_ws [of r1]
      unfolding length_tl by linarith
    show ?case
    proof (cases "parse_chars (tl (skip_ws s))")
      case (Some kr)
      obtain k r1 where kr: "kr = (k, r1)" by (cases kr)
      show ?thesis
        unfolding parse_members.simps(2) [of "Suc n" s] parse_members.simps(2) [of n s] using Some m [of k r1]
        by (cases "parse_value n (tl (skip_ws r1))") (auto simp: kr v [of k r1] split: list.split)
    qed (simp add: parse_members.simps(2))
  }
qed simp_all

section \<open>Reading back what was rendered\<close>

lemma base16_step:
  "n = 16 * a + x \<Longrightarrow> a = 16 * b + y \<Longrightarrow> b = 16 * c + z \<Longrightarrow> 4096 * c + 256 * z + 16 * y + x = (n :: nat)"
  by simp

lemma hex4_value:
  "4096 * (n div 4096) + 256 * (n div 256 mod 16) + 16 * (n div 16 mod 16) + n mod 16 = (n :: nat)"
proof (rule base16_step)
  show "n = 16 * (n div 16) + n mod 16" by simp
  show "n div 16 = 16 * (n div 256) + n div 16 mod 16"
    using div_mult2_eq [of n 16 16] mult_div_mod_eq [of 16 "n div 16"] by simp
  show "n div 256 = 16 * (n div 4096) + n div 256 mod 16"
    using div_mult2_eq [of n 256 16] mult_div_mod_eq [of 16 "n div 256"] by simp
qed

lemma hex_escape_hex4 [simp]: "n < 65536 \<Longrightarrow> hex_escape (hex4 n @ r) = Some (n, r)"
  by (simp add: hex_escape_def hex4_def read_hex4_def hex4_value)

lemma unicode_escape_ascii [simp]: "n < 128 \<Longrightarrow> unicode_escape n s = ([char_of n], s)"
  by (simp add: unicode_escape_def utf8_def)

lemma html_chars [simp]:
  "char_of (60 :: nat) = CHR ''<''" "char_of (62 :: nat) = CHR ''>''" "char_of (38 :: nat) = CHR ''&''"
  by (rule of_char_eqI [where 'a = nat], simp)+

lemma parse_chars_escape: "parse_chars (escape_char c @ s) = prepend [c] (parse_chars s)"
  by (auto simp: escape_char_def Let_def parse_escape_def unescape_def)

lemma parse_chars_quoted: "parse_chars (concat (map escape_char s) @ CHR 0x22 # r) = Some (s, r)"
  by (induction s) (simp_all add: parse_chars_escape prepend_def)

lemma digits_append: "list_all is_digit ds \<Longrightarrow> (\<And>c r'. r = c # r' \<Longrightarrow> \<not> is_digit c) \<Longrightarrow> digits (ds @ r) = (ds, r)"
  by (cases r) (auto simp: digits_def list_all_iff takeWhile_append dropWhile_append)

lemma parse_number_literal:
  assumes "int_literal l" and "num_end r"
  shows "parse_number (l @ r) = Some (l, r)"
proof -
  define sg where "sg = (if starts (CHR ''-'') l then ''-'' else [])"
  define ds where "ds = (if starts (CHR ''-'') l then tl l else l)"
  have l: "l = sg @ ds" by (cases l) (auto simp: sg_def ds_def)
  have ne: "ds \<noteq> []" and dig: "list_all is_digit ds" and zero: "ds = ''0'' \<or> \<not> starts (CHR ''0'') ds"
    using assms(1) by (auto simp: int_literal_def ds_def Let_def)
  have sg: "(if starts (CHR ''-'') (l @ r) then ''-'' else []) = sg"
    using ne l by (cases l) (auto simp: sg_def)
  have r: "\<not> is_digit c" if "r = c # r'" for c r' using assms(2) that by (simp add: num_end_def)
  have "parse_int_part (ds @ r) = Some (ds, r)"
    using zero
  proof
    assume "\<not> starts (CHR ''0'') ds"
    then have "\<not> starts (CHR ''0'') (ds @ r)" using ne by (cases ds) auto
    then show ?thesis using ne dig r by (simp add: parse_int_part_def digits_append)
  qed (simp add: parse_int_part_def)
  moreover have "parse_frac r = Some ([], r)" and "parse_exp r = Some ([], r)"
    using assms(2) by (auto simp: parse_frac_def parse_exp_def num_end_def starts_def split: list.splits)
  ultimately show ?thesis
    unfolding parse_number_def sg Let_def using l by simp
qed

lemma int_literal_first:
  assumes "int_literal l"
  obtains c l' where "l = c # l'" and "is_digit c \<or> c = CHR ''-''"
  using assms by (cases l) (auto simp: int_literal_def Let_def split: if_splits)

lemma parse_value_number:
  assumes "int_literal l" and "num_end r" and "0 < n"
  shows "parse_value n (l @ r) = Some (JNum l, r)"
proof -
  obtain c l' where l: "l = c # l'" and c: "is_digit c \<or> c = CHR ''-''"
    using assms(1) by (rule int_literal_first)
  have "\<not> is_ws c" and "c \<noteq> CHR 0x22" and "c \<noteq> CHR ''[''" and "c \<noteq> CHR ''{''"
    and "c \<noteq> CHR ''n''" and "c \<noteq> CHR ''t''" and "c \<noteq> CHR ''f''"
    using c by (auto simp: is_ws_def is_digit_def)
  then show ?thesis
    using parse_number_literal [OF assms(1,2)] l assms(3)
    by (cases n) (auto simp: parse_value.simps(2) skip_ws_Cons)
qed

lemma starts_append [simp]: "starts c (xs @ ys) \<longleftrightarrow> (if xs = [] then starts c ys else starts c xs)"
  by (cases xs) auto

text \<open>The first character of a rendered value is not white space and closes nothing.\<close>

lemma render_first:
  assumes "wf_json v"
  shows "render nl sp d v \<noteq> [] \<and> skip_ws (render nl sp d v @ s) = render nl sp d v @ s \<and>
    \<not> starts (CHR '']'') (render nl sp d v)"
proof (cases v)
  case (JNum l)
  then obtain c l' where "l = c # l'" and "is_digit c \<or> c = CHR ''-''"
    using assms int_literal_first by (metis wf_json.simps(1))
  with JNum show ?thesis by (auto simp: skip_ws_Cons is_ws_def is_digit_def)
qed (auto simp: skip_ws_Cons is_ws_def json_quote_def)

lemma num_end_ws: "list_all is_ws w \<Longrightarrow> num_end (w @ c # r) \<longleftrightarrow> w \<noteq> [] \<or> num_end (c # r)"
  by (cases w) (auto simp: num_end_def is_ws_def is_digit_def)

lemma num_end_close [simp]:
  "num_end (CHR '','' # r)" "num_end (CHR '']'' # r)" "num_end (CHR ''}'' # r)" "num_end []"
  by (simp_all add: num_end_def is_digit_def)

lemma skip_ws_punct [simp]:
  "skip_ws (CHR '','' # r) = CHR '','' # r" "skip_ws (CHR '']'' # r) = CHR '']'' # r"
  "skip_ws (CHR ''}'' # r) = CHR ''}'' # r" "skip_ws (CHR '':'' # r) = CHR '':'' # r"
  "skip_ws (CHR 0x22 # r) = CHR 0x22 # r" "skip_ws (CHR ''['' # r) = CHR ''['' # r"
  "skip_ws (CHR ''{'' # r) = CHR ''{'' # r"
  by (simp_all add: skip_ws_Cons is_ws_def)

lemma render_elems_first:
  assumes "vs \<noteq> []" and "\<forall>v \<in> set vs. wf_json v"
  shows "skip_ws (render_elems nl sp d vs @ s) = render_elems nl sp d vs @ s \<and>
    \<not> starts (CHR '']'') (render_elems nl sp d vs @ s)"
proof -
  obtain v vs' where "vs = v # vs'" and "wf_json v" using assms by (cases vs) auto
  then show ?thesis using render_first [of v nl sp d] by (auto simp del: append_assoc simp add: append_assoc)
qed

lemma render_members_first:
  assumes "kvs \<noteq> []"
  shows "skip_ws (render_members nl sp d kvs @ s) = render_members nl sp d kvs @ s \<and>
    \<not> starts (CHR ''}'') (render_members nl sp d kvs @ s)"
  using assms by (cases kvs) (auto simp: json_quote_def)

lemma length_json_quote [simp]: "2 \<le> length (json_quote s)"
  by (simp add: json_quote_def)

lemma parse_render:
  assumes "\<forall>d. list_all is_ws (nl d)" and "list_all is_ws sp"
  shows "wf_json v \<Longrightarrow> num_end r \<Longrightarrow> 2 * length (render nl sp d v) < n \<Longrightarrow>
      parse_value n (render nl sp d v @ r) = Some (v, r)"
    and "vs \<noteq> [] \<Longrightarrow> \<forall>v \<in> set vs. wf_json v \<Longrightarrow> list_all is_ws w \<Longrightarrow>
      2 * length (render_elems nl sp d vs) + 1 < n \<Longrightarrow>
      parse_elems n (render_elems nl sp d vs @ w @ CHR '']'' # r) = Some (vs, r)"
    and "kvs \<noteq> [] \<Longrightarrow> \<forall>kv \<in> set kvs. wf_json (snd kv) \<Longrightarrow> list_all is_ws w \<Longrightarrow>
      2 * length (render_members nl sp d kvs) + 1 < n \<Longrightarrow>
      parse_members n (render_members nl sp d kvs @ w @ CHR ''}'' # r) = Some (kvs, r)"
  using assms
proof (induction nl sp d v and nl sp d vs and nl sp d kvs arbitrary: n r and n r w and n r w
    rule: render_render_elems_render_members.induct)
  case (1 nl sp d)
  then show ?case by (cases n) (simp_all add: parse_value.simps(2) parse_literal_def skip_ws_Cons is_ws_def)
next
  case (2 nl sp d b)
  then show ?case by (cases n) (simp_all add: parse_value.simps(2) parse_literal_def skip_ws_Cons is_ws_def)
next
  case (3 nl sp d l)
  then show ?case by (simp add: parse_value_number)
next
  case (4 nl sp d s)
  then show ?case by (cases n) (simp_all add: parse_value.simps(2) json_quote_def parse_chars_quoted)
next
  case (5 nl sp d vs)
  obtain m where n: "n = Suc m" using "5.prems" by (cases n) auto
  show ?case
  proof (cases "vs = []")
    case False
    then show ?thesis using 5 n render_elems_first [of vs nl sp]
      by (simp add: parse_value.simps(2))
  qed (simp add: n parse_value.simps(2))
next
  case (6 nl sp d kvs)
  obtain m where n: "n = Suc m" using "6.prems" by (cases n) auto
  show ?case
  proof (cases "kvs = []")
    case False
    then show ?thesis using 6 n render_members_first [of kvs nl sp]
      by (simp add: parse_value.simps(2))
  qed (simp add: n parse_value.simps(2))
next
  case (8 nl sp d v vs)
  obtain m where n: "n = Suc m" using "8.prems" by (cases n) auto
  show ?case
  proof (cases "vs = []")
    case True
    then show ?thesis using 8 n by (simp add: parse_elems.simps(2) num_end_ws)
  next
    case False
    then show ?thesis using 8 n by (simp add: parse_elems.simps(2))
  qed
next
  case (10 nl sp d k v kvs)
  obtain m where n: "n = Suc m" using "10.prems" by (cases n) auto
  have q: "json_quote k @ s = CHR 0x22 # concat (map escape_char k) @ CHR 0x22 # s" for s
    by (simp add: json_quote_def)
  show ?case
  proof (cases "kvs = []")
    case True
    then show ?thesis using 10 n by (simp add: parse_members.simps(2) q parse_chars_quoted num_end_ws)
  next
    case False
    then show ?thesis using 10 n by (simp add: parse_members.simps(2) q parse_chars_quoted)
  qed
qed simp_all

theorem json_Unmarshal_Marshal [roundtrip_simps]: "wf_json v \<Longrightarrow> json_Unmarshal (json_Marshal v) = Some v"
  using parse_render(1) [where nl = "\<lambda>_. []" and sp = "[]" and r = "[]" and d = 0]
  by (simp add: json_Unmarshal_def json_Marshal_def skip_ws_def)

theorem json_Unmarshal_MarshalIndent [roundtrip_simps]:
  "wf_json v \<Longrightarrow> json_Unmarshal (json_MarshalIndent v) = Some v"
  using parse_render(1) [where nl = "\<lambda>d. CHR 0x0A # replicate (2 * d) (CHR 0x20)" and sp = "[CHR 0x20]"
      and r = "[]" and d = 0]
  by (simp add: json_Unmarshal_def json_MarshalIndent_def skip_ws_def is_ws_def list_all_iff)

interpretation json_text: codec json_Marshal json_Unmarshal wf_json
  by unfold_locales (rule json_Unmarshal_Marshal)

interpretation json_indent: codec json_MarshalIndent json_Unmarshal wf_json
  by unfold_locales (rule json_Unmarshal_MarshalIndent)

section \<open>Typed values\<close>

lemma decimal_zero [simp]: "decimal 0 = ''0''"
proof -
  have "char_of (48 :: nat) = (CHR ''0'' :: char)" by (rule of_char_eqI [where 'a = nat]) simp
  then show ?thesis by (subst decimal.simps) simp
qed

lemma starts_zero_decimal: "0 < n \<Longrightarrow> \<not> starts (CHR ''0'') (decimal n)"
proof (induction n rule: decimal.induct)
  case (1 n)
  have "char_of (48 + n) \<noteq> (CHR ''0'' :: char)" if "n < 10"
  proof
    assume "char_of (48 + n) = (CHR ''0'' :: char)"
    then have "(of_char (char_of (48 + n) :: char) :: nat) = 48" by simp
    with that "1.prems" show False by simp
  qed
  with 1 show ?case by (subst decimal.simps) auto
qed

lemma decimal_not_minus [simp]: "\<not> starts (CHR ''-'') (decimal n)"
  using decimal_no_minus [of n] by (cases "decimal n") auto

lemma int_literal_decimal [simp]: "int_literal (decimal n)"
  using starts_zero_decimal [of n] by (cases "n = 0") (auto simp: int_literal_def is_digit_def)

lemma int_literal_FormatInt64 [simp]: "int_literal (FormatInt64 v)"
proof (cases "sint v < 0")
  case True
  then show ?thesis
    using int_literal_decimal [of "nat (- sint v)"] by (simp add: FormatInt64_def int_literal_def Let_def)
qed (simp add: FormatInt64_def)

lemma dec_enc_uint64 [simp, roundtrip_simps]: "dec_uint64 (enc_uint64 v) old = Some v"
  by (simp add: dec_uint64_def enc_uint64_def ParseUint64_decimal)

lemma dec_enc_int64 [simp, roundtrip_simps]: "dec_int64 (enc_int64 v) old = Some v"
  by (simp add: dec_int64_def enc_int64_def ParseInt64_Format)

lemma dec_uint8_decimal [simp]: "dec_uint8 (JNum (decimal (unat b))) old = Some b"
proof -
  have u: "unat (ucast b :: u64) = unat b"
    using unat_byte_lt [of b] by (simp add: unsigned_ucast_eq take_bit_nat_eq_self_iff del: unat_byte_lt)
  have p: "ParseUint64 (decimal (unat b)) = Some (ucast b)"
    using ParseUint64_decimal [of "ucast b :: u64"] by (simp add: u)
  have "ucast (ucast b :: u64) = b" by (rule bit_word_eqI) (simp add: bit_ucast_iff)
  with p show ?thesis by (simp add: dec_uint8_def u)
qed

lemma dec_array_elems_enc:
  "length bs = length old \<Longrightarrow> dec_array_elems (map (\<lambda>b. JNum (decimal (unat b))) bs) old = Some bs"
  by (induction bs old rule: list_induct2) simp_all

lemma dec_enc_array [simp, roundtrip_simps]: "length bs = length old \<Longrightarrow> dec_array (enc_array bs) old = Some bs"
  by (simp add: dec_array_def enc_array_def dec_array_elems_enc)

lemma dec_array_elems_length: "dec_array_elems vs old = Some bs \<Longrightarrow> length bs = length old"
  by (induction vs old arbitrary: bs rule: dec_array_elems.induct) (auto split: option.splits)

lemma dec_array_length [wf_simps]: "dec_array j old = Some bs \<Longrightarrow> length bs = length old"
  by (auto simp: dec_array_def dec_array_elems_length split: json.splits)

lemma dec_enc_slice [simp, roundtrip_simps]: "dec_slice (enc_slice bs) old = Some bs"
  by (simp add: dec_slice_def dec_list_def enc_slice_def b64_decode_encode)

lemma dec_elems_enc:
  "(\<And>x. x \<in> set xs \<Longrightarrow> f (g x) z = Some x) \<Longrightarrow> dec_elems f z (map g xs) = Some xs"
  by (induction xs) simp_all

lemma dec_enc_list:
  "(\<And>x. x \<in> set xs \<Longrightarrow> f (g x) z = Some x) \<Longrightarrow> dec_list f z (enc_list g xs) old = Some xs"
  by (simp add: dec_list_def enc_list_def dec_elems_enc)

lemma wf_json_encoders [simp]:
  "wf_json (enc_uint64 v)" "wf_json (enc_int64 v)" "wf_json (enc_array bs)" "wf_json (enc_slice bs)"
  by (simp_all add: enc_uint64_def enc_int64_def enc_array_def enc_slice_def)

lemma wf_json_enc_list [simp]: "(\<And>x. x \<in> set xs \<Longrightarrow> wf_json (g x)) \<Longrightarrow> wf_json (enc_list g xs)"
  by (simp add: enc_list_def)

lemma enc_uint64_inject [simp]: "enc_uint64 v = enc_uint64 w \<longleftrightarrow> v = w"
  by (metis dec_enc_uint64 option.inject)

lemma enc_int64_inject [simp]: "enc_int64 v = enc_int64 w \<longleftrightarrow> v = w"
  by (metis dec_enc_int64 option.inject)

lemma enc_array_inject [simp]: "enc_array bs = enc_array cs \<longleftrightarrow> bs = cs"
proof -
  have "inj (\<lambda>b :: byte. JNum (decimal (unat b)))"
    by (rule injI) (metis dec_uint8_decimal option.inject)
  then show ?thesis by (simp add: enc_array_def inj_map_eq_map)
qed

text \<open>Field lookup among exact names.\<close>

lemma find_field_exact [simp]: "map_of fs k = Some f \<Longrightarrow> find_field fs k = Some f"
  by (simp add: find_field_def)

end
