(* ===== verification/Runtime.thy ===== *)
theory Runtime
  imports Prelude
begin

text \<open>
  What the sources use of the operating system and of \<^verbatim>\<open>sync\<close>: a data directory as a map from
  relative file names to contents, with an arbitrary set of failing system calls, and the
  read-write mutex. A failed \<^verbatim>\<open>WriteFile\<close> may leave any content behind.
\<close>

section \<open>Files\<close>

datatype io_op = OpMkdir string | OpRead string | OpWrite string | OpRename string string | OpReadDir string | OpRemove string

record disk =
  dk_files :: "(string \<times> string) list"
  dk_fault :: "io_op \<Rightarrow> bool"
  dk_torn :: "string \<Rightarrow> string option"

datatype io_error = IOError | NotExistError | JSONError

datatype read_result = Content string | NotExist | ReadFailed

definition os_MkdirAll :: "disk \<Rightarrow> string \<Rightarrow> io_error option" where
  "os_MkdirAll d p = (if dk_fault d (OpMkdir p) then Some IOError else None)"

definition os_ReadFile :: "disk \<Rightarrow> string \<Rightarrow> read_result" where
  "os_ReadFile d p = (if dk_fault d (OpRead p) then ReadFailed
     else case map_of (dk_files d) p of None \<Rightarrow> NotExist | Some c \<Rightarrow> Content c)"

definition os_WriteFile :: "disk \<Rightarrow> string \<Rightarrow> string \<Rightarrow> disk \<times> io_error option" where
  "os_WriteFile d p c =
     (if dk_fault d (OpWrite p)
      then (case dk_torn d p of
              None \<Rightarrow> (d, Some IOError)
            | Some t \<Rightarrow> (d\<lparr>dk_files := AList.update p t (dk_files d)\<rparr>, Some IOError))
      else (d\<lparr>dk_files := AList.update p c (dk_files d)\<rparr>, None))"

definition os_Rename :: "disk \<Rightarrow> string \<Rightarrow> string \<Rightarrow> disk \<times> io_error option" where
  "os_Rename d p q =
     (if dk_fault d (OpRename p q) then (d, Some IOError)
      else case map_of (dk_files d) p of
        None \<Rightarrow> (d, Some NotExistError)
      | Some c \<Rightarrow> (d\<lparr>dk_files := AList.update q c (AList.delete p (dk_files d))\<rparr>, None))"

definition os_Remove :: "disk \<Rightarrow> string \<Rightarrow> disk" where
  "os_Remove d p = (if dk_fault d (OpRemove p) then d else d\<lparr>dk_files := AList.delete p (dk_files d)\<rparr>)"

text \<open>A directory with no failing call.\<close>

definition healthy :: "disk \<Rightarrow> bool" where
  "healthy d \<longleftrightarrow> (\<forall>op. \<not> dk_fault d op)"

definition empty_disk :: disk where
  "empty_disk = \<lparr>dk_files = [], dk_fault = (\<lambda>_. False), dk_torn = (\<lambda>_. None)\<rparr>"

section \<open>sync.RWMutex\<close>

datatype rwmutex = Unlocked | ReadLocked nat | WriteLocked

text \<open>\<open>None\<close>: the caller waits until the holder releases the lock.\<close>

fun rw_RLock :: "rwmutex \<Rightarrow> rwmutex option" where
  "rw_RLock Unlocked = Some (ReadLocked 1)"
| "rw_RLock (ReadLocked n) = Some (ReadLocked (Suc n))"
| "rw_RLock WriteLocked = None"

fun rw_RUnlock :: "rwmutex \<Rightarrow> rwmutex" where
  "rw_RUnlock (ReadLocked n) = (if n \<le> 1 then Unlocked else ReadLocked (n - 1))"
| "rw_RUnlock m = m"

fun rw_Lock :: "rwmutex \<Rightarrow> rwmutex option" where
  "rw_Lock Unlocked = Some WriteLocked"
| "rw_Lock (ReadLocked n) = None"
| "rw_Lock WriteLocked = None"

fun rw_Unlock :: "rwmutex \<Rightarrow> rwmutex" where
  "rw_Unlock WriteLocked = Unlocked"
| "rw_Unlock m = m"

section \<open>Reading and writing\<close>

lemma healthy_empty [simp]: "healthy empty_disk"
  by (simp add: healthy_def empty_disk_def)

lemma os_WriteFile_healthy:
  "healthy d \<Longrightarrow> os_WriteFile d p c = (d\<lparr>dk_files := AList.update p c (dk_files d)\<rparr>, None)"
  by (simp add: os_WriteFile_def healthy_def)

lemma healthy_update [simp]: "healthy (d\<lparr>dk_files := f\<rparr>) \<longleftrightarrow> healthy d"
  by (simp add: healthy_def)

lemma os_ReadFile_update [simp]:
  "os_ReadFile (d\<lparr>dk_files := AList.update p c (dk_files d)\<rparr>) q =
     (if q = p then (if dk_fault d (OpRead p) then ReadFailed else Content c) else os_ReadFile d q)"
  by (auto simp: os_ReadFile_def update_conv')

lemma os_WriteFile_other: "os_WriteFile d p c = (d', e) \<Longrightarrow> q \<noteq> p \<Longrightarrow> os_ReadFile d' q = os_ReadFile d q"
  by (auto simp: os_WriteFile_def split: if_splits option.splits)

end
