(* ===== verification/Crypto.thy ===== *)
theory Crypto
  imports Json_Roundtrip Runtime
begin

text \<open>
  Package \<^verbatim>\<open>crypto\<close> (\<^verbatim>\<open>hash.go\<close>, \<^verbatim>\<open>merkle.go\<close>, \<^verbatim>\<open>signature.go\<close>,
  \<^verbatim>\<open>keyfile.go\<close>): 32-byte hashes and 20-byte addresses as byte lists, the Merkle root, address
  derivation, signing and verification, and the key file. The primitives of Go's
  \<^verbatim>\<open>crypto/sha256\<close>, \<^verbatim>\<open>crypto/elliptic\<close> and \<^verbatim>\<open>crypto/ecdsa\<close> are the fields of
  \<open>crypto_lib\<close>, an argument of every definition that hashes or signs; what is assumed of them is
  stated where it is used.
\<close>

type_synonym hash = "byte list"
type_synonym address = "byte list"
type_synonym pubkey = "nat \<times> nat"

record privkey =
  key_D :: nat
  key_X :: nat
  key_Y :: nat

definition PublicKey :: "privkey \<Rightarrow> pubkey" where
  "PublicKey k = (key_X k, key_Y k)"

text \<open>The seed argument of key generation and signing stands for the bytes read from
  \<^verbatim>\<open>rand.Reader\<close>.\<close>

record crypto_lib =
  sha256_Sum256 :: "byte list \<Rightarrow> byte list"
  elliptic_MarshalCompressed :: "pubkey \<Rightarrow> byte list"
  elliptic_UnmarshalCompressed :: "byte list \<Rightarrow> pubkey option"
  ecdsa_GenerateKey :: "nat \<Rightarrow> privkey option"
  ecdsa_Sign :: "nat \<Rightarrow> privkey \<Rightarrow> byte list \<Rightarrow> (nat \<times> nat) option"
  ecdsa_Verify :: "pubkey \<Rightarrow> byte list \<Rightarrow> nat \<times> nat \<Rightarrow> bool"

text \<open>A call that gives a value, an error value, or panics.\<close>

datatype 'a go_call = Value 'a | Error | Panic

section \<open>math/big: big-endian bytes\<close>

definition big_SetBytes :: "byte list \<Rightarrow> nat" where
  "big_SetBytes bs = foldl (\<lambda>a b. 256 * a + unat b) 0 bs"

fun big_Bytes :: "nat \<Rightarrow> byte list" where
  "big_Bytes n = (if n = 0 then [] else big_Bytes (n div 256) @ [word_of_nat n])"

declare big_Bytes.simps [simp del]

fun low_bytes :: "nat \<Rightarrow> nat \<Rightarrow> byte list" where
  "low_bytes 0 n = []"
| "low_bytes (Suc k) n = low_bytes k (n div 256) @ [word_of_nat n]"

text \<open>\<^verbatim>\<open>FillBytes\<close> panics if the value does not fit.\<close>

definition big_FillBytes :: "nat \<Rightarrow> nat \<Rightarrow> byte list go_call" where
  "big_FillBytes k n = (if n < 256 ^ k then Value (low_bytes k n) else Panic)"

section \<open>hash.go\<close>

definition HashSize :: nat where "HashSize = 32"

definition zero_hash :: hash where "zero_hash = replicate 32 0"

definition HashBytes :: "crypto_lib \<Rightarrow> byte list \<Rightarrow> hash" where
  "HashBytes cl data = sha256_Sum256 cl data"

text \<open>The error of the hex decoder is dropped; only the number of decoded bytes is tested.\<close>

definition HashFromHex :: "string \<Rightarrow> hash" where
  "HashFromHex s = (let b = fst (hex_DecodeString s) in if length b \<noteq> HashSize then zero_hash else b)"

definition Hash_Bytes :: "hash \<Rightarrow> byte list" where
  "Hash_Bytes h = h"

definition Hash_Hex :: "hash \<Rightarrow> string" where
  "Hash_Hex h = hex_EncodeToString h"

fun Hash_IsZero :: "hash \<Rightarrow> bool" where
  "Hash_IsZero [] = True"
| "Hash_IsZero (b # h) = (if b \<noteq> 0 then False else Hash_IsZero h)"

section \<open>merkle.go\<close>

fun merkle_level :: "crypto_lib \<Rightarrow> hash list \<Rightarrow> hash list" where
  "merkle_level cl [] = []"
| "merkle_level cl [a] = [HashBytes cl (a @ a)]"
| "merkle_level cl (a # b # hs) = HashBytes cl (a @ b) # merkle_level cl hs"

lemma length_merkle_level [simp]: "length (merkle_level cl hs) = (length hs + 1) div 2"
  by (induction cl hs rule: merkle_level.induct) simp_all

lemma merkle_level_shorter: "n \<noteq> 0 \<Longrightarrow> n \<noteq> 1 \<Longrightarrow> (n + 1) div 2 < (n :: nat)"
  by linarith

function MerkleRoot :: "crypto_lib \<Rightarrow> hash list \<Rightarrow> hash" where
  "MerkleRoot cl hs =
     (if length hs = 0 then zero_hash
      else if length hs = 1 then HashBytes cl (hd hs)
      else MerkleRoot cl (merkle_level cl hs))"
  by pat_completeness auto
termination
  by (relation "measure (\<lambda>(cl, hs). length hs)") (use merkle_level_shorter in auto)

declare MerkleRoot.simps [simp del]

section \<open>signature.go\<close>

definition AddressSize :: nat where "AddressSize = 20"

definition zero_address :: address where "zero_address = replicate 20 0"

definition GenerateKey :: "crypto_lib \<Rightarrow> nat \<Rightarrow> privkey option" where
  "GenerateKey cl seed = ecdsa_GenerateKey cl seed"

text \<open>A nil public key is \<open>None\<close>.\<close>

definition PubkeyToAddress :: "crypto_lib \<Rightarrow> pubkey option \<Rightarrow> address" where
  "PubkeyToAddress cl pub = (case pub of
     None \<Rightarrow> zero_address
   | Some p \<Rightarrow> take AddressSize (sha256_Sum256 cl (elliptic_MarshalCompressed cl p)))"

definition AddressFromHex :: "string \<Rightarrow> address option" where
  "AddressFromHex s = (case hex_DecodeString s of
     (b, e) \<Rightarrow> if e \<noteq> None \<or> length b \<noteq> AddressSize then None else Some b)"

definition Address_Hex :: "address \<Rightarrow> string" where
  "Address_Hex a = hex_EncodeToString a"

definition Sign :: "crypto_lib \<Rightarrow> nat \<Rightarrow> privkey \<Rightarrow> hash \<Rightarrow> byte list go_call" where
  "Sign cl seed priv h = (case ecdsa_Sign cl seed priv h of
     None \<Rightarrow> Error
   | Some (r, s) \<Rightarrow>
       (case (big_FillBytes 32 r, big_FillBytes 32 s) of
          (Value rb, Value sb) \<Rightarrow> Value (rb @ sb)
        | _ \<Rightarrow> Panic))"

definition Verify :: "crypto_lib \<Rightarrow> pubkey option \<Rightarrow> hash \<Rightarrow> byte list \<Rightarrow> bool" where
  "Verify cl pub h sig = (case pub of
     None \<Rightarrow> False
   | Some p \<Rightarrow> if length sig < 64 then False
       else ecdsa_Verify cl p h (big_SetBytes (take 32 sig), big_SetBytes (take 32 (drop 32 sig))))"

definition HashMessage :: "crypto_lib \<Rightarrow> byte list \<Rightarrow> hash" where
  "HashMessage cl msg = sha256_Sum256 cl msg"

definition MarshalPubkey :: "crypto_lib \<Rightarrow> pubkey option \<Rightarrow> byte list" where
  "MarshalPubkey cl pub = (case pub of None \<Rightarrow> [] | Some p \<Rightarrow> elliptic_MarshalCompressed cl p)"

definition UnmarshalPubkey :: "crypto_lib \<Rightarrow> byte list \<Rightarrow> pubkey option" where
  "UnmarshalPubkey cl b = (if length b < 33 then None else elliptic_UnmarshalCompressed cl b)"

section \<open>keyfile.go\<close>

record keyFile =
  kf_D :: string
  kf_X :: string
  kf_Y :: string

definition keyFile_json :: "keyFile \<Rightarrow> json" where
  "keyFile_json k = JObj [(''d'', JStr (kf_D k)), (''x'', JStr (kf_X k)), (''y'', JStr (kf_Y k))]"

definition keyFile_fields :: "(string \<times> keyFile decoder) list" where
  "keyFile_fields =
     [(''d'', \<lambda>j k. map_option (\<lambda>v. k\<lparr>kf_D := v\<rparr>) (dec_string j (kf_D k))),
      (''x'', \<lambda>j k. map_option (\<lambda>v. k\<lparr>kf_X := v\<rparr>) (dec_string j (kf_X k))),
      (''y'', \<lambda>j k. map_option (\<lambda>v. k\<lparr>kf_Y := v\<rparr>) (dec_string j (kf_Y k)))]"

definition key_text :: "privkey \<Rightarrow> string" where
  "key_text k = json_MarshalIndent (keyFile_json
     \<lparr>kf_D = hex_EncodeToString (big_Bytes (key_D k)),
      kf_X = hex_EncodeToString (big_Bytes (key_X k)),
      kf_Y = hex_EncodeToString (big_Bytes (key_Y k))\<rparr>)"

text \<open>A nil key writes nothing and reports no error.\<close>

definition SaveKey :: "disk \<Rightarrow> string \<Rightarrow> privkey option \<Rightarrow> disk \<times> io_error option" where
  "SaveKey d path priv = (case priv of None \<Rightarrow> (d, None) | Some k \<Rightarrow> os_WriteFile d path (key_text k))"

text \<open>\<open>Value None\<close> is a nil key with a nil error: an empty \<^verbatim>\<open>d\<close> returns the nil error of the
  decoder.\<close>

definition LoadKey :: "disk \<Rightarrow> string \<Rightarrow> privkey option go_call" where
  "LoadKey dsk path = (case os_ReadFile dsk path of
     NotExist \<Rightarrow> Error
   | ReadFailed \<Rightarrow> Error
   | Content data \<Rightarrow>
     (case Option.bind (json_Unmarshal data)
        (\<lambda>j. dec_struct keyFile_fields j \<lparr>kf_D = [], kf_X = [], kf_Y = []\<rparr>) of
        None \<Rightarrow> Error
      | Some k \<Rightarrow>
        (case hex_DecodeString (kf_D k) of
           (d, Some e) \<Rightarrow> Error
         | (d, None) \<Rightarrow> if length d = 0 then Value None else
           (case hex_DecodeString (kf_X k) of
              (x, Some e) \<Rightarrow> Error
            | (x, None) \<Rightarrow>
              (case hex_DecodeString (kf_Y k) of
                 (y, Some e) \<Rightarrow> Error
               | (y, None) \<Rightarrow>
                 Value (Some \<lparr>key_D = big_SetBytes d, key_X = big_SetBytes x, key_Y = big_SetBytes y\<rparr>))))))"

section \<open>Hashes and addresses\<close>

lemma Hash_IsZero_iff: "Hash_IsZero h \<longleftrightarrow> h = replicate (length h) 0"
  by (induction h) auto

lemma Hash_IsZero_zero: "length h = 32 \<Longrightarrow> Hash_IsZero h \<longleftrightarrow> h = zero_hash"
  by (simp add: Hash_IsZero_iff zero_hash_def)

lemma HashFromHex_Hex [roundtrip_simps]: "length h = HashSize \<Longrightarrow> HashFromHex (Hash_Hex h) = h"
  by (simp add: HashFromHex_def Hash_Hex_def hex_DecodeString_Encode)

lemma length_HashFromHex: "length (HashFromHex s) = HashSize"
  by (simp add: HashFromHex_def HashSize_def zero_hash_def Let_def)

lemma AddressFromHex_Hex [roundtrip_simps]: "length a = AddressSize \<Longrightarrow> AddressFromHex (Address_Hex a) = Some a"
  by (simp add: AddressFromHex_def Address_Hex_def hex_DecodeString_Encode)

interpretation address_hex: codec Address_Hex AddressFromHex "\<lambda>a. length a = AddressSize"
  by unfold_locales (rule AddressFromHex_Hex)

lemma AddressFromHex_length: "AddressFromHex s = Some a \<Longrightarrow> length a = AddressSize"
  by (auto simp: AddressFromHex_def split: prod.splits if_splits)

section \<open>Big-endian integers\<close>

lemma big_SetBytes_snoc: "big_SetBytes (bs @ [b]) = 256 * big_SetBytes bs + unat b"
  by (simp add: big_SetBytes_def)

lemma unat_low_byte [simp]: "unat (word_of_nat n :: byte) = n mod 256"
  by (simp add: unat_of_nat)

lemma big_SetBytes_Bytes [roundtrip_simps]: "big_SetBytes (big_Bytes n) = n"
proof (induction n rule: big_Bytes.induct)
  case (1 n)
  show ?case
  proof (cases "n = 0")
    case True
    then show ?thesis by (simp add: big_Bytes.simps big_SetBytes_def)
  next
    case False
    with 1 show ?thesis by (simp add: big_Bytes.simps [of n] big_SetBytes_snoc)
  qed
qed

lemma big_Bytes_nonempty: "0 < n \<Longrightarrow> big_Bytes n \<noteq> []"
  by (subst big_Bytes.simps) simp

lemma length_low_bytes [simp]: "length (low_bytes k n) = k"
  by (induction k n rule: low_bytes.induct) simp_all

lemma big_SetBytes_low [roundtrip_simps]: "n < 256 ^ k \<Longrightarrow> big_SetBytes (low_bytes k n) = n"
proof (induction k n rule: low_bytes.induct)
  case (2 k n)
  then have "n div 256 < 256 ^ k" by (simp add: less_mult_imp_div_less mult.commute)
  with 2 show ?case by (simp add: big_SetBytes_snoc)
qed (simp add: big_SetBytes_def)

text \<open>A signature over a hash verifies under the signer's key, whenever the ECDSA primitive accepts
  its own signatures: the encoding of the two halves loses nothing.\<close>

lemma Verify_Sign:
  assumes "Sign cl seed priv h = Value sig"
    and "\<And>r s. ecdsa_Sign cl seed priv h = Some (r, s) \<Longrightarrow> ecdsa_Verify cl (PublicKey priv) h (r, s)"
  shows "length sig = 64 \<and> Verify cl (Some (PublicKey priv)) h sig"
proof -
  obtain r s where rs: "ecdsa_Sign cl seed priv h = Some (r, s)" and "r < 256 ^ 32" and "s < 256 ^ 32"
    and sig: "sig = low_bytes 32 r @ low_bytes 32 s"
    using assms(1) by (auto simp: Sign_def big_FillBytes_def split: option.splits if_splits)
  then show ?thesis using assms(2) [OF rs] by (simp add: Verify_def big_SetBytes_low)
qed

section \<open>Key files\<close>

lemma LoadKey_text:
  assumes "os_ReadFile d path = Content (key_text k)" and "0 < key_D k"
  shows "LoadKey d path = Value (Some k)"
proof -
  have "wf_json (keyFile_json kf)" for kf by (simp add: keyFile_json_def)
  then show ?thesis
    using assms big_Bytes_nonempty [of "key_D k"]
    by (auto simp: key_text_def LoadKey_def json_Unmarshal_MarshalIndent keyFile_json_def keyFile_fields_def
        dec_struct_def dec_string_def hex_DecodeString_Encode big_SetBytes_Bytes)
qed

lemma LoadKey_SaveKey:
  assumes "SaveKey d path (Some k) = (d', None)" and "\<not> dk_fault d (OpRead path)" and "0 < key_D k"
  shows "LoadKey d' path = Value (Some k)"
  using assms by (intro LoadKey_text) (auto simp: SaveKey_def os_WriteFile_def split: if_splits option.splits)

section \<open>The Merkle root\<close>

lemma merkle_level_append:
  "even (length xs) \<Longrightarrow> merkle_level cl (xs @ ys) = merkle_level cl xs @ merkle_level cl ys"
  by (induction cl xs rule: merkle_level.induct) simp_all

text \<open>The inputs the hash function is applied to while the root is computed.\<close>

fun level_inputs :: "hash list \<Rightarrow> byte list list" where
  "level_inputs [] = []"
| "level_inputs [a] = [a @ a]"
| "level_inputs (a # b # hs) = (a @ b) # level_inputs hs"

lemma merkle_level_inputs: "merkle_level cl hs = map (HashBytes cl) (level_inputs hs)"
  by (induction hs rule: level_inputs.induct) simp_all

function merkle_inputs :: "crypto_lib \<Rightarrow> hash list \<Rightarrow> byte list list" where
  "merkle_inputs cl hs =
     (if length hs = 0 then []
      else if length hs = 1 then [hd hs]
      else level_inputs hs @ merkle_inputs cl (merkle_level cl hs))"
  by pat_completeness auto
termination
  by (relation "measure (\<lambda>(cl, hs). length hs)") (use merkle_level_shorter in auto)

declare merkle_inputs.simps [simp del]

lemma level_inputs_inject:
  assumes "length xs = length ys" and "list_all (\<lambda>h. length h = k) xs" and "list_all (\<lambda>h. length h = k) ys"
    and "level_inputs xs = level_inputs ys"
  shows "xs = ys"
  using assms
proof (induction xs arbitrary: ys rule: level_inputs.induct)
  case (2 a)
  then show ?case by (cases ys) auto
next
  case (3 a b hs)
  then obtain c d ks where "ys = c # d # ks" by (cases ys rule: level_inputs.cases) auto
  with 3 show ?case by auto
qed simp

lemma map_inj_on_eq:
  assumes "inj_on f (set xs \<union> set ys)" and "map f xs = map f ys"
  shows "xs = ys"
  using assms by (simp add: inj_on_map_eq_map)

text \<open>The root commits to the leaves: with 32-byte digests and no collision among the inputs of the
  two computations, lists of equal length with equal roots are equal.\<close>

lemma MerkleRoot_binding_lemma:
  assumes "length xs = length ys"
    and "list_all (\<lambda>h. length h = 32) xs" and "list_all (\<lambda>h. length h = 32) ys"
    and "\<And>d. length (sha256_Sum256 cl d) = 32"
    and "inj_on (sha256_Sum256 cl) (set (merkle_inputs cl xs) \<union> set (merkle_inputs cl ys))"
    and "MerkleRoot cl xs = MerkleRoot cl ys"
  shows "xs = ys"
  using assms
proof (induction "length xs" arbitrary: xs ys rule: less_induct)
  case less
  consider "length xs = 0" | "length xs = 1" | "length xs \<noteq> 0" "length xs \<noteq> 1" by blast
  then show ?case
  proof cases
    case 2
    then obtain x y where "xs = [x]" and "ys = [y]" using less.prems(1) by (auto simp: length_Suc_conv)
    then show ?thesis
      using less.prems(6) inj_onD [OF less.prems(5), of x y]
      by (simp add: MerkleRoot.simps merkle_inputs.simps HashBytes_def)
  next
    case 3
    note un = merkle_inputs.simps [of cl xs] merkle_inputs.simps [of cl ys]
    have inj: "inj_on (sha256_Sum256 cl) (set (merkle_inputs cl (merkle_level cl xs)) \<union> set (merkle_inputs cl (merkle_level cl ys)))"
      and inj0: "inj_on (HashBytes cl) (set (level_inputs xs) \<union> set (level_inputs ys))"
      using less.prems(5) 3 less.prems(1) unfolding un HashBytes_def
      by (auto elim!: inj_on_subset)
    have "merkle_level cl xs = merkle_level cl ys"
    proof (rule less.hyps)
      show "length (merkle_level cl xs) < length xs" using merkle_level_shorter [OF 3] by simp
      show "list_all (\<lambda>h. length h = 32) (merkle_level cl xs)" "list_all (\<lambda>h. length h = 32) (merkle_level cl ys)"
        using less.prems(4) by (simp_all add: merkle_level_inputs list_all_iff HashBytes_def)
      show "MerkleRoot cl (merkle_level cl xs) = MerkleRoot cl (merkle_level cl ys)"
        using less.prems(6) 3 less.prems(1) MerkleRoot.simps [of cl xs] MerkleRoot.simps [of cl ys] by simp
    qed (use less.prems inj in simp_all)
    then have "level_inputs xs = level_inputs ys"
      using inj0 map_inj_on_eq by (auto simp: merkle_level_inputs)
    then show ?thesis using level_inputs_inject less.prems(1-3) by blast
  qed (use less.prems in auto)
qed

section \<open>Sizes\<close>

text \<open>The hash function gives 32 bytes.\<close>

definition digest_size :: "crypto_lib \<Rightarrow> bool" where
  "digest_size cl \<longleftrightarrow> (\<forall>d. length (sha256_Sum256 cl d) = 32)"

lemma length_HashBytes [wf_simps]: "digest_size cl \<Longrightarrow> length (HashBytes cl d) = 32"
  by (simp add: digest_size_def HashBytes_def)

lemma length_PubkeyToAddress [wf_simps]: "digest_size cl \<Longrightarrow> length (PubkeyToAddress cl p) = 20"
  by (cases p) (simp_all add: PubkeyToAddress_def digest_size_def AddressSize_def zero_address_def)

lemma length_MerkleRoot [wf_simps]: "digest_size cl \<Longrightarrow> length (MerkleRoot cl hs) = 32"
proof (induction cl hs rule: MerkleRoot.induct)
  case (1 cl hs)
  then show ?case by (subst MerkleRoot.simps) (simp add: length_HashBytes zero_hash_def)
qed

end
