(* ===== verification/Config.thy ===== *)
theory Config
  imports Encoding
begin

text \<open>
  Package \<^verbatim>\<open>config\<close> (\<^verbatim>\<open>src/config/config.go\<close>): the chain constants, the genesis data
  types and the default configurations. A genesis allocation is a Go map from address text to
  amount: an association list in the order in which a range over it meets the entries.
\<close>

definition Decimals :: "8 word" where "Decimals = 6"

definition TotalSupply :: u64 where "TotalSupply = 21000000000 * 1000000"

definition MinFee :: u64 where "MinFee = 100"

definition MaxBlockSize :: int where "MaxBlockSize = 1000000"

definition BlockTimeTargetSeconds :: int where "BlockTimeTargetSeconds = 4"

definition MinStake :: u64 where "MinStake = 5000000 * 1000000"

type_synonym GenesisAllocation = "(string \<times> u64) list"

record ValidatorGenesis =
  vg_Address :: string
  vg_Stake :: u64

record ChainConfig =
  cfg_TotalSupply :: u64
  cfg_Decimals :: "8 word"
  cfg_MinFee :: u64
  cfg_MinStake :: u64
  cfg_MaxBlockSize :: int
  cfg_Genesis :: GenesisAllocation
  cfg_GenesisValidators :: "ValidatorGenesis list"

record P2PConfig =
  p2p_ListenAddr :: string
  p2p_Seeds :: "string list"
  p2p_MaxPeers :: int

definition DefaultP2PConfig :: P2PConfig where
  "DefaultP2PConfig = \<lparr>p2p_ListenAddr = '':3030'', p2p_Seeds = [], p2p_MaxPeers = 50\<rparr>"

definition TreasuryAddrHex :: string where
  "TreasuryAddrHex = ''0000000000000000000000000000000000000001''"

definition StakingAddrHex :: string where
  "StakingAddrHex = ''0000000000000000000000000000000000000002''"

definition DistributionAddrHex :: string where
  "DistributionAddrHex = ''0000000000000000000000000000000000000003''"

definition DefaultChainConfig :: ChainConfig where
  "DefaultChainConfig =
     \<lparr>cfg_TotalSupply = TotalSupply, cfg_Decimals = Decimals, cfg_MinFee = MinFee,
      cfg_MinStake = MinStake, cfg_MaxBlockSize = MaxBlockSize,
      cfg_Genesis = [(TreasuryAddrHex, 10000000000 * 1000000),
                     (StakingAddrHex, 5000000000 * 1000000),
                     (DistributionAddrHex, 6000000000 * 1000000)],
      cfg_GenesisValidators = []\<rparr>"

section \<open>The default genesis\<close>

definition allocation_total :: "GenesisAllocation \<Rightarrow> nat" where
  "allocation_total a = sum_list (map (\<lambda>e. unat (snd e)) a)"

lemma default_allocation_total:
  "allocation_total (cfg_Genesis DefaultChainConfig) = unat TotalSupply"
  by (simp add: allocation_total_def DefaultChainConfig_def TotalSupply_def)

end
