(* ===== verification/Core_Types.thy ===== *)
theory Core_Types
  imports Crypto Config
begin

text \<open>
  \<^verbatim>\<open>src/core/types.go\<close> and the genesis block of \<^verbatim>\<open>src/core/genesis.go\<close>: transactions and
  blocks, their hashes, signature and structure checks, and their JSON form (files, messages).
\<close>

section \<open>Transactions\<close>

record Transaction =
  tx_From :: address
  tx_To :: address
  tx_Amount :: u64
  tx_Fee :: u64
  tx_Nonce :: u64
  tx_SenderPubkey :: "byte list"
  tx_Signature :: "byte list"

text \<open>The hashed payload leaves out the public key and the signature.\<close>

definition tx_payload :: "Transaction \<Rightarrow> json" where
  "tx_payload t = JObj
     [(''from'', enc_array (tx_From t)), (''to'', enc_array (tx_To t)),
      (''amount'', enc_uint64 (tx_Amount t)), (''fee'', enc_uint64 (tx_Fee t)),
      (''nonce'', enc_uint64 (tx_Nonce t))]"

definition TxHash :: "crypto_lib \<Rightarrow> Transaction \<Rightarrow> hash" where
  "TxHash cl t = HashBytes cl (bytes (json_Marshal (tx_payload t)))"

definition VerifySignature :: "crypto_lib \<Rightarrow> Transaction \<Rightarrow> bool" where
  "VerifySignature cl t =
     (let pub = UnmarshalPubkey cl (tx_SenderPubkey t) in
      if pub = None \<or> length (tx_Signature t) < 64 then False
      else if PubkeyToAddress cl pub \<noteq> tx_From t then False
      else Verify cl pub (TxHash cl t) (tx_Signature t))"

definition SatisfiesMinFee :: "Transaction \<Rightarrow> bool" where
  "SatisfiesMinFee t \<longleftrightarrow> tx_Fee t \<ge> MinFee"

section \<open>Blocks\<close>

record Block =
  blk_Height :: u64
  blk_Timestamp :: u64
  blk_PreviousHash :: hash
  blk_MerkleRoot :: hash
  blk_ValidatorAddress :: address
  blk_Transactions :: "Transaction list"
  blk_Signature :: "byte list"
  blk_Hash :: hash

definition txHashes :: "crypto_lib \<Rightarrow> Transaction list \<Rightarrow> hash list" where
  "txHashes cl txs = map (TxHash cl) txs"

text \<open>The slice of transaction hashes is never nil, so an empty one is written \<^verbatim>\<open>[]\<close>.\<close>

definition block_payload :: "crypto_lib \<Rightarrow> Block \<Rightarrow> json" where
  "block_payload cl b = JObj
     [(''height'', enc_uint64 (blk_Height b)), (''timestamp'', enc_int64 (blk_Timestamp b)),
      (''previous_hash'', enc_array (blk_PreviousHash b)), (''merkle_root'', enc_array (blk_MerkleRoot b)),
      (''validator_address'', enc_array (blk_ValidatorAddress b)),
      (''tx_hashes'', JArr (map enc_array (txHashes cl (blk_Transactions b))))]"

definition BlockHash :: "crypto_lib \<Rightarrow> Block \<Rightarrow> hash" where
  "BlockHash cl b = HashBytes cl (bytes (json_Marshal (block_payload cl b)))"

definition SetHash :: "crypto_lib \<Rightarrow> Block \<Rightarrow> Block" where
  "SetHash cl b = b\<lparr>blk_Hash := BlockHash cl b\<rparr>"

definition zero_block :: Block where
  "zero_block = \<lparr>blk_Height = 0, blk_Timestamp = 0, blk_PreviousHash = zero_hash,
     blk_MerkleRoot = zero_hash, blk_ValidatorAddress = zero_address, blk_Transactions = [],
     blk_Signature = [], blk_Hash = zero_hash\<rparr>"

text \<open>\<open>now\<close> is the clock reading \<^verbatim>\<open>time.Now().Unix()\<close>.\<close>

definition NewBlock :: "crypto_lib \<Rightarrow> u64 \<Rightarrow> u64 \<Rightarrow> hash \<Rightarrow> address \<Rightarrow> Transaction list \<Rightarrow> Block" where
  "NewBlock cl now height prevHash validator txs =
     (let b = zero_block\<lparr>blk_Height := height, blk_Timestamp := now, blk_PreviousHash := prevHash,
                blk_ValidatorAddress := validator, blk_Transactions := txs\<rparr>;
          hashes = map (TxHash cl) txs;
          b = b\<lparr>blk_MerkleRoot := MerkleRoot cl hashes\<rparr>
      in SetHash cl b)"

definition ValidateBlock :: "crypto_lib \<Rightarrow> Block \<Rightarrow> bool" where
  "ValidateBlock cl b =
     (let hashes = map (TxHash cl) (blk_Transactions b) in
      if MerkleRoot cl hashes \<noteq> blk_MerkleRoot b then False
      else BlockHash cl b = blk_Hash b)"

text \<open>The genesis block has height 0, no transactions and zero previous hash and root.\<close>

definition GenesisBlock :: "crypto_lib \<Rightarrow> address \<Rightarrow> Block" where
  "GenesisBlock cl validator =
     SetHash cl (zero_block\<lparr>blk_Height := 0, blk_Timestamp := 0, blk_PreviousHash := zero_hash,
       blk_MerkleRoot := zero_hash, blk_ValidatorAddress := validator, blk_Transactions := []\<rparr>)"

section \<open>JSON form\<close>

definition zero_tx :: Transaction where
  "zero_tx = \<lparr>tx_From = zero_address, tx_To = zero_address, tx_Amount = 0, tx_Fee = 0,
     tx_Nonce = 0, tx_SenderPubkey = [], tx_Signature = []\<rparr>"

definition tx_json :: "Transaction \<Rightarrow> json" where
  "tx_json t = JObj
     [(''from'', enc_array (tx_From t)), (''to'', enc_array (tx_To t)),
      (''amount'', enc_uint64 (tx_Amount t)), (''fee'', enc_uint64 (tx_Fee t)),
      (''nonce'', enc_uint64 (tx_Nonce t)), (''sender_pubkey'', enc_slice (tx_SenderPubkey t)),
      (''signature'', enc_slice (tx_Signature t))]"

definition tx_fields :: "(string \<times> Transaction decoder) list" where
  "tx_fields =
     [(''from'', \<lambda>j t. map_option (\<lambda>v. t\<lparr>tx_From := v\<rparr>) (dec_array j (tx_From t))),
      (''to'', \<lambda>j t. map_option (\<lambda>v. t\<lparr>tx_To := v\<rparr>) (dec_array j (tx_To t))),
      (''amount'', \<lambda>j t. map_option (\<lambda>v. t\<lparr>tx_Amount := v\<rparr>) (dec_uint64 j (tx_Amount t))),
      (''fee'', \<lambda>j t. map_option (\<lambda>v. t\<lparr>tx_Fee := v\<rparr>) (dec_uint64 j (tx_Fee t))),
      (''nonce'', \<lambda>j t. map_option (\<lambda>v. t\<lparr>tx_Nonce := v\<rparr>) (dec_uint64 j (tx_Nonce t))),
      (''sender_pubkey'', \<lambda>j t. map_option (\<lambda>v. t\<lparr>tx_SenderPubkey := v\<rparr>) (dec_slice j (tx_SenderPubkey t))),
      (''signature'', \<lambda>j t. map_option (\<lambda>v. t\<lparr>tx_Signature := v\<rparr>) (dec_slice j (tx_Signature t)))]"

definition dec_tx :: "Transaction decoder" where
  "dec_tx = dec_struct tx_fields"

definition block_json :: "Block \<Rightarrow> json" where
  "block_json b = JObj
     [(''height'', enc_uint64 (blk_Height b)), (''timestamp'', enc_int64 (blk_Timestamp b)),
      (''previous_hash'', enc_array (blk_PreviousHash b)), (''merkle_root'', enc_array (blk_MerkleRoot b)),
      (''validator_address'', enc_array (blk_ValidatorAddress b)),
      (''transactions'', enc_list tx_json (blk_Transactions b)),
      (''signature'', enc_slice (blk_Signature b)), (''hash'', enc_array (blk_Hash b))]"

definition block_fields :: "(string \<times> Block decoder) list" where
  "block_fields =
     [(''height'', \<lambda>j b. map_option (\<lambda>v. b\<lparr>blk_Height := v\<rparr>) (dec_uint64 j (blk_Height b))),
      (''timestamp'', \<lambda>j b. map_option (\<lambda>v. b\<lparr>blk_Timestamp := v\<rparr>) (dec_int64 j (blk_Timestamp b))),
      (''previous_hash'', \<lambda>j b. map_option (\<lambda>v. b\<lparr>blk_PreviousHash := v\<rparr>) (dec_array j (blk_PreviousHash b))),
      (''merkle_root'', \<lambda>j b. map_option (\<lambda>v. b\<lparr>blk_MerkleRoot := v\<rparr>) (dec_array j (blk_MerkleRoot b))),
      (''validator_address'', \<lambda>j b. map_option (\<lambda>v. b\<lparr>blk_ValidatorAddress := v\<rparr>) (dec_array j (blk_ValidatorAddress b))),
      (''transactions'', \<lambda>j b. map_option (\<lambda>v. b\<lparr>blk_Transactions := v\<rparr>) (dec_list dec_tx zero_tx j (blk_Transactions b))),
      (''signature'', \<lambda>j b. map_option (\<lambda>v. b\<lparr>blk_Signature := v\<rparr>) (dec_slice j (blk_Signature b))),
      (''hash'', \<lambda>j b. map_option (\<lambda>v. b\<lparr>blk_Hash := v\<rparr>) (dec_array j (blk_Hash b)))]"

definition dec_block :: "Block decoder" where
  "dec_block = dec_struct block_fields"

definition Unmarshal_tx :: "string \<Rightarrow> Transaction option" where
  "Unmarshal_tx s = Option.bind (json_Unmarshal s) (\<lambda>j. dec_tx j zero_tx)"

definition Unmarshal_block :: "string \<Rightarrow> Block option" where
  "Unmarshal_block s = Option.bind (json_Unmarshal s) (\<lambda>j. dec_block j zero_block)"

section \<open>Array sizes\<close>

text \<open>Hashes and addresses are arrays in Go; in the model their sizes are an invariant.\<close>

definition wf_tx :: "Transaction \<Rightarrow> bool" where
  "wf_tx t \<longleftrightarrow> length (tx_From t) = 20 \<and> length (tx_To t) = 20"

definition wf_block :: "Block \<Rightarrow> bool" where
  "wf_block b \<longleftrightarrow> length (blk_PreviousHash b) = 32 \<and> length (blk_MerkleRoot b) = 32 \<and>
     length (blk_ValidatorAddress b) = 20 \<and> length (blk_Hash b) = 32 \<and> list_all wf_tx (blk_Transactions b)"

section \<open>Round trips\<close>

lemma length_zero_arrays [simp]: "length zero_hash = 32" "length zero_address = 20"
  by (simp_all add: zero_hash_def zero_address_def)

lemma dec_tx_json [roundtrip_simps]: "wf_tx t \<Longrightarrow> dec_tx (tx_json t) zero_tx = Some t"
  by (cases t) (simp add: dec_tx_def tx_json_def tx_fields_def dec_struct_def zero_tx_def wf_tx_def)

lemma dec_block_json [roundtrip_simps]: "wf_block b \<Longrightarrow> dec_block (block_json b) zero_block = Some b"
proof (cases b)
  case (fields h ts ph mr va txs sg hs)
  assume "wf_block b"
  then show ?thesis
    using dec_enc_list [of txs dec_tx tx_json zero_tx] fields
    by (simp add: dec_block_def block_json_def block_fields_def dec_struct_def zero_block_def wf_block_def
        list_all_iff dec_tx_json)
qed

lemma wf_json_tx [simp]: "wf_json (tx_json t)"
  by (simp add: tx_json_def)

lemma wf_json_block [simp]: "wf_json (block_json b)"
  by (simp add: block_json_def)

interpretation tx_codec: codec_pair tx_json "\<lambda>j. dec_tx j zero_tx" wf_tx json_Marshal json_Unmarshal wf_json
  by unfold_locales (simp_all add: dec_tx_json)

interpretation block_codec:
  codec_pair block_json "\<lambda>j. dec_block j zero_block" wf_block json_Marshal json_Unmarshal wf_json
  by unfold_locales (simp_all add: dec_block_json)

interpretation block_indent:
  codec_pair block_json "\<lambda>j. dec_block j zero_block" wf_block json_MarshalIndent json_Unmarshal wf_json
  by unfold_locales simp_all

lemma Unmarshal_tx_Marshal [roundtrip_simps]: "wf_tx t \<Longrightarrow> Unmarshal_tx (json_Marshal (tx_json t)) = Some t"
  using tx_codec.pair.dec_enc by (simp add: Unmarshal_tx_def)

lemma Unmarshal_block_Marshal [roundtrip_simps]:
  "wf_block b \<Longrightarrow> Unmarshal_block (json_Marshal (block_json b)) = Some b"
  "wf_block b \<Longrightarrow> Unmarshal_block (json_MarshalIndent (block_json b)) = Some b"
  using block_codec.pair.dec_enc block_indent.pair.dec_enc by (simp_all add: Unmarshal_block_def)

section \<open>Decoded values have the array sizes of the Go types\<close>

lemma dec_members_inv:
  assumes "\<And>n f j r r'. (n, f) \<in> set fs \<Longrightarrow> P r \<Longrightarrow> f j r = Some r' \<Longrightarrow> P r'"
    and "P r" and "dec_members fs kvs r = Some r'"
  shows "P r'"
  using assms(2,3)
proof (induction kvs arbitrary: r)
  case (Cons kv kvs)
  obtain k v where kv: "kv = (k, v)" by (cases kv)
  have mem: "f \<in> snd ` set fs" if "find_field fs k = Some f" for f
    using that by (force simp: find_field_def split: option.splits list.splits
        dest!: map_of_SomeD dest: filter_eq_ConsD)
  show ?case
  proof (cases "find_field fs k")
    case (Some f)
    then obtain n where "(n, f) \<in> set fs" using mem by force
    moreover obtain r1 where "f v r = Some r1" and "dec_members fs kvs r1 = Some r'"
      using Cons.prems Some kv by (auto split: option.splits)
    ultimately show ?thesis using Cons.IH Cons.prems(1) assms(1) by blast
  qed (use Cons kv in auto)
qed simp

lemma dec_struct_inv:
  assumes "\<And>n f j r r'. (n, f) \<in> set fs \<Longrightarrow> P r \<Longrightarrow> f j r = Some r' \<Longrightarrow> P r'"
    and "P r" and "dec_struct fs j r = Some r'"
  shows "P r'"
proof (cases j)
  case (JObj kvs)
  with assms(3) have "dec_members fs kvs r = Some r'" by (simp add: dec_struct_def)
  with dec_members_inv [of fs P] assms(1,2) show ?thesis by blast
qed (use assms(2,3) in \<open>simp_all add: dec_struct_def\<close>)

lemma dec_tx_wf: "wf_tx r \<Longrightarrow> dec_tx j r = Some t \<Longrightarrow> wf_tx t"
  unfolding dec_tx_def
  by (rule dec_struct_inv [where P = wf_tx and fs = tx_fields])
    (auto simp: tx_fields_def wf_tx_def dest: dec_array_length)

lemma wf_zero [simp]: "wf_tx zero_tx" "wf_block zero_block"
  by (simp_all add: wf_tx_def zero_tx_def wf_block_def zero_block_def)

lemma dec_elems_all: "(\<And>v x. f v z = Some x \<Longrightarrow> P x) \<Longrightarrow> dec_elems f z vs = Some xs \<Longrightarrow> list_all P xs"
  by (induction vs arbitrary: xs) (auto split: option.splits)

lemma dec_block_wf: "wf_block r \<Longrightarrow> dec_block j r = Some b \<Longrightarrow> wf_block b"
  unfolding dec_block_def
proof (rule dec_struct_inv [where P = wf_block and fs = block_fields])
  fix n f j r r' assume f: "(n, f) \<in> set block_fields" and r: "wf_block r" and r': "f j r = Some r'"
  have "list_all wf_tx txs" if "dec_list dec_tx zero_tx j old = Some txs" for txs old
    using that dec_elems_all [of dec_tx zero_tx wf_tx] dec_tx_wf [OF wf_zero(1)]
    by (auto simp: dec_list_def split: json.splits)
  then show "wf_block r'"
    using f r r' by (auto simp: block_fields_def wf_block_def dest: dec_array_length)
qed

lemma Unmarshal_block_wf [wf_simps]: "Unmarshal_block s = Some b \<Longrightarrow> wf_block b"
  by (auto simp: Unmarshal_block_def bind_eq_Some_conv intro: dec_block_wf [OF wf_zero(2)])

lemma Unmarshal_tx_wf [wf_simps]: "Unmarshal_tx s = Some t \<Longrightarrow> wf_tx t"
  by (auto simp: Unmarshal_tx_def bind_eq_Some_conv intro: dec_tx_wf [OF wf_zero(1)])

section \<open>Constructed blocks\<close>

lemma wf_NewBlock [wf_simps]:
  assumes "digest_size cl" and "length prev = 32" and "length v = 20" and "list_all wf_tx txs"
  shows "wf_block (NewBlock cl now h prev v txs)"
  using assms by (simp add: wf_block_def NewBlock_def SetHash_def BlockHash_def Let_def wf_simps)

lemma wf_GenesisBlock [wf_simps]:
  "digest_size cl \<Longrightarrow> length v = 20 \<Longrightarrow> wf_block (GenesisBlock cl v)"
  by (simp add: wf_block_def GenesisBlock_def SetHash_def BlockHash_def wf_simps zero_block_def)

lemma BlockHash_cong_hash [simp]:
  "BlockHash cl (b\<lparr>blk_Hash := h\<rparr>) = BlockHash cl b" "BlockHash cl (b\<lparr>blk_Signature := s\<rparr>) = BlockHash cl b"
  by (simp_all add: BlockHash_def block_payload_def)

lemma ValidateBlock_New: "ValidateBlock cl (NewBlock cl now h prev v txs)"
  by (simp add: ValidateBlock_def NewBlock_def SetHash_def Let_def)

lemma ValidateBlock_Genesis: "ValidateBlock cl (GenesisBlock cl v)"
  by (simp add: ValidateBlock_def GenesisBlock_def SetHash_def Let_def MerkleRoot.simps zero_block_def
      BlockHash_def block_payload_def)

lemma ValidateBlock_signature [simp]: "ValidateBlock cl (b\<lparr>blk_Signature := s\<rparr>) = ValidateBlock cl b"
  by (simp add: ValidateBlock_def)

end
