(* ===== verification/State_DB.thy ===== *)
theory State_DB
  imports Core_Types
begin

text \<open>
  Package \<^verbatim>\<open>state\<close> (\<^verbatim>\<open>src/state/state.go\<close>): balances, nonces and validator stakes in a
  LevelDB database. LevelDB is a third-party package: its operations are the fields of
  \<open>leveldb\<close>, an argument of every definition, and \<open>leveldb_ok\<close> states the documented
  behaviour the theorems use (atomic batches applied in order, reads see the last write, an iterator
  meets every key). Every exported method takes the state mutex and releases it on return, and no
  method calls another that takes it, so the model has no lock field.
\<close>

section \<open>The database interface\<close>

datatype get_result = Found "byte list" | NotFound | GetError

datatype batch_op = Put "byte list" "byte list" | Delete "byte list"

datatype db_error = ErrDB | ErrJSON

text \<open>\<open>ldb_Write\<close> gives the database after the call and the error, if any.\<close>

record 'db leveldb =
  ldb_Get :: "'db \<Rightarrow> byte list \<Rightarrow> get_result"
  ldb_Write :: "'db \<Rightarrow> batch_op list \<Rightarrow> 'db \<times> db_error option"
  ldb_Keys :: "'db \<Rightarrow> byte list list"

record 'db State =
  st_db :: 'db
  st_cfg :: ChainConfig

section \<open>Keys and accessors\<close>

definition balanceKey :: "address \<Rightarrow> byte list" where
  "balanceKey addr = bytes ''b:'' @ addr"

definition nonceKey :: "address \<Rightarrow> byte list" where
  "nonceKey addr = bytes ''n:'' @ addr"

definition validatorStakeKey :: "address \<Rightarrow> byte list" where
  "validatorStakeKey addr = bytes ''vs:'' @ addr"

definition keyValidatorList :: "byte list" where
  "keyValidatorList = bytes ''validator_list''"

text \<open>\<open>opened\<close> is the result of \<^verbatim>\<open>leveldb.OpenFile\<close>.\<close>

definition Open :: "'db option \<Rightarrow> ChainConfig option \<Rightarrow> 'db State option" where
  "Open opened cfg = (case opened of
     None \<Rightarrow> None
   | Some db \<Rightarrow> Some \<lparr>st_db = db, st_cfg = (case cfg of None \<Rightarrow> DefaultChainConfig | Some c \<Rightarrow> c)\<rparr>)"

text \<open>Closing leaves the contents to the directory, where the next \<^verbatim>\<open>Open\<close> finds them.\<close>

definition State_Close :: "'db State \<Rightarrow> 'db" where
  "State_Close s = st_db s"

text \<open>A Go pair \<^verbatim>\<open>(uint64, error)\<close>.\<close>

type_synonym u64_err = "u64 \<times> db_error option"

definition GetBalance :: "'db leveldb \<Rightarrow> 'db State \<Rightarrow> address \<Rightarrow> u64_err" where
  "GetBalance L s addr = (case ldb_Get L (st_db s) (balanceKey addr) of
     NotFound \<Rightarrow> (0, None)
   | GetError \<Rightarrow> (0, Some ErrDB)
   | Found val \<Rightarrow> if length val < 8 then (0, None) else (BigEndian_Uint64 val, None))"

definition GetNonce :: "'db leveldb \<Rightarrow> 'db State \<Rightarrow> address \<Rightarrow> u64_err" where
  "GetNonce L s addr = (case ldb_Get L (st_db s) (nonceKey addr) of
     NotFound \<Rightarrow> (0, None)
   | GetError \<Rightarrow> (0, Some ErrDB)
   | Found val \<Rightarrow> if length val < 8 then (0, None) else (BigEndian_Uint64 val, None))"

definition setBalance :: "batch_op list \<Rightarrow> address \<Rightarrow> u64 \<Rightarrow> batch_op list" where
  "setBalance batch addr amount = batch @ [Put (balanceKey addr) (BigEndian_PutUint64 amount)]"

definition setNonce :: "batch_op list \<Rightarrow> address \<Rightarrow> u64 \<Rightarrow> batch_op list" where
  "setNonce batch addr nonce = batch @ [Put (nonceKey addr) (BigEndian_PutUint64 nonce)]"

definition setValidatorStake :: "batch_op list \<Rightarrow> address \<Rightarrow> u64 \<Rightarrow> batch_op list" where
  "setValidatorStake batch addr stake = batch @ [Put (validatorStakeKey addr) (BigEndian_PutUint64 stake)]"

definition getBalanceLocked :: "'db leveldb \<Rightarrow> 'db \<Rightarrow> address \<Rightarrow> u64_err" where
  "getBalanceLocked L db addr = (case ldb_Get L db (balanceKey addr) of
     NotFound \<Rightarrow> (0, None)
   | GetError \<Rightarrow> (0, Some ErrDB)
   | Found val \<Rightarrow> if length val < 8 then (0, None) else (BigEndian_Uint64 val, None))"

definition getNonceLocked :: "'db leveldb \<Rightarrow> 'db \<Rightarrow> address \<Rightarrow> u64_err" where
  "getNonceLocked L db addr = (case ldb_Get L db (nonceKey addr) of
     NotFound \<Rightarrow> (0, None)
   | GetError \<Rightarrow> (0, Some ErrDB)
   | Found val \<Rightarrow> if length val < 8 then (0, None) else (BigEndian_Uint64 val, None))"

definition getValidatorStakeLocked :: "'db leveldb \<Rightarrow> 'db \<Rightarrow> address \<Rightarrow> u64_err" where
  "getValidatorStakeLocked L db addr = (case ldb_Get L db (validatorStakeKey addr) of
     NotFound \<Rightarrow> (0, None)
   | GetError \<Rightarrow> (0, Some ErrDB)
   | Found val \<Rightarrow> if length val < 8 then (0, None) else (BigEndian_Uint64 val, None))"

section \<open>Genesis\<close>

definition string_list_json :: "string list \<Rightarrow> json" where
  "string_list_json xs = enc_list JStr xs"

definition dec_string_list :: "string list decoder" where
  "dec_string_list = dec_list dec_string []"

text \<open>The loop over the allocation, a Go map: the argument lists its entries in the order in which this call visits
  them. Entries whose key is not the hex of 20 bytes are skipped (the test is that of \<^verbatim>\<open>AddressFromHex\<close>).\<close>

fun genesis_accounts :: "GenesisAllocation \<Rightarrow> batch_op list \<Rightarrow> batch_op list" where
  "genesis_accounts [] batch = batch"
| "genesis_accounts ((addrHex, amount) # rest) batch =
     (case AddressFromHex addrHex of
        None \<Rightarrow> genesis_accounts rest batch
      | Some addr \<Rightarrow> genesis_accounts rest (setNonce (setBalance batch addr amount) addr 0))"

text \<open>The loop over the validators, with the list of accepted address texts.\<close>

fun genesis_validators ::
  "ChainConfig \<Rightarrow> ValidatorGenesis list \<Rightarrow> batch_op list \<Rightarrow> string list \<Rightarrow> batch_op list \<times> string list" where
  "genesis_validators cfg [] batch addrs = (batch, addrs)"
| "genesis_validators cfg (v # rest) batch addrs =
     (case AddressFromHex (vg_Address v) of
        None \<Rightarrow> genesis_validators cfg rest batch addrs
      | Some addr \<Rightarrow>
          if vg_Stake v < cfg_MinStake cfg then genesis_validators cfg rest batch addrs
          else genesis_validators cfg rest (setValidatorStake batch addr (vg_Stake v)) (addrs @ [vg_Address v]))"

definition ApplyGenesis ::
  "'db leveldb \<Rightarrow> 'db State \<Rightarrow> GenesisAllocation \<Rightarrow> ValidatorGenesis list \<Rightarrow> 'db State \<times> db_error option" where
  "ApplyGenesis L s allocation validators =
     (let batch = genesis_accounts allocation [];
          batch = (if validators = [] then batch else
            (let (batch, addrs) = genesis_validators (st_cfg s) validators batch [] in
             if addrs = [] then batch
             else batch @ [Put keyValidatorList (bytes (json_Marshal (string_list_json addrs)))]));
          (db, err) = ldb_Write L (st_db s) batch
      in (s\<lparr>st_db := db\<rparr>, err))"

text \<open>The copy of the same code for callers that hold the lock.\<close>

definition applyGenesisLocked ::
  "'db leveldb \<Rightarrow> ChainConfig \<Rightarrow> 'db \<Rightarrow> GenesisAllocation \<Rightarrow> ValidatorGenesis list \<Rightarrow> 'db \<times> db_error option" where
  "applyGenesisLocked L cfg db allocation validators =
     (let batch = genesis_accounts allocation [];
          batch = (if validators = [] then batch else
            (let (batch, addrs) = genesis_validators cfg validators batch [] in
             if addrs = [] then batch
             else batch @ [Put keyValidatorList (bytes (json_Marshal (string_list_json addrs)))]))
      in ldb_Write L db batch)"

section \<open>Validators\<close>

record Validator =
  val_Address :: address
  val_Stake :: u64

fun collect_validators :: "'db leveldb \<Rightarrow> 'db \<Rightarrow> string list \<Rightarrow> Validator list" where
  "collect_validators L db [] = []"
| "collect_validators L db (a # addrs) =
     (case AddressFromHex a of
        None \<Rightarrow> collect_validators L db addrs
      | Some addr \<Rightarrow>
          (let stake = fst (getValidatorStakeLocked L db addr) in
           if stake > 0 then \<lparr>val_Address = addr, val_Stake = stake\<rparr> # collect_validators L db addrs
           else collect_validators L db addrs))"

text \<open>On a read error the value is nil, its length is 0, and the first test already returns the
  empty set without an error.\<close>

definition GetValidatorSet :: "'db leveldb \<Rightarrow> 'db State \<Rightarrow> Validator list \<times> db_error option" where
  "GetValidatorSet L s = (case ldb_Get L (st_db s) keyValidatorList of
     NotFound \<Rightarrow> ([], None)
   | GetError \<Rightarrow> ([], None)
   | Found val \<Rightarrow>
       if length val = 0 then ([], None) else
       (case Option.bind (json_Unmarshal (str val)) (\<lambda>j. dec_string_list j []) of
          None \<Rightarrow> ([], Some ErrJSON)
        | Some addrs \<Rightarrow> (collect_validators L (st_db s) addrs, None)))"

definition SlashValidator :: "'db leveldb \<Rightarrow> 'db State \<Rightarrow> address \<Rightarrow> 'db State \<times> db_error option" where
  "SlashValidator L s addr = (case ldb_Get L (st_db s) keyValidatorList of
     NotFound \<Rightarrow> (s, None)
   | GetError \<Rightarrow> (s, Some ErrDB)
   | Found listVal \<Rightarrow>
       (case Option.bind (json_Unmarshal (str listVal)) (\<lambda>j. dec_string_list j []) of
          None \<Rightarrow> (s, Some ErrJSON)
        | Some addrs \<Rightarrow>
            (let addrHex = Address_Hex addr;
                 newList = filter (\<lambda>a. a \<noteq> addrHex) addrs;
                 batch = setValidatorStake [] addr 0;
                 batch = (if newList \<noteq> []
                   then batch @ [Put keyValidatorList (bytes (json_Marshal (string_list_json newList)))]
                   else batch @ [Delete keyValidatorList]);
                 (db, err) = ldb_Write L (st_db s) batch
             in (s\<lparr>st_db := db\<rparr>, err))))"

section \<open>Applying a block\<close>

type_synonym accounts = "(address \<times> u64) list"

text \<open>First loop: load the balance of both parties and, for a sender not yet in the balance map, its
  nonce. Read errors are dropped and read as 0.\<close>

fun load_accounts :: "'db leveldb \<Rightarrow> 'db \<Rightarrow> Transaction list \<Rightarrow> accounts \<Rightarrow> accounts \<Rightarrow> accounts \<times> accounts" where
  "load_accounts L db [] balances nonces = (balances, nonces)"
| "load_accounts L db (tx # txs) balances nonces =
     (let (balances, nonces) =
        (if map_has balances (tx_From tx) then (balances, nonces)
         else (AList.update (tx_From tx) (fst (getBalanceLocked L db (tx_From tx))) balances,
               AList.update (tx_From tx) (fst (getNonceLocked L db (tx_From tx))) nonces));
        balances =
        (if map_has balances (tx_To tx) then balances
         else AList.update (tx_To tx) (fst (getBalanceLocked L db (tx_To tx))) balances)
      in load_accounts L db txs balances nonces)"

text \<open>Second loop: the fee is added to the total before the funds are checked.\<close>

fun apply_txs :: "Transaction list \<Rightarrow> accounts \<Rightarrow> accounts \<Rightarrow> u64 \<Rightarrow> accounts \<times> accounts \<times> u64" where
  "apply_txs [] balances nonces totalFees = (balances, nonces, totalFees)"
| "apply_txs (tx # txs) balances nonces totalFees =
     (let total = tx_Amount tx + tx_Fee tx;
          totalFees = totalFees + tx_Fee tx
      in if map_get balances (tx_From tx) < total then apply_txs txs balances nonces totalFees
         else
           (let balances = AList.update (tx_From tx) (map_get balances (tx_From tx) - total) balances;
                nonces = AList.update (tx_From tx) (map_get nonces (tx_From tx) + 1) nonces;
                balances = AList.update (tx_To tx) (map_get balances (tx_To tx) + tx_Amount tx) balances
            in apply_txs txs balances nonces totalFees))"

definition credit_producer :: "'db leveldb \<Rightarrow> 'db \<Rightarrow> address \<Rightarrow> u64 \<Rightarrow> accounts \<Rightarrow> accounts" where
  "credit_producer L db producer totalFees balances =
     (if totalFees > 0 then
        (let balances = (if map_has balances producer then balances
               else AList.update producer (fst (getBalanceLocked L db producer)) balances)
         in AList.update producer (map_get balances producer + totalFees) balances)
      else balances)"

fun balance_puts :: "accounts \<Rightarrow> batch_op list \<Rightarrow> batch_op list" where
  "balance_puts [] batch = batch"
| "balance_puts ((addr, bal) # m) batch = balance_puts m (setBalance batch addr bal)"

fun nonce_puts :: "accounts \<Rightarrow> batch_op list \<Rightarrow> batch_op list" where
  "nonce_puts [] batch = batch"
| "nonce_puts ((addr, n) # m) batch = nonce_puts m (setNonce batch addr n)"

definition ApplyBlock :: "'db leveldb \<Rightarrow> 'db State \<Rightarrow> Block \<Rightarrow> 'db State \<times> db_error option" where
  "ApplyBlock L s b =
     (let (balances, nonces) = load_accounts L (st_db s) (blk_Transactions b) [] [];
          (balances, nonces, totalFees) = apply_txs (blk_Transactions b) balances nonces 0;
          balances = credit_producer L (st_db s) (blk_ValidatorAddress b) totalFees balances;
          batch = nonce_puts nonces (balance_puts balances []);
          (db, err) = ldb_Write L (st_db s) batch
      in (s\<lparr>st_db := db\<rparr>, err))"

definition applyBlockLocked :: "'db leveldb \<Rightarrow> 'db \<Rightarrow> Block \<Rightarrow> 'db \<times> db_error option" where
  "applyBlockLocked L db b =
     (let (balances, nonces) = load_accounts L db (blk_Transactions b) [] [];
          (balances, nonces, totalFees) = apply_txs (blk_Transactions b) balances nonces 0;
          balances = credit_producer L db (blk_ValidatorAddress b) totalFees balances;
          batch = nonce_puts nonces (balance_puts balances [])
      in ldb_Write L db batch)"

section \<open>Reorganisation\<close>

fun replay_blocks :: "'db leveldb \<Rightarrow> 'db \<Rightarrow> Block list \<Rightarrow> 'db \<times> db_error option" where
  "replay_blocks L db [] = (db, None)"
| "replay_blocks L db (b # bs) =
     (case applyBlockLocked L db b of (db', Some e) \<Rightarrow> (db', Some e) | (db', None) \<Rightarrow> replay_blocks L db' bs)"

definition ResetAndReplay ::
  "'db leveldb \<Rightarrow> 'db State \<Rightarrow> GenesisAllocation \<Rightarrow> ValidatorGenesis list \<Rightarrow> Block list \<Rightarrow> 'db State \<times> db_error option" where
  "ResetAndReplay L s allocation validators blocks =
     (let batch = map Delete (ldb_Keys L (st_db s)) in
      case ldb_Write L (st_db s) batch of
        (db, Some e) \<Rightarrow> (s\<lparr>st_db := db\<rparr>, Some e)
      | (db, None) \<Rightarrow>
          (case applyGenesisLocked L (st_cfg s) db allocation validators of
             (db, Some e) \<Rightarrow> (s\<lparr>st_db := db\<rparr>, Some e)
           | (db, None) \<Rightarrow>
               (let (db, err) = replay_blocks L db blocks in (s\<lparr>st_db := db\<rparr>, err))))"

end
