(* ===== verification/State_Laws.thy ===== *)
theory State_Laws
  imports State_DB
begin

text \<open>
  What the state package guarantees on a database that behaves as documented: the account view of a
  database, the abstract ledger transition that \<open>ApplyBlock\<close> refines, and the conservation law of
  the ledger in 64-bit arithmetic.
\<close>

section \<open>The documented behaviour of LevelDB\<close>

text \<open>The effect of a batch on one key: the last operation on it decides.\<close>

fun batch_effect :: "batch_op list \<Rightarrow> byte list \<Rightarrow> get_result \<Rightarrow> get_result" where
  "batch_effect [] k r = r"
| "batch_effect (Put k' v # ops) k r = batch_effect ops k (if k = k' then Found v else r)"
| "batch_effect (Delete k' # ops) k r = batch_effect ops k (if k = k' then NotFound else r)"

definition leveldb_ok :: "'db leveldb \<Rightarrow> bool" where
  "leveldb_ok L \<longleftrightarrow>
     (\<forall>db k. ldb_Get L db k \<noteq> GetError) \<and>
     (\<forall>db ops db'. ldb_Write L db ops = (db', None) \<longrightarrow>
        (\<forall>k. ldb_Get L db' k = batch_effect ops k (ldb_Get L db k))) \<and>
     (\<forall>db ops db' e. ldb_Write L db ops = (db', Some e) \<longrightarrow>
        (\<forall>k. ldb_Get L db' k = ldb_Get L db k)) \<and>
     (\<forall>db. set (ldb_Keys L db) = {k. \<exists>v. ldb_Get L db k = Found v})"

text \<open>An in-memory database with this behaviour, on which closed instances are evaluated.\<close>

type_synonym memdb = "(byte list \<times> byte list) list"

fun mem_step :: "memdb \<Rightarrow> batch_op \<Rightarrow> memdb" where
  "mem_step db (Put k v) = AList.update k v db"
| "mem_step db (Delete k) = AList.delete k db"

definition mem_leveldb :: "memdb leveldb" where
  "mem_leveldb = \<lparr>ldb_Get = (\<lambda>db k. case map_of db k of Some v \<Rightarrow> Found v | None \<Rightarrow> NotFound),
     ldb_Write = (\<lambda>db ops. (foldl mem_step db ops, None)), ldb_Keys = map fst\<rparr>"

lemma mem_get_batch:
  "(case map_of (foldl mem_step db ops) k of Some v \<Rightarrow> Found v | None \<Rightarrow> NotFound) =
     batch_effect ops k (case map_of db k of Some v \<Rightarrow> Found v | None \<Rightarrow> NotFound)"
proof (induction ops arbitrary: db)
  case (Cons op ops)
  then show ?case by (cases op) (auto simp: update_conv' delete_conv')
qed simp

lemma mem_leveldb_ok: "leveldb_ok mem_leveldb"
  by (auto simp: leveldb_ok_def mem_leveldb_def mem_get_batch domIff simp flip: dom_map_of_conv_image_fst
      split: option.splits)

section \<open>Columns of the database\<close>

text \<open>A column: the keys of one prefix, holding big-endian 64-bit integers. Writing a Go map into a
  column is independent of the order in which the map is traversed.\<close>

locale column =
  fixes key :: "'a \<Rightarrow> byte list"
  assumes key_inject: "key a = key b \<longleftrightarrow> a = b"
begin

definition puts :: "('a \<times> u64) list \<Rightarrow> batch_op list" where
  "puts m = map (\<lambda>(a, v). Put (key a) (BigEndian_PutUint64 v)) m"

lemma batch_effect_puts:
  assumes "distinct (map fst m)"
  shows "batch_effect (puts m @ ops) (key x) r =
    batch_effect ops (key x) (case map_of m x of Some v \<Rightarrow> Found (BigEndian_PutUint64 v) | None \<Rightarrow> r)"
  using assms
proof (induction m arbitrary: r)
  case (Cons e m)
  obtain a v where e: "e = (a, v)" by (cases e)
  have "map_of m x = None" if "x = a" using Cons.prems that e by (simp add: map_of_eq_None_iff)
  then show ?case using Cons e by (auto simp: puts_def key_inject split: option.splits)
qed (simp add: puts_def)

lemma batch_effect_other:
  assumes "\<And>a. k \<noteq> key a"
  shows "batch_effect (puts m @ ops) k r = batch_effect ops k r"
  by (induction m arbitrary: r) (auto simp: puts_def assms)

lemma batch_effect_order:
  assumes "distinct (map fst m)" and "mset m' = mset m"
  shows "batch_effect (puts m' @ ops) (key x) r = batch_effect (puts m @ ops) (key x) r"
proof -
  have "mset (map fst m') = mset (map fst m)" using assms(2) by simp
  then have d: "distinct (map fst m')" using assms(1) mset_eq_imp_distinct_iff by blast
  have "map_of m' = map_of m"
    using map_of_inject_set [OF assms(1) d] assms(2) by (metis mset_eq_setD)
  then show ?thesis by (simp add: batch_effect_puts assms(1) d)
qed

end

interpretation balance_col: column balanceKey
  by unfold_locales (simp add: balanceKey_def)

interpretation nonce_col: column nonceKey
  by unfold_locales (simp add: nonceKey_def)

interpretation stake_col: column validatorStakeKey
  by unfold_locales (simp add: validatorStakeKey_def)

lemma key_columns [simp]:
  "balanceKey a \<noteq> nonceKey b" "nonceKey b \<noteq> balanceKey a"
  "balanceKey a \<noteq> validatorStakeKey b" "validatorStakeKey b \<noteq> balanceKey a"
  "nonceKey a \<noteq> validatorStakeKey b" "validatorStakeKey b \<noteq> nonceKey a"
  "keyValidatorList \<noteq> balanceKey a" "balanceKey a \<noteq> keyValidatorList"
  "keyValidatorList \<noteq> nonceKey a" "nonceKey a \<noteq> keyValidatorList"
  "keyValidatorList \<noteq> validatorStakeKey a" "validatorStakeKey a \<noteq> keyValidatorList"
  by (simp_all add: balanceKey_def nonceKey_def validatorStakeKey_def keyValidatorList_def bytes_def)

lemma balance_puts_eq: "balance_puts m batch = batch @ balance_col.puts m"
  by (induction m batch rule: balance_puts.induct) (simp_all add: setBalance_def balance_col.puts_def)

lemma nonce_puts_eq: "nonce_puts m batch = batch @ nonce_col.puts m"
  by (induction m batch rule: nonce_puts.induct) (simp_all add: setNonce_def nonce_col.puts_def)

section \<open>The account view of a database\<close>

definition balance_of :: "'db leveldb \<Rightarrow> 'db \<Rightarrow> address \<Rightarrow> u64" where
  "balance_of L db a = fst (getBalanceLocked L db a)"

definition nonce_of :: "'db leveldb \<Rightarrow> 'db \<Rightarrow> address \<Rightarrow> u64" where
  "nonce_of L db a = fst (getNonceLocked L db a)"

definition stake_of :: "'db leveldb \<Rightarrow> 'db \<Rightarrow> address \<Rightarrow> u64" where
  "stake_of L db a = fst (getValidatorStakeLocked L db a)"

section \<open>The abstract ledger\<close>

text \<open>One transaction on a total balance function, in 64-bit arithmetic: applied when the sender holds
  the (wrapped) sum of amount and fee, otherwise skipped.\<close>

definition funded :: "(address \<Rightarrow> u64) \<Rightarrow> Transaction \<Rightarrow> bool" where
  "funded bal t \<longleftrightarrow> \<not> bal (tx_From t) < tx_Amount t + tx_Fee t"

definition spec_tx :: "(address \<Rightarrow> u64) \<Rightarrow> Transaction \<Rightarrow> (address \<Rightarrow> u64)" where
  "spec_tx bal t =
     (if funded bal t then
        (let bal = bal(tx_From t := bal (tx_From t) - (tx_Amount t + tx_Fee t))
         in bal(tx_To t := bal (tx_To t) + tx_Amount t))
      else bal)"

fun spec_txs :: "(address \<Rightarrow> u64) \<Rightarrow> Transaction list \<Rightarrow> (address \<Rightarrow> u64)" where
  "spec_txs bal [] = bal"
| "spec_txs bal (t # ts) = spec_txs (spec_tx bal t) ts"

definition fees :: "Transaction list \<Rightarrow> u64" where
  "fees ts = sum_list (map tx_Fee ts)"

definition spec_block :: "(address \<Rightarrow> u64) \<Rightarrow> Block \<Rightarrow> (address \<Rightarrow> u64)" where
  "spec_block bal b =
     (let bal = spec_txs bal (blk_Transactions b)
      in bal(blk_ValidatorAddress b := bal (blk_ValidatorAddress b) + fees (blk_Transactions b)))"

text \<open>The transactions of a list that are skipped, and how often an address sends successfully.\<close>

fun skipped :: "(address \<Rightarrow> u64) \<Rightarrow> Transaction list \<Rightarrow> Transaction list" where
  "skipped bal [] = []"
| "skipped bal (t # ts) = (if funded bal t then skipped (spec_tx bal t) ts else t # skipped (spec_tx bal t) ts)"

fun sent :: "(address \<Rightarrow> u64) \<Rightarrow> Transaction list \<Rightarrow> address \<Rightarrow> nat" where
  "sent bal [] a = 0"
| "sent bal (t # ts) a = (if funded bal t \<and> tx_From t = a then Suc (sent (spec_tx bal t) ts a)
                          else sent (spec_tx bal t) ts a)"

text \<open>Whether the first transaction that names the address names it as the sender.\<close>

fun first_as_sender :: "Transaction list \<Rightarrow> address \<Rightarrow> bool" where
  "first_as_sender [] a = False"
| "first_as_sender (t # ts) a =
     (if tx_From t = a then True else if tx_To t = a then False else first_as_sender ts a)"

definition spec_nonce :: "(address \<Rightarrow> u64) \<Rightarrow> (address \<Rightarrow> u64) \<Rightarrow> Transaction list \<Rightarrow> (address \<Rightarrow> u64)" where
  "spec_nonce bal nonce ts a =
     (let n = sent bal ts a in
      if first_as_sender ts a then nonce a + of_nat n else if 0 < n then of_nat n else nonce a)"

section \<open>The in-memory phase refines the abstract ledger\<close>

definition overlay :: "('k \<times> u64) list \<Rightarrow> ('k \<Rightarrow> u64) \<Rightarrow> 'k \<Rightarrow> u64" where
  "overlay m f k = (if map_has m k then map_get m k else f k)"

lemma overlay_update [simp]: "overlay (AList.update k v m) f = (overlay m f)(k := v)"
  by (rule ext) (simp add: overlay_def)

lemma overlay_Nil [simp]: "overlay [] f = f"
  by (rule ext) (simp add: overlay_def)

lemma overlay_has: "map_has m k \<Longrightarrow> map_get m k = overlay m f k"
  by (simp add: overlay_def)

lemma overlay_map_of: "overlay m f k = (case map_of m k of Some v \<Rightarrow> v | None \<Rightarrow> f k)"
  by (simp add: overlay_def map_has_def map_get_def split: option.splits)

lemma map_get_absent: "\<not> map_has m k \<Longrightarrow> map_get m k = 0"
  by (simp add: map_get_def map_has_def)

lemma fun_upd_view [simp]: "f k = v \<Longrightarrow> f(k := v) = f"
  by auto

text \<open>The load phase adds exactly the parties of the transactions and changes nothing visible.\<close>

definition parties :: "Transaction list \<Rightarrow> address set" where
  "parties ts = (\<Union>t \<in> set ts. {tx_From t, tx_To t})"

lemma load_accounts_balances:
  assumes "load_accounts L db ts bals nons = (bals', nons')" and "overlay bals (balance_of L db) = balance_of L db"
    and "distinct (map fst bals)"
  shows "overlay bals' (balance_of L db) = balance_of L db \<and> distinct (map fst bals') \<and>
    (\<forall>k. map_has bals' k \<longleftrightarrow> map_has bals k \<or> k \<in> parties ts)"
  using assms
proof (induction ts arbitrary: bals nons)
  case (Cons t ts)
  define b1 where "b1 = (if map_has bals (tx_From t) then bals
    else AList.update (tx_From t) (balance_of L db (tx_From t)) bals)"
  define n1 where "n1 = (if map_has bals (tx_From t) then nons
    else AList.update (tx_From t) (nonce_of L db (tx_From t)) nons)"
  define b2 where "b2 = (if map_has b1 (tx_To t) then b1
    else AList.update (tx_To t) (balance_of L db (tx_To t)) b1)"
  have "load_accounts L db ts b2 n1 = (bals', nons')"
    using Cons.prems(1) by (auto simp: b1_def n1_def b2_def balance_of_def nonce_of_def split: if_splits)
  moreover have "overlay b2 (balance_of L db) = balance_of L db" and "distinct (map fst b2)"
    using Cons.prems(2,3) by (simp_all add: b1_def b2_def distinct_update)
  moreover have "map_has b2 k \<longleftrightarrow> map_has bals k \<or> k = tx_From t \<or> k = tx_To t" for k
    by (auto simp: b1_def b2_def)
  ultimately show ?case using Cons.IH [of b2 n1] by (auto simp: parties_def)
qed (simp add: parties_def)

lemma load_accounts_nonces:
  assumes "load_accounts L db ts bals nons = (bals', nons')"
    and "\<And>k. map_has nons k \<Longrightarrow> map_get nons k = nonce_of L db k" and "distinct (map fst nons)"
  shows "distinct (map fst nons') \<and>
    (\<forall>k. map_has nons' k \<longleftrightarrow> map_has nons k \<or> (\<not> map_has bals k \<and> first_as_sender ts k)) \<and>
    (\<forall>k. map_has nons' k \<longrightarrow> map_get nons' k = nonce_of L db k)"
  using assms
proof (induction ts arbitrary: bals nons)
  case (Cons t ts)
  define b1 where "b1 = (if map_has bals (tx_From t) then bals
    else AList.update (tx_From t) (balance_of L db (tx_From t)) bals)"
  define n1 where "n1 = (if map_has bals (tx_From t) then nons
    else AList.update (tx_From t) (nonce_of L db (tx_From t)) nons)"
  define b2 where "b2 = (if map_has b1 (tx_To t) then b1
    else AList.update (tx_To t) (balance_of L db (tx_To t)) b1)"
  have "load_accounts L db ts b2 n1 = (bals', nons')"
    using Cons.prems(1) by (auto simp: b1_def n1_def b2_def balance_of_def nonce_of_def split: if_splits)
  moreover have "map_get n1 k = nonce_of L db k" if "map_has n1 k" for k
    using that Cons.prems(2) by (auto simp: n1_def split: if_splits)
  moreover have "distinct (map fst n1)" using Cons.prems(3) by (simp add: n1_def distinct_update)
  moreover have "map_has n1 k \<longleftrightarrow> map_has nons k \<or> (k = tx_From t \<and> \<not> map_has bals k)" for k
    by (auto simp: n1_def)
  moreover have "map_has b2 k \<longleftrightarrow> map_has bals k \<or> k = tx_From t \<or> k = tx_To t" for k
    by (auto simp: b1_def b2_def)
  ultimately show ?case using Cons.IH [of b2 n1] by auto
qed simp

text \<open>The transaction loop.\<close>

lemma apply_txs_refines:
  assumes "apply_txs ts bals nons fee = (bals', nons', fee')"
    and "\<And>k. k \<in> parties ts \<Longrightarrow> map_has bals k" and "distinct (map fst bals)" and "distinct (map fst nons)"
  shows "overlay bals' f = spec_txs (overlay bals f) ts \<and> fee' = fee + fees ts \<and>
    distinct (map fst bals') \<and> distinct (map fst nons') \<and>
    (\<forall>a. map_get nons' a = map_get nons a + of_nat (sent (overlay bals f) ts a)) \<and>
    (\<forall>a. map_has nons' a \<longleftrightarrow> map_has nons a \<or> 0 < sent (overlay bals f) ts a)"
  using assms
proof (induction ts arbitrary: bals nons fee)
  case (Cons t ts)
  have from_get: "map_get bals (tx_From t) = overlay bals f (tx_From t)"
    using Cons.prems(2) by (intro overlay_has) (simp add: parties_def)
  show ?case
  proof (cases "funded (overlay bals f) t")
    case True
    define b1 where "b1 = AList.update (tx_From t) (map_get bals (tx_From t) - (tx_Amount t + tx_Fee t)) bals"
    define n1 where "n1 = AList.update (tx_From t) (map_get nons (tx_From t) + 1) nons"
    define b2 where "b2 = AList.update (tx_To t) (map_get b1 (tx_To t) + tx_Amount t) b1"
    have run: "apply_txs ts b2 n1 (fee + tx_Fee t) = (bals', nons', fee')"
      using Cons.prems(1) True from_get by (simp add: funded_def b1_def n1_def b2_def Let_def)
    have "map_has b1 (tx_To t)" using Cons.prems(2) by (simp add: b1_def parties_def)
    then have to_get: "map_get b1 (tx_To t) = overlay b1 f (tx_To t)" by (rule overlay_has)
    have "overlay b2 f = spec_tx (overlay bals f) t"
      using True from_get to_get by (simp add: b2_def spec_tx_def b1_def Let_def)
    moreover have "map_has b2 k" if "k \<in> parties ts" for k
      using Cons.prems(2) that by (simp add: b2_def b1_def parties_def)
    moreover have "distinct (map fst b2)" and "distinct (map fst n1)"
      using Cons.prems(3,4) by (simp_all add: b2_def b1_def n1_def distinct_update)
    ultimately show ?thesis
      using Cons.IH [OF run] True by (auto simp: fees_def n1_def add.assoc)
  next
    case False
    then have run: "apply_txs ts bals nons (fee + tx_Fee t) = (bals', nons', fee')"
      using Cons.prems(1) from_get by (simp add: funded_def Let_def)
    have "spec_tx (overlay bals f) t = overlay bals f" using False by (simp add: spec_tx_def)
    then show ?thesis
      using Cons.IH [OF run] Cons.prems(2-4) False by (auto simp: fees_def parties_def add.assoc)
  qed
qed (simp add: fees_def)

lemma credit_producer_refines:
  assumes "distinct (map fst bals)"
  shows "overlay (credit_producer L db v fee bals) (balance_of L db) =
      (overlay bals (balance_of L db))(v := overlay bals (balance_of L db) v + fee) \<and>
    distinct (map fst (credit_producer L db v fee bals))"
proof (cases "fee > 0")
  case True
  define b1 where "b1 = (if map_has bals v then bals else AList.update v (balance_of L db v) bals)"
  have c: "credit_producer L db v fee bals = AList.update v (map_get b1 v + fee) b1"
    using True by (simp add: credit_producer_def b1_def balance_of_def)
  have o: "overlay b1 (balance_of L db) = overlay bals (balance_of L db)"
    by (rule ext) (simp add: b1_def overlay_def)
  have "map_get b1 v = overlay b1 (balance_of L db) v" by (rule overlay_has) (simp add: b1_def)
  with c o show ?thesis using assms by (simp add: b1_def distinct_update)
next
  case False
  then have "fee = 0" using word_gt_0 by blast
  then show ?thesis using assms by (simp add: credit_producer_def)
qed

section \<open>Reading after a batch\<close>

lemma leveldb_okD:
  assumes "leveldb_ok L"
  shows leveldb_no_error: "ldb_Get L db k \<noteq> GetError"
    and leveldb_write: "ldb_Write L db ops = (db', None) \<Longrightarrow> ldb_Get L db' k = batch_effect ops k (ldb_Get L db k)"
    and leveldb_failed_write: "ldb_Write L db ops = (db', Some e) \<Longrightarrow> ldb_Get L db' k = ldb_Get L db k"
    and leveldb_keys: "k \<in> set (ldb_Keys L db) \<longleftrightarrow> (\<exists>v. ldb_Get L db k = Found v)"
  using assms unfolding leveldb_ok_def by blast+

text \<open>How each accessor reads a lookup result.\<close>

definition read_u64 :: "get_result \<Rightarrow> u64" where
  "read_u64 r = (case r of Found v \<Rightarrow> if length v < 8 then 0 else BigEndian_Uint64 v | _ \<Rightarrow> 0)"

lemma account_reads:
  "balance_of L db a = read_u64 (ldb_Get L db (balanceKey a))"
  "nonce_of L db a = read_u64 (ldb_Get L db (nonceKey a))"
  "stake_of L db a = read_u64 (ldb_Get L db (validatorStakeKey a))"
  by (simp_all add: balance_of_def nonce_of_def stake_of_def getBalanceLocked_def getNonceLocked_def
      getValidatorStakeLocked_def read_u64_def split: get_result.split)

lemma GetBalance_eq: "leveldb_ok L \<Longrightarrow> GetBalance L s a = (balance_of L (st_db s) a, None)"
  using leveldb_no_error [of L "st_db s" "balanceKey a"]
  by (simp add: GetBalance_def balance_of_def getBalanceLocked_def split: get_result.split)

lemma GetNonce_eq: "leveldb_ok L \<Longrightarrow> GetNonce L s a = (nonce_of L (st_db s) a, None)"
  using leveldb_no_error [of L "st_db s" "nonceKey a"]
  by (simp add: GetNonce_def nonce_of_def getNonceLocked_def split: get_result.split)

lemma read_u64_put [simp]: "read_u64 (Found (BigEndian_PutUint64 v)) = v"
  by (simp add: read_u64_def BigEndian_Uint64_Put)

lemma read_account_batch:
  assumes "distinct (map fst bals)" and "distinct (map fst nons)"
  defines "batch \<equiv> nonce_puts nons (balance_puts bals [])"
  shows "read_u64 (batch_effect batch (balanceKey a) r) = overlay bals (\<lambda>_. read_u64 r) a"
    and "read_u64 (batch_effect batch (nonceKey a) r) = overlay nons (\<lambda>_. read_u64 r) a"
    and "batch_effect batch (validatorStakeKey a) r = r"
    and "batch_effect batch keyValidatorList r = r"
proof -
  have b: "batch = balance_col.puts bals @ nonce_col.puts nons @ []"
    by (simp add: batch_def balance_puts_eq nonce_puts_eq)
  show "read_u64 (batch_effect batch (balanceKey a) r) = overlay bals (\<lambda>_. read_u64 r) a"
    unfolding b balance_col.batch_effect_puts [OF assms(1)]
    by (subst nonce_col.batch_effect_other) (simp_all add: overlay_map_of split: option.split)
  show "read_u64 (batch_effect batch (nonceKey a) r) = overlay nons (\<lambda>_. read_u64 r) a"
    unfolding b balance_col.batch_effect_other [of "nonceKey a", simplified] nonce_col.batch_effect_puts [OF assms(2)]
    by (simp add: overlay_map_of split: option.split)
  show "batch_effect batch (validatorStakeKey a) r = r" and "batch_effect batch keyValidatorList r = r"
    unfolding b by (simp_all add: balance_col.batch_effect_other nonce_col.batch_effect_other del: append_Nil2)
qed

section \<open>ApplyBlock\<close>

lemma applyBlockLocked_accounts:
  assumes "leveldb_ok L" and "applyBlockLocked L db b = (db', None)"
  shows "balance_of L db' = spec_block (balance_of L db) b"
    and "nonce_of L db' = spec_nonce (balance_of L db) (nonce_of L db) (blk_Transactions b)"
    and "stake_of L db' = stake_of L db"
    and "ldb_Get L db' keyValidatorList = ldb_Get L db keyValidatorList"
proof -
  let ?ts = "blk_Transactions b" and ?f = "balance_of L db"
  obtain b0 n0 where load: "load_accounts L db ?ts [] [] = (b0, n0)" by (cases "load_accounts L db ?ts [] []")
  obtain b1 n1 fee where txs: "apply_txs ?ts b0 n0 0 = (b1, n1, fee)" by (cases "apply_txs ?ts b0 n0 0")
  define b2 where "b2 = credit_producer L db (blk_ValidatorAddress b) fee b1"
  note lb = load_accounts_balances [OF load, simplified] and ln = load_accounts_nonces [OF load, simplified]
  have parts: "overlay b1 ?f = spec_txs ?f ?ts" "fee = fees ?ts" "distinct (map fst b1)" "distinct (map fst n1)"
    "\<And>a. map_get n1 a = map_get n0 a + of_nat (sent ?f ?ts a)"
    "\<And>a. map_has n1 a \<longleftrightarrow> map_has n0 a \<or> 0 < sent ?f ?ts a"
    using apply_txs_refines [OF txs, of ?f] lb ln by auto
  have cred: "overlay b2 ?f = spec_block ?f b" "distinct (map fst b2)"
    using credit_producer_refines [OF parts(3), of L db "blk_ValidatorAddress b" fee] parts(1,2)
    by (simp_all add: b2_def spec_block_def Let_def)
  have nonces: "overlay n1 (nonce_of L db) = spec_nonce ?f (nonce_of L db) ?ts"
  proof
    fix a
    have "map_get n0 a = (if first_as_sender ?ts a then nonce_of L db a else 0)"
      using ln map_get_absent [of n0 a] by auto
    then show "overlay n1 (nonce_of L db) a = spec_nonce ?f (nonce_of L db) ?ts a"
      using parts(5,6) [of a] ln by (auto simp: overlay_def spec_nonce_def Let_def)
  qed
  have "ldb_Write L db (nonce_puts n1 (balance_puts b2 [])) = (db', None)"
    using assms(2) by (simp add: applyBlockLocked_def load txs b2_def)
  note get = leveldb_write [OF assms(1) this]
  note read = read_account_batch [OF cred(2) parts(4)]
  show "balance_of L db' = spec_block ?f b"
    unfolding cred(1) [symmetric] by (rule ext) (simp add: account_reads get read overlay_def)
  show "nonce_of L db' = spec_nonce ?f (nonce_of L db) ?ts"
    unfolding nonces [symmetric] by (rule ext) (simp add: account_reads get read overlay_def)
  show "stake_of L db' = stake_of L db" by (simp add: fun_eq_iff account_reads get read)
  show "ldb_Get L db' keyValidatorList = ldb_Get L db keyValidatorList" by (simp add: get read)
qed

lemma ApplyBlock_locked:
  "ApplyBlock L s b = (case applyBlockLocked L (st_db s) b of (db, err) \<Rightarrow> (s\<lparr>st_db := db\<rparr>, err))"
  by (simp add: ApplyBlock_def applyBlockLocked_def split: prod.split)

lemma ApplyGenesis_locked:
  "ApplyGenesis L s al vs =
     (case applyGenesisLocked L (st_cfg s) (st_db s) al vs of (db, err) \<Rightarrow> (s\<lparr>st_db := db\<rparr>, err))"
  by (simp add: ApplyGenesis_def applyGenesisLocked_def Let_def split: prod.split)

lemma applyBlockLocked_failed:
  assumes "leveldb_ok L" and "applyBlockLocked L db b = (db', Some e)"
  shows "ldb_Get L db' k = ldb_Get L db k"
  using assms leveldb_failed_write [OF assms(1)]
  by (auto simp: applyBlockLocked_def split: prod.splits)

section \<open>Conservation of the supply\<close>

text \<open>The supply held by a finite set of accounts, as a natural number.\<close>

definition supply_of :: "address set \<Rightarrow> (address \<Rightarrow> u64) \<Rightarrow> nat" where
  "supply_of A bal = (\<Sum>a\<in>A. unat (bal a))"

definition fee_total :: "Transaction list \<Rightarrow> nat" where
  "fee_total ts = sum_list (map (\<lambda>t. unat (tx_Fee t)) ts)"

definition no_overflow :: "Transaction \<Rightarrow> bool" where
  "no_overflow t \<longleftrightarrow> unat (tx_Amount t) + unat (tx_Fee t) < 2 ^ 64"

lemma sum_fun_upd:
  fixes g :: "'a \<Rightarrow> 'b :: ab_group_add"
  assumes "finite A" and "k \<in> A"
  shows "sum (g(k := v)) A = sum g A - g k + v"
proof -
  have "sum (g(k := v)) A = v + sum (g(k := v)) (A - {k})"
    using sum.remove [OF assms, of "g(k := v)"] by simp
  also have "sum (g(k := v)) (A - {k}) = sum g (A - {k})" by (rule sum.cong) auto
  also have "\<dots> = sum g A - g k" using sum.remove [OF assms, of g] by simp
  finally show ?thesis by simp
qed

lemma supply_fun_upd:
  assumes "finite A" and "k \<in> A"
  shows "supply_of A (bal(k := v)) + unat (bal k) = supply_of A bal + unat v"
proof -
  have "supply_of A (bal(k := v)) = unat v + (\<Sum>a\<in>A - {k}. unat ((bal(k := v)) a))"
    unfolding supply_of_def using sum.remove [OF assms, of "\<lambda>a. unat ((bal(k := v)) a)"] by simp
  also have "(\<Sum>a\<in>A - {k}. unat ((bal(k := v)) a)) = (\<Sum>a\<in>A - {k}. unat (bal a))" by (rule sum.cong) auto
  finally show ?thesis
    unfolding supply_of_def using sum.remove [OF assms, of "\<lambda>a. unat (bal a)"] by simp
qed

lemma supply_member: "finite A \<Longrightarrow> k \<in> A \<Longrightarrow> unat (bal k) \<le> supply_of A bal"
  unfolding supply_of_def by (rule member_le_sum) auto

text \<open>In 64-bit arithmetic no hypothesis on the amounts is needed: a block adds exactly the fees of the
  transactions it skips.\<close>

lemma sum_spec_tx:
  assumes "finite A" and "tx_From t \<in> A" and "tx_To t \<in> A"
  shows "(\<Sum>a\<in>A. spec_tx bal t a) + (if funded bal t then tx_Fee t else 0) = (\<Sum>a\<in>A. bal a)"
  unfolding spec_tx_def Let_def using assms
  by (auto simp del: fun_upd_apply simp add: sum_fun_upd)

lemma sum_spec_txs:
  assumes "finite A" and "parties ts \<subseteq> A"
  shows "(\<Sum>a\<in>A. spec_txs bal ts a) + fees ts = (\<Sum>a\<in>A. bal a) + fees (skipped bal ts)"
  using assms(2)
proof (induction ts arbitrary: bal)
  case (Cons t ts)
  have "tx_From t \<in> A" and "tx_To t \<in> A" and "parties ts \<subseteq> A"
    using Cons.prems by (auto simp: parties_def)
  then show ?case
    using Cons.IH [of "spec_tx bal t"] sum_spec_tx [OF assms(1), of t bal]
    by (simp add: fees_def algebra_simps split: if_splits)
qed (simp add: fees_def)

lemma sum_spec_block:
  assumes "finite A" and "parties (blk_Transactions b) \<subseteq> A" and "blk_ValidatorAddress b \<in> A"
  shows "(\<Sum>a\<in>A. spec_block bal b a) = (\<Sum>a\<in>A. bal a) + fees (skipped bal (blk_Transactions b))"
  using sum_spec_txs [OF assms(1,2), of bal] assms(1,3)
  unfolding spec_block_def Let_def by (simp add: sum_fun_upd del: fun_upd_apply)

text \<open>As natural numbers the same holds as long as nothing wraps.\<close>

lemma supply_spec_tx:
  assumes "finite A" and "tx_From t \<in> A" and "tx_To t \<in> A" and "no_overflow t" and "supply_of A bal < 2 ^ 64"
  shows "supply_of A (spec_tx bal t) + (if funded bal t then unat (tx_Fee t) else 0) = supply_of A bal"
proof (cases "funded bal t")
  case True
  let ?f = "tx_From t" and ?t = "tx_To t"
  define total where "total = tx_Amount t + tx_Fee t"
  define b1 where "b1 = bal(?f := bal ?f - total)"
  have total: "unat total = unat (tx_Amount t) + unat (tx_Fee t)"
    using assms(4) by (simp add: total_def no_overflow_def unat_word_ariths)
  have le: "total \<le> bal ?f" using True by (simp add: funded_def total_def not_less)
  have s1: "supply_of A b1 + unat total = supply_of A bal"
    using supply_fun_upd [OF assms(1,2), of bal "bal ?f - total"] le
    by (simp add: b1_def unat_sub word_le_nat_alt)
  have "unat (b1 ?t) \<le> supply_of A b1" by (rule supply_member [OF assms(1,3)])
  then have u: "unat (b1 ?t + tx_Amount t) = unat (b1 ?t) + unat (tx_Amount t)"
    using s1 total assms(5) by (simp add: unat_word_ariths)
  have "spec_tx bal t = b1(?t := b1 ?t + tx_Amount t)"
    using True by (simp add: spec_tx_def b1_def total_def Let_def)
  then have "supply_of A (spec_tx bal t) = supply_of A b1 + unat (tx_Amount t)"
    using supply_fun_upd [OF assms(1,3), of b1 "b1 ?t + tx_Amount t"] u by simp
  then show ?thesis using s1 total True by simp
qed (simp add: spec_tx_def)

lemma supply_spec_txs:
  assumes "finite A" and "parties ts \<subseteq> A" and "list_all no_overflow ts" and "supply_of A bal < 2 ^ 64"
  shows "supply_of A (spec_txs bal ts) + fee_total ts = supply_of A bal + fee_total (skipped bal ts)"
  using assms(2-4)
proof (induction ts arbitrary: bal)
  case (Cons t ts)
  have "tx_From t \<in> A" and "tx_To t \<in> A" and "parties ts \<subseteq> A"
    using Cons.prems(1) by (auto simp: parties_def)
  then have "supply_of A (spec_tx bal t) + (if funded bal t then unat (tx_Fee t) else 0) = supply_of A bal"
    using supply_spec_tx [OF assms(1)] Cons.prems(2,3) by simp
  then show ?case
    using Cons.IH [of "spec_tx bal t"] Cons.prems(2,3) \<open>parties ts \<subseteq> A\<close>
    by (simp add: fee_total_def split: if_splits)
qed (simp add: fee_total_def)

lemma unat_fees: "fee_total ts < 2 ^ 64 \<Longrightarrow> unat (fees ts) = fee_total ts"
  by (induction ts) (auto simp: fees_def fee_total_def unat_word_ariths)

lemma supply_spec_block:
  assumes "finite A" and "parties (blk_Transactions b) \<subseteq> A" and "blk_ValidatorAddress b \<in> A"
    and "list_all no_overflow (blk_Transactions b)"
    and "supply_of A bal + fee_total (skipped bal (blk_Transactions b)) < 2 ^ 64"
  shows "supply_of A (spec_block bal b) = supply_of A bal + fee_total (skipped bal (blk_Transactions b))"
proof -
  let ?ts = "blk_Transactions b" and ?v = "blk_ValidatorAddress b"
  define b1 where "b1 = spec_txs bal ?ts"
  have s: "supply_of A b1 + fee_total ?ts = supply_of A bal + fee_total (skipped bal ?ts)"
    using supply_spec_txs [OF assms(1,2,4)] assms(5) by (simp add: b1_def)
  then have f: "unat (fees ?ts) = fee_total ?ts" using assms(5) by (intro unat_fees) simp
  have "unat (b1 ?v) \<le> supply_of A b1" by (rule supply_member [OF assms(1,3)])
  then have u: "unat (b1 ?v + fees ?ts) = unat (b1 ?v) + fee_total ?ts"
    using s f assms(5) by (simp add: unat_word_ariths)
  have "spec_block bal b = b1(?v := b1 ?v + fees ?ts)" by (simp add: spec_block_def b1_def Let_def)
  then show ?thesis using supply_fun_upd [OF assms(1,3), of b1 "b1 ?v + fees ?ts"] u s by simp
qed

end
