(* ===== verification/State_Genesis.thy ===== *)
theory State_Genesis
  imports State_Laws
begin

text \<open>
  Genesis, slashing and replay: what the database holds after \<^verbatim>\<open>ApplyGenesis\<close>, how
  \<^verbatim>\<open>SlashValidator\<close> changes the validator set, and that \<^verbatim>\<open>ResetAndReplay\<close> rebuilds
  the ledger from the genesis data and the blocks alone.
\<close>

section \<open>The stored validator list\<close>

lemma wf_string_list [simp]: "wf_json (string_list_json xs)"
  by (simp add: string_list_json_def)

lemma dec_string_list_json: "dec_string_list (string_list_json xs) [] = Some xs"
  unfolding dec_string_list_def string_list_json_def by (rule dec_enc_list) (simp add: dec_string_def)

interpretation validator_list: codec_pair string_list_json "\<lambda>j. dec_string_list j []" "\<lambda>_. True"
    json_Marshal json_Unmarshal wf_json
  by unfold_locales (simp_all add: dec_string_list_json)

definition stored_list :: "string list \<Rightarrow> byte list" where
  "stored_list xs = bytes (json_Marshal (string_list_json xs))"

definition read_list :: "byte list \<Rightarrow> string list option" where
  "read_list v = Option.bind (json_Unmarshal (str v)) (\<lambda>j. dec_string_list j [])"

lemma read_stored_list [simp, roundtrip_simps]: "read_list (stored_list xs) = Some xs"
  using validator_list.pair.dec_enc [of xs] by (simp add: read_list_def stored_list_def str_bytes)

lemma stored_list_nonempty [simp]: "stored_list xs \<noteq> []"
proof
  assume "stored_list xs = []"
  then have "read_list [] = Some xs" using read_stored_list [of xs] by simp
  then show False by (simp add: read_list_def str_def json_Unmarshal_def parse_value.simps(2) skip_ws_def)
qed

section \<open>Genesis\<close>

definition decoded :: "GenesisAllocation \<Rightarrow> (address \<times> u64) list" where
  "decoded al = concat (map (\<lambda>(h, v). case AddressFromHex h of None \<Rightarrow> [] | Some a \<Rightarrow> [(a, v)]) al)"

text \<open>The validators genesis accepts: a readable address and at least the minimum stake.\<close>

definition accepted :: "ChainConfig \<Rightarrow> ValidatorGenesis list \<Rightarrow> ValidatorGenesis list" where
  "accepted cfg vs = filter (\<lambda>v. AddressFromHex (vg_Address v) \<noteq> None \<and> \<not> vg_Stake v < cfg_MinStake cfg) vs"

definition parsed :: "ValidatorGenesis list \<Rightarrow> (address \<times> u64) list" where
  "parsed vs = map (\<lambda>v. (the (AddressFromHex (vg_Address v)), vg_Stake v)) vs"

definition genesis_balances :: "GenesisAllocation \<Rightarrow> address \<Rightarrow> u64" where
  "genesis_balances al a = (case map_of (rev (decoded al)) a of Some v \<Rightarrow> v | None \<Rightarrow> 0)"

definition account_puts :: "(address \<times> u64) list \<Rightarrow> batch_op list" where
  "account_puts m = concat (map (\<lambda>(a, v).
     [Put (balanceKey a) (BigEndian_PutUint64 v), Put (nonceKey a) (BigEndian_PutUint64 0)]) m)"

lemma genesis_accounts_eq: "genesis_accounts al batch = batch @ account_puts (decoded al)"
  by (induction al batch rule: genesis_accounts.induct)
    (simp_all add: decoded_def account_puts_def setBalance_def setNonce_def split: option.split)

lemma genesis_validators_eq:
  "genesis_validators cfg vs batch addrs =
     (batch @ stake_col.puts (parsed (accepted cfg vs)), addrs @ map vg_Address (accepted cfg vs))"
  by (induction cfg vs batch addrs rule: genesis_validators.induct)
    (auto simp: accepted_def parsed_def setValidatorStake_def stake_col.puts_def split: option.split)

lemma genesis_batch:
  "applyGenesisLocked L cfg db al vs =
     ldb_Write L db (account_puts (decoded al) @ stake_col.puts (parsed (accepted cfg vs)) @
       (if accepted cfg vs = [] then [] else [Put keyValidatorList (stored_list (map vg_Address (accepted cfg vs)))]))"
proof -
  have "accepted cfg vs = []" if "vs = []" using that by (simp add: accepted_def)
  then show ?thesis
    by (cases "vs = []")
      (auto simp: applyGenesisLocked_def genesis_accounts_eq genesis_validators_eq stored_list_def parsed_def
        stake_col.puts_def Let_def)
qed

lemma account_puts_effect:
  "batch_effect (account_puts m @ ops) (balanceKey a) r =
     batch_effect ops (balanceKey a) (case map_of (rev m) a of Some v \<Rightarrow> Found (BigEndian_PutUint64 v) | None \<Rightarrow> r)"
  "batch_effect (account_puts m @ ops) (nonceKey a) r =
     batch_effect ops (nonceKey a) (if a \<in> fst ` set m then Found (BigEndian_PutUint64 0) else r)"
  "batch_effect (account_puts m @ ops) (validatorStakeKey a) r = batch_effect ops (validatorStakeKey a) r"
  "batch_effect (account_puts m @ ops) keyValidatorList r = batch_effect ops keyValidatorList r"
proof -
  have n: "a \<in> fst ` set m \<longleftrightarrow> map_of m a \<noteq> None" by (simp add: map_of_eq_None_iff)
  show "batch_effect (account_puts m @ ops) (nonceKey a) r =
     batch_effect ops (nonceKey a) (if a \<in> fst ` set m then Found (BigEndian_PutUint64 0) else r)"
    unfolding n
    by (induction m arbitrary: r) (auto simp: account_puts_def nonce_col.key_inject simp del: not_None_eq)
  show "batch_effect (account_puts m @ ops) (balanceKey a) r =
     batch_effect ops (balanceKey a) (case map_of (rev m) a of Some v \<Rightarrow> Found (BigEndian_PutUint64 v) | None \<Rightarrow> r)"
    by (induction m arbitrary: r)
      (auto simp: account_puts_def balance_col.key_inject map_add_def split: option.split)
  show "batch_effect (account_puts m @ ops) (validatorStakeKey a) r = batch_effect ops (validatorStakeKey a) r"
    and "batch_effect (account_puts m @ ops) keyValidatorList r = batch_effect ops keyValidatorList r"
    by (induction m arbitrary: r) (auto simp: account_puts_def)
qed

lemma stake_puts_effect:
  "batch_effect (stake_col.puts m @ ops) (validatorStakeKey a) r =
     batch_effect ops (validatorStakeKey a) (case map_of (rev m) a of Some v \<Rightarrow> Found (BigEndian_PutUint64 v) | None \<Rightarrow> r)"
  by (induction m arbitrary: r) (auto simp: stake_col.puts_def stake_col.key_inject map_add_def split: option.split)

lemmas genesis_effects = account_puts_effect stake_puts_effect stake_col.batch_effect_other

lemma applyGenesis_accounts:
  assumes "leveldb_ok L" and "applyGenesisLocked L cfg db al vs = (db', None)"
  shows "balance_of L db' a = (case map_of (rev (decoded al)) a of Some v \<Rightarrow> v | None \<Rightarrow> balance_of L db a)"
    and "nonce_of L db' a = (if a \<in> fst ` set (decoded al) then 0 else nonce_of L db a)"
    and "stake_of L db' a = (case map_of (rev (parsed (accepted cfg vs))) a of Some v \<Rightarrow> v | None \<Rightarrow> stake_of L db a)"
    and "ldb_Get L db' keyValidatorList = (if accepted cfg vs = [] then ldb_Get L db keyValidatorList
           else Found (stored_list (map vg_Address (accepted cfg vs))))"
  using leveldb_write [OF assms(1) assms(2) [unfolded genesis_batch]]
  by (simp_all add: account_reads genesis_effects split: option.split)

section \<open>The validator set\<close>

lemma GetValidatorSet_found:
  "ldb_Get L (st_db s) keyValidatorList = Found v \<Longrightarrow> v \<noteq> [] \<Longrightarrow> read_list v = Some addrs \<Longrightarrow>
     GetValidatorSet L s = (collect_validators L (st_db s) addrs, None)"
  by (simp add: GetValidatorSet_def read_list_def)

definition listed :: "string list \<Rightarrow> address list" where
  "listed addrs = List.map_filter AddressFromHex addrs"

lemma collect_validators_eq:
  "collect_validators L db addrs =
     map (\<lambda>a. \<lparr>val_Address = a, val_Stake = stake_of L db a\<rparr>) (filter (\<lambda>a. stake_of L db a > 0) (listed addrs))"
  by (induction addrs)
    (auto simp: listed_def map_filter_simps stake_of_def Let_def split: option.split)

text \<open>After genesis the set is the accepted validators in genesis order, when no address occurs twice.\<close>

lemma listed_accepted: "listed (map vg_Address (accepted cfg vs)) = map fst (parsed (accepted cfg vs))"
  by (induction vs) (auto simp: listed_def accepted_def parsed_def map_filter_simps split: option.split)

lemma stored_validator_set:
  assumes list: "ldb_Get L (st_db s') keyValidatorList = Found (stored_list (map vg_Address (accepted cfg vs)))"
    and stakes: "\<And>a v. map_of (rev (parsed (accepted cfg vs))) a = Some v \<Longrightarrow> stake_of L (st_db s') a = v"
    and distinct: "distinct (map fst (parsed (accepted cfg vs)))" and stake: "0 < cfg_MinStake cfg"
  shows "GetValidatorSet L s' = (map (\<lambda>(a, v). \<lparr>val_Address = a, val_Stake = v\<rparr>) (parsed (accepted cfg vs)), None)"
proof -
  let ?m = "parsed (accepted cfg vs)"
  have st: "stake_of L (st_db s') a = v" if "(a, v) \<in> set ?m" for a v
    using that distinct by (intro stakes) (subst map_of_eq_Some_iff, simp_all flip: rev_map)
  have pos: "0 < v" if "(a, v) \<in> set ?m" for a v
    using that stake by (force simp: parsed_def accepted_def word_less_def not_less)
  have "filter (\<lambda>a. stake_of L (st_db s') a > 0) (map fst ?m) = map fst ?m"
    using st pos by (auto intro!: filter_True)
  moreover have "map (\<lambda>a. \<lparr>val_Address = a, val_Stake = stake_of L (st_db s') a\<rparr>) (map fst ?m) =
      map (\<lambda>(a, v). \<lparr>val_Address = a, val_Stake = v\<rparr>) ?m"
    using st by auto
  ultimately show ?thesis
    using GetValidatorSet_found [OF list] by (simp add: collect_validators_eq listed_accepted)
qed

lemma genesis_validator_set:
  assumes "leveldb_ok L" and "ApplyGenesis L s al vs = (s', None)" and "accepted (st_cfg s) vs \<noteq> []"
    and "distinct (map fst (parsed (accepted (st_cfg s) vs)))" and "0 < cfg_MinStake (st_cfg s)"
  shows "GetValidatorSet L s' =
    (map (\<lambda>(a, v). \<lparr>val_Address = a, val_Stake = v\<rparr>) (parsed (accepted (st_cfg s) vs)), None)"
proof -
  have run: "applyGenesisLocked L (st_cfg s) (st_db s) al vs = (st_db s', None)"
    using assms(2) by (auto simp: ApplyGenesis_locked split: prod.splits)
  note g = applyGenesis_accounts [OF assms(1) run]
  show ?thesis using g(3,4) assms(3-5) by (intro stored_validator_set) simp_all
qed

text \<open>A database that holds nothing.\<close>

definition db_empty :: "'db leveldb \<Rightarrow> 'db \<Rightarrow> bool" where
  "db_empty L db \<longleftrightarrow> (\<forall>k. ldb_Get L db k = NotFound)"

lemma db_empty_views:
  "db_empty L db \<Longrightarrow> balance_of L db = (\<lambda>_. 0) \<and> nonce_of L db = (\<lambda>_. 0) \<and> stake_of L db = (\<lambda>_. 0)"
  by (auto simp: db_empty_def account_reads read_u64_def)

lemma genesis_on_empty:
  assumes "leveldb_ok L" and "db_empty L db" and "applyGenesisLocked L cfg db al vs = (db', None)"
  shows "balance_of L db' = genesis_balances al" and "nonce_of L db' = (\<lambda>_. 0)"
    and "stake_of L db' = (\<lambda>a. case map_of (rev (parsed (accepted cfg vs))) a of Some v \<Rightarrow> v | None \<Rightarrow> 0)"
    and "ldb_Get L db' keyValidatorList = (if accepted cfg vs = [] then NotFound
           else Found (stored_list (map vg_Address (accepted cfg vs))))"
  using applyGenesis_accounts [OF assms(1,3)] db_empty_views [OF assms(2)] assms(2)
  by (auto simp: genesis_balances_def db_empty_def split: option.split)

text \<open>The order in which Go visits the allocation. Two keys may name one address (hex digits in either case);
  then the last one visited counts.\<close>

definition unambiguous :: "GenesisAllocation \<Rightarrow> bool" where
  "unambiguous al \<longleftrightarrow> (\<forall>(h, v) \<in> set al. \<forall>(h', v') \<in> set al.
     AddressFromHex h = AddressFromHex h' \<and> AddressFromHex h \<noteq> None \<longrightarrow> v = v')"

lemma set_decoded: "(a, v) \<in> set (decoded al) \<longleftrightarrow> (\<exists>h. (h, v) \<in> set al \<and> AddressFromHex h = Some a)"
  by (force simp: decoded_def split: option.splits)

lemma decoded_append [simp]: "decoded (al @ al') = decoded al @ decoded al'"
  by (simp add: decoded_def)

lemma map_of_functional:
  assumes "(k, v) \<in> set m" and "\<And>v'. (k, v') \<in> set m \<Longrightarrow> v' = v"
  shows "map_of m k = Some v"
  using assms map_of_SomeD [of m k] weak_map_of_SomeI [OF assms(1)] by blast

lemma genesis_balances_entry:
  assumes "unambiguous al" and "(h, v) \<in> set al" and "AddressFromHex h = Some a"
  shows "genesis_balances al a = v"
proof -
  have "v' = v" if "(a, v') \<in> set (rev (decoded al))" for v'
    using that assms unfolding unambiguous_def by (force simp: set_decoded)
  then have "map_of (rev (decoded al)) a = Some v"
    using assms(2,3) by (intro map_of_functional) (auto simp: set_decoded)
  then show ?thesis by (simp add: genesis_balances_def)
qed

lemma genesis_balances_none: "(\<And>h v. (h, v) \<in> set al \<Longrightarrow> AddressFromHex h \<noteq> Some a) \<Longrightarrow> genesis_balances al a = 0"
proof -
  assume no: "\<And>h v. (h, v) \<in> set al \<Longrightarrow> AddressFromHex h \<noteq> Some a"
  have "map_of (rev (decoded al)) a = None"
    using no by (auto simp: map_of_eq_None_iff set_decoded)
  then show ?thesis by (simp add: genesis_balances_def)
qed

lemma genesis_balances_last: "AddressFromHex h = Some a \<Longrightarrow> genesis_balances (al @ [(h, v)]) a = v"
  by (simp add: genesis_balances_def) (simp add: decoded_def)

lemma genesis_balances_order:
  assumes "unambiguous al" and "mset al' = mset al"
  shows "genesis_balances al' = genesis_balances al"
proof
  fix a
  have s: "set al' = set al" using assms(2) by (metis set_mset_mset)
  then have u: "unambiguous al'" using assms(1) by (simp add: unambiguous_def)
  show "genesis_balances al' a = genesis_balances al a"
  proof (cases "\<exists>h v. (h, v) \<in> set al \<and> AddressFromHex h = Some a")
    case True
    then show ?thesis using genesis_balances_entry [OF assms(1)] genesis_balances_entry [OF u] s by blast
  next
    case False
    then show ?thesis using genesis_balances_none [of al a] genesis_balances_none [of al' a] s by fastforce
  qed
qed

lemma genesis_balances_ambiguous:
  assumes "\<And>al'. mset al' = mset al \<Longrightarrow> genesis_balances al' = genesis_balances al"
  shows "unambiguous al"
proof -
  have last: "genesis_balances al a = v" if e: "(h, v) \<in> set al" "AddressFromHex h = Some a" for h v a
  proof -
    obtain xs ys where al: "al = xs @ (h, v) # ys" using split_list [OF e(1)] by blast
    have "genesis_balances ((xs @ ys) @ [(h, v)]) = genesis_balances al" unfolding al by (rule assms [unfolded al]) simp
    then show ?thesis using genesis_balances_last [OF e(2), of "xs @ ys" v] by simp
  qed
  have "v = v'" if e: "(h, v) \<in> set al" "(h', v') \<in> set al" "AddressFromHex h = AddressFromHex h'" "AddressFromHex h \<noteq> None" for h v h' v'
  proof -
    obtain a where "AddressFromHex h = Some a" "AddressFromHex h' = Some a" using e(3,4) by auto
    then show ?thesis using last [OF e(1)] last [OF e(2)] by simp
  qed
  then show ?thesis unfolding unambiguous_def by blast
qed

section \<open>Slashing\<close>

lemma filter_listed:
  "filter (\<lambda>a. stake a > (0 :: u64)) (listed addrs) =
     filter (\<lambda>a. stake a > 0) (listed (filter (\<lambda>h. h \<noteq> Address_Hex addr) addrs))"
  if "stake addr = 0" "length addr = AddressSize"
  using that by (induction addrs) (auto simp: listed_def map_filter_simps AddressFromHex_Hex split: option.split)

lemma collect_without:
  fixes f :: "address \<Rightarrow> u64" and addr :: address
  defines "g \<equiv> f(addr := 0)"
  shows "map (\<lambda>a. \<lparr>val_Address = a, val_Stake = g a\<rparr>) (filter (\<lambda>a. g a > 0) xs) =
    filter (\<lambda>v. val_Address v \<noteq> addr) (map (\<lambda>a. \<lparr>val_Address = a, val_Stake = f a\<rparr>) (filter (\<lambda>a. f a > 0) xs))"
  unfolding g_def by (induction xs) auto

lemma SlashValidator_effect:
  assumes "leveldb_ok L" and "SlashValidator L s addr = (s', None)"
    and "ldb_Get L (st_db s) keyValidatorList = Found v" and "read_list v = Some addrs"
  shows "stake_of L (st_db s') = (stake_of L (st_db s))(addr := 0)"
    and "ldb_Get L (st_db s') keyValidatorList =
      (let l = filter (\<lambda>h. h \<noteq> Address_Hex addr) addrs in if l = [] then NotFound else Found (stored_list l))"
    and "balance_of L (st_db s') = balance_of L (st_db s)" and "nonce_of L (st_db s') = nonce_of L (st_db s)"
proof -
  let ?l = "filter (\<lambda>h. h \<noteq> Address_Hex addr) addrs"
  have w: "ldb_Write L (st_db s) (Put (validatorStakeKey addr) (BigEndian_PutUint64 0) #
      [if ?l = [] then Delete keyValidatorList else Put keyValidatorList (stored_list ?l)]) = (st_db s', None)"
    using assms(2-4) by (auto simp: SlashValidator_def read_list_def setValidatorStake_def stored_list_def
        Let_def split: prod.splits if_splits)
  note get = leveldb_write [OF assms(1) w]
  show "stake_of L (st_db s') = (stake_of L (st_db s))(addr := 0)"
    by (auto simp: fun_eq_iff account_reads get stake_col.key_inject)
  show "ldb_Get L (st_db s') keyValidatorList = (let l = ?l in if l = [] then NotFound else Found (stored_list l))"
    by (simp add: get Let_def)
  show "balance_of L (st_db s') = balance_of L (st_db s)" and "nonce_of L (st_db s') = nonce_of L (st_db s)"
    by (auto simp: fun_eq_iff account_reads get)
qed

lemma SlashValidator_set:
  assumes "leveldb_ok L" and "SlashValidator L s addr = (s', None)" and "length addr = AddressSize"
  shows "fst (GetValidatorSet L s') = filter (\<lambda>v. val_Address v \<noteq> addr) (fst (GetValidatorSet L s))"
proof (cases "ldb_Get L (st_db s) keyValidatorList")
  case NotFound
  then show ?thesis using assms(2) by (simp add: SlashValidator_def GetValidatorSet_def)
next
  case GetError
  then show ?thesis using leveldb_no_error [OF assms(1)] by blast
next
  case (Found v)
  then obtain addrs where r: "read_list v = Some addrs"
    using assms(2) by (auto simp: SlashValidator_def read_list_def split: option.splits)
  have v: "v \<noteq> []"
    using r by (auto simp: read_list_def str_def json_Unmarshal_def parse_value.simps(2) skip_ws_def)
  note e = SlashValidator_effect [OF assms(1,2) Found r]
  let ?l = "filter (\<lambda>h. h \<noteq> Address_Hex addr) addrs"
  have before: "fst (GetValidatorSet L s) = collect_validators L (st_db s) addrs"
    using GetValidatorSet_found [OF Found v r] by simp
  have after: "fst (GetValidatorSet L s') = collect_validators L (st_db s') ?l"
  proof (cases "?l = []")
    case True
    then show ?thesis using e(2) by (simp add: GetValidatorSet_def Let_def)
  next
    case False
    then show ?thesis using GetValidatorSet_found [of L s' "stored_list ?l"] e(2) by (simp add: Let_def)
  qed
  have z: "stake_of L (st_db s') addr = 0" using e(1) by simp
  show ?thesis
    using filter_listed [of "stake_of L (st_db s')" addr addrs, OF z assms(3)]
      collect_without [of "stake_of L (st_db s)" addr "listed addrs"]
    unfolding before after collect_validators_eq e(1) by simp
qed

lemma SlashValidator_accounts:
  assumes "leveldb_ok L" and "SlashValidator L s addr = (s', None)"
  shows "balance_of L (st_db s') = balance_of L (st_db s)" and "nonce_of L (st_db s') = nonce_of L (st_db s)"
proof -
  have "balance_of L (st_db s') = balance_of L (st_db s) \<and> nonce_of L (st_db s') = nonce_of L (st_db s)"
  proof (cases "ldb_Get L (st_db s) keyValidatorList")
    case (Found v)
    then obtain addrs where "read_list v = Some addrs"
      using assms(2) by (auto simp: SlashValidator_def read_list_def split: option.splits)
    then show ?thesis using SlashValidator_effect(3,4) [OF assms Found] by simp
  qed (use assms(2) in \<open>simp_all add: SlashValidator_def\<close>)
  then show "balance_of L (st_db s') = balance_of L (st_db s)" and "nonce_of L (st_db s') = nonce_of L (st_db s)"
    by simp_all
qed

section \<open>Replay\<close>

lemma replay_blocks_accounts:
  assumes "leveldb_ok L" and "replay_blocks L db bs = (db', None)"
  shows "balance_of L db' = foldl spec_block (balance_of L db) bs"
    and "stake_of L db' = stake_of L db"
    and "ldb_Get L db' keyValidatorList = ldb_Get L db keyValidatorList"
  using assms(2)
proof (induction bs arbitrary: db)
  case (Cons b bs)
  {
    case 1
    then show ?case using Cons.IH applyBlockLocked_accounts(1) [OF assms(1)] by (auto split: prod.splits option.splits)
  next
    case 2
    then show ?case using Cons.IH applyBlockLocked_accounts(3) [OF assms(1)] by (auto split: prod.splits option.splits)
  next
    case 3
    then show ?case using Cons.IH applyBlockLocked_accounts(4) [OF assms(1)] by (auto split: prod.splits option.splits)
  }
qed simp_all

text \<open>Nonces along a replay depend on the balances too.\<close>

fun spec_replay :: "(address \<Rightarrow> u64) \<times> (address \<Rightarrow> u64) \<Rightarrow> Block list \<Rightarrow> (address \<Rightarrow> u64) \<times> (address \<Rightarrow> u64)" where
  "spec_replay st [] = st"
| "spec_replay (bal, non) (b # bs) = spec_replay (spec_block bal b, spec_nonce bal non (blk_Transactions b)) bs"

lemma replay_blocks_ledger:
  assumes "leveldb_ok L" and "replay_blocks L db bs = (db', None)"
  shows "(balance_of L db', nonce_of L db') = spec_replay (balance_of L db, nonce_of L db) bs"
  using assms(2)
proof (induction bs arbitrary: db)
  case (Cons b bs)
  then show ?case
    using applyBlockLocked_accounts(1,2) [OF assms(1)] by (auto split: prod.splits option.splits)
qed simp

lemma batch_effect_deletes:
  "batch_effect (map Delete ks) k r = (if k \<in> set ks then NotFound else r)"
  by (induction ks arbitrary: r) auto

lemma reset_clears:
  assumes "leveldb_ok L" and "ldb_Write L db (map Delete (ldb_Keys L db)) = (db', None)"
  shows "ldb_Get L db' k = NotFound"
  using leveldb_write [OF assms, of k] leveldb_keys [OF assms(1), of k db] leveldb_no_error [OF assms(1), of db k]
  by (cases "ldb_Get L db k") (auto simp: batch_effect_deletes)

lemma ResetAndReplay_cases:
  assumes "ResetAndReplay L s al vs bs = (s', None)"
  obtains db1 db2 where "ldb_Write L (st_db s) (map Delete (ldb_Keys L (st_db s))) = (db1, None)"
    and "applyGenesisLocked L (st_cfg s) db1 al vs = (db2, None)" and "replay_blocks L db2 bs = (st_db s', None)"
  using assms by (auto simp: ResetAndReplay_def split: prod.splits option.splits)

lemma ResetAndReplay_ledger:
  assumes "leveldb_ok L" and "ResetAndReplay L s al vs bs = (s', None)"
  shows "(balance_of L (st_db s'), nonce_of L (st_db s')) = spec_replay (genesis_balances al, \<lambda>_. 0) bs"
    and "stake_of L (st_db s') a = (case map_of (rev (parsed (accepted (st_cfg s) vs))) a of Some v \<Rightarrow> v | None \<Rightarrow> 0)"
    and "ldb_Get L (st_db s') keyValidatorList = (if accepted (st_cfg s) vs = [] then NotFound
           else Found (stored_list (map vg_Address (accepted (st_cfg s) vs))))"
proof -
  obtain db1 db2 where w: "ldb_Write L (st_db s) (map Delete (ldb_Keys L (st_db s))) = (db1, None)"
    and g: "applyGenesisLocked L (st_cfg s) db1 al vs = (db2, None)" and r: "replay_blocks L db2 bs = (st_db s', None)"
    using assms(2) by (rule ResetAndReplay_cases)
  have z: "balance_of L db1 a = 0" "nonce_of L db1 a = 0" "stake_of L db1 a = 0" for a
    by (simp_all add: account_reads reset_clears [OF assms(1) w] read_u64_def)
  note ga = applyGenesis_accounts [OF assms(1) g]
  have "balance_of L db2 = genesis_balances al" and "nonce_of L db2 = (\<lambda>_. 0)"
    by (auto simp: ga z genesis_balances_def split: option.split)
  then show "(balance_of L (st_db s'), nonce_of L (st_db s')) = spec_replay (genesis_balances al, \<lambda>_. 0) bs"
    using replay_blocks_ledger [OF assms(1) r] by simp
  show "stake_of L (st_db s') a = (case map_of (rev (parsed (accepted (st_cfg s) vs))) a of Some v \<Rightarrow> v | None \<Rightarrow> 0)"
    using replay_blocks_accounts(2) [OF assms(1) r] ga(3) z(3) by (simp split: option.split)
  show "ldb_Get L (st_db s') keyValidatorList = (if accepted (st_cfg s) vs = [] then NotFound
           else Found (stored_list (map vg_Address (accepted (st_cfg s) vs))))"
    using replay_blocks_accounts(3) [OF assms(1) r] ga(4) reset_clears [OF assms(1) w] by simp
qed

section \<open>Databases whose writes succeed\<close>

definition writes_ok :: "'db leveldb \<Rightarrow> bool" where
  "writes_ok L \<longleftrightarrow> (\<forall>db ops. snd (ldb_Write L db ops) = None)"

lemma writes_okE: "writes_ok L \<Longrightarrow> \<exists>db'. ldb_Write L db ops = (db', None)"
  unfolding writes_ok_def by (metis prod.collapse)

lemma mem_writes_ok: "writes_ok mem_leveldb"
  by (simp add: writes_ok_def mem_leveldb_def)

lemma applyGenesisLocked_ok: "writes_ok L \<Longrightarrow> \<exists>db'. applyGenesisLocked L cfg db al vs = (db', None)"
  unfolding genesis_batch by (rule writes_okE)

lemma applyBlockLocked_ok: "writes_ok L \<Longrightarrow> \<exists>db'. applyBlockLocked L db b = (db', None)"
  unfolding applyBlockLocked_def Let_def by (auto split: prod.split intro: writes_okE)

lemma ApplyBlock_ok: "writes_ok L \<Longrightarrow> \<exists>s. ApplyBlock L st b = (s, None)"
  using applyBlockLocked_ok [of L "st_db st" b] by (auto simp: ApplyBlock_locked)

lemma ApplyGenesis_ok: "writes_ok L \<Longrightarrow> \<exists>s. ApplyGenesis L st al vs = (s, None)"
  using applyGenesisLocked_ok [of L "st_cfg st" "st_db st" al vs] by (auto simp: ApplyGenesis_locked)

lemma replay_blocks_ok: "writes_ok L \<Longrightarrow> \<exists>db'. replay_blocks L db bs = (db', None)"
proof (induction bs arbitrary: db)
  case (Cons b bs)
  then show ?case using applyBlockLocked_ok [of L db b] by auto
qed simp

lemma ResetAndReplay_ok:
  assumes "writes_ok L"
  shows "\<exists>s'. ResetAndReplay L s al vs bs = (s', None)"
proof -
  obtain db1 where 1: "ldb_Write L (st_db s) (map Delete (ldb_Keys L (st_db s))) = (db1, None)"
    using writes_okE [OF assms] by blast
  obtain db2 where 2: "applyGenesisLocked L (st_cfg s) db1 al vs = (db2, None)"
    using applyGenesisLocked_ok [OF assms] by blast
  obtain db3 where "replay_blocks L db2 bs = (db3, None)" using replay_blocks_ok [OF assms] by blast
  with 1 2 show ?thesis by (simp add: ResetAndReplay_def)
qed

end
