(* ===== verification/Mempool.thy ===== *)
theory Mempool
  imports State_Genesis
begin

text \<open>
  Package \<^verbatim>\<open>mempool\<close> (\<^verbatim>\<open>src/mempool/mempool.go\<close>): the pool of pending transactions. The pool
  holds a pointer to the state; the model passes the current state (\<open>None\<close> for a nil pointer) to
  \<open>Mempool_Add\<close>. Each method runs under the pool mutex from start to end.
\<close>

datatype mempool_error = ErrMempoolFull | ErrInvalidSignature | ErrFeeTooLow | ErrBadNonce
  | ErrInsufficientBalance | ErrDuplicate | ErrState db_error

record Mempool =
  mp_txs :: "Transaction list"
  mp_max :: int

definition Mempool_New :: "int \<Rightarrow> Mempool" where
  "Mempool_New maxSize = \<lparr>mp_txs = [], mp_max = (if maxSize \<le> 0 then 10000 else maxSize)\<rparr>"

text \<open>The checks against the state, skipped when the state is nil.\<close>

definition state_check :: "'db leveldb \<Rightarrow> 'db State option \<Rightarrow> Transaction \<Rightarrow> mempool_error option" where
  "state_check L st tx = (case st of
     None \<Rightarrow> None
   | Some s \<Rightarrow>
       (case GetBalance L s (tx_From tx) of
          (bal, Some e) \<Rightarrow> Some (ErrState e)
        | (bal, None) \<Rightarrow>
            (case GetNonce L s (tx_From tx) of
               (nonce, Some e) \<Rightarrow> Some (ErrState e)
             | (nonce, None) \<Rightarrow>
                 if tx_Nonce tx \<noteq> nonce then Some ErrBadNonce
                 else if bal < tx_Amount tx + tx_Fee tx then Some ErrInsufficientBalance
                 else None)))"

fun has_hash :: "crypto_lib \<Rightarrow> hash \<Rightarrow> Transaction list \<Rightarrow> bool" where
  "has_hash cl h [] = False"
| "has_hash cl h (t # ts) = (if TxHash cl t = h then True else has_hash cl h ts)"

definition Mempool_Add ::
  "crypto_lib \<Rightarrow> 'db leveldb \<Rightarrow> 'db State option \<Rightarrow> Mempool \<Rightarrow> Transaction \<Rightarrow> Mempool \<times> mempool_error option" where
  "Mempool_Add cl L st m tx =
     (if int (length (mp_txs m)) \<ge> mp_max m then (m, Some ErrMempoolFull)
      else if \<not> VerifySignature cl tx then (m, Some ErrInvalidSignature)
      else if \<not> SatisfiesMinFee tx then (m, Some ErrFeeTooLow)
      else case state_check L st tx of
        Some e \<Rightarrow> (m, Some e)
      | None \<Rightarrow>
          if has_hash cl (TxHash cl tx) (mp_txs m) then (m, Some ErrDuplicate)
          else (m\<lparr>mp_txs := mp_txs m @ [tx]\<rparr>, None))"

definition Mempool_Pending :: "Mempool \<Rightarrow> int \<Rightarrow> Transaction list" where
  "Mempool_Pending m n =
     (let n = (if n \<le> 0 \<or> n > int (length (mp_txs m)) then int (length (mp_txs m)) else n)
      in take (nat n) (mp_txs m))"

definition Mempool_Remove :: "crypto_lib \<Rightarrow> Mempool \<Rightarrow> Transaction list \<Rightarrow> Mempool" where
  "Mempool_Remove cl m included =
     (if included = [] then m
      else (let hashes = map (TxHash cl) included
            in m\<lparr>mp_txs := filter (\<lambda>tx. TxHash cl tx \<notin> set hashes) (mp_txs m)\<rparr>))"

definition Mempool_Size :: "Mempool \<Rightarrow> nat" where
  "Mempool_Size m = length (mp_txs m)"

section \<open>The invariant of the pool\<close>

definition mempool_ok :: "crypto_lib \<Rightarrow> Mempool \<Rightarrow> bool" where
  "mempool_ok cl m \<longleftrightarrow> int (length (mp_txs m)) \<le> mp_max m \<and> 0 < mp_max m \<and>
     distinct (map (TxHash cl) (mp_txs m)) \<and>
     (\<forall>t \<in> set (mp_txs m). VerifySignature cl t \<and> SatisfiesMinFee t)"

datatype 'db pool_op = PoolAdd "'db State option" Transaction | PoolRemove "Transaction list"

fun pool_step :: "crypto_lib \<Rightarrow> 'db leveldb \<Rightarrow> 'db pool_op \<Rightarrow> Mempool \<Rightarrow> Mempool" where
  "pool_step cl L (PoolAdd st tx) m = fst (Mempool_Add cl L st m tx)"
| "pool_step cl L (PoolRemove txs) m = Mempool_Remove cl m txs"

lemma has_hash_iff: "has_hash cl h ts \<longleftrightarrow> h \<in> TxHash cl ` set ts"
  by (induction ts) auto

lemma Mempool_Add_cases:
  assumes "Mempool_Add cl L st m tx = (m', err)"
  obtains (rejected) e where "err = Some e" and "m' = m"
  | (added) "err = None" and "m' = m\<lparr>mp_txs := mp_txs m @ [tx]\<rparr>" and "int (length (mp_txs m)) < mp_max m"
      and "VerifySignature cl tx" and "SatisfiesMinFee tx" and "state_check L st tx = None"
      and "TxHash cl tx \<notin> TxHash cl ` set (mp_txs m)"
proof (cases "err = None")
  case True
  with assms show thesis
    by (intro added) (auto simp: Mempool_Add_def has_hash_iff split: if_splits option.splits)
next
  case False
  then obtain e where "err = Some e" by blast
  moreover have "m' = m" using assms False by (auto simp: Mempool_Add_def split: if_splits option.splits)
  ultimately show thesis by (rule rejected)
qed

lemma mempool_ok_New: "mempool_ok cl (Mempool_New n)"
  by (simp add: mempool_ok_def Mempool_New_def)

lemma mempool_ok_Add: "mempool_ok cl m \<Longrightarrow> mempool_ok cl (fst (Mempool_Add cl L st m tx))"
proof -
  assume ok: "mempool_ok cl m"
  obtain m' err where add: "Mempool_Add cl L st m tx = (m', err)" by (cases "Mempool_Add cl L st m tx")
  then have "mempool_ok cl m'" by (rule Mempool_Add_cases) (use ok in \<open>auto simp: mempool_ok_def\<close>)
  then show ?thesis using add by simp
qed

lemma mempool_ok_Remove: "mempool_ok cl m \<Longrightarrow> mempool_ok cl (Mempool_Remove cl m txs)"
proof -
  assume ok: "mempool_ok cl m"
  have "int (length (filter P (mp_txs m))) \<le> mp_max m" for P
    using ok length_filter_le [of P "mp_txs m"] unfolding mempool_ok_def by linarith
  then show ?thesis using ok by (auto simp: mempool_ok_def Mempool_Remove_def distinct_map_filter)
qed

interpretation pool: machine "pool_step cl L" "mempool_ok cl" for cl L
proof
  show "mempool_ok cl (pool_step cl L op s)" if "mempool_ok cl s" for op s
    using that by (cases op) (simp_all add: mempool_ok_Add mempool_ok_Remove)
qed

section \<open>Admission, removal and block building\<close>

lemma state_check_None_iff:
  assumes "leveldb_ok L"
  shows "state_check L (Some s) tx = None \<longleftrightarrow>
    tx_Nonce tx = nonce_of L (st_db s) (tx_From tx) \<and> funded (balance_of L (st_db s)) tx"
  by (simp add: state_check_def GetBalance_eq [OF assms] GetNonce_eq [OF assms] funded_def)

lemma Mempool_Pending_prefix: "Mempool_Pending m n = take (length (Mempool_Pending m n)) (mp_txs m)"
  by (auto simp: Mempool_Pending_def Let_def min_def)

lemma length_Mempool_Pending:
  "0 < n \<Longrightarrow> int (length (Mempool_Pending m n)) \<le> n"
  by (auto simp: Mempool_Pending_def Let_def)

lemma Remove_Pending:
  assumes "mempool_ok cl m"
  shows "mp_txs (Mempool_Remove cl m (Mempool_Pending m n)) = drop (length (Mempool_Pending m n)) (mp_txs m)"
proof -
  let ?k = "length (Mempool_Pending m n)" and ?ts = "mp_txs m"
  have split: "?ts = take ?k ?ts @ drop ?k ?ts" by simp
  have dist: "distinct (map (TxHash cl) (take ?k ?ts @ drop ?k ?ts))"
    using assms by (simp add: mempool_ok_def)
  then have disj: "TxHash cl ` set (take ?k ?ts) \<inter> TxHash cl ` set (drop ?k ?ts) = {}"
    by (simp only: map_append distinct_append set_map)
  have "filter (\<lambda>tx. TxHash cl tx \<notin> TxHash cl ` set (take ?k ?ts)) (take ?k ?ts @ drop ?k ?ts) = drop ?k ?ts"
    using disj unfolding filter_append by (auto intro!: filter_True simp: filter_empty_conv)
  then have "filter (\<lambda>tx. TxHash cl tx \<notin> TxHash cl ` set (take ?k ?ts)) ?ts = drop ?k ?ts" by simp
  then show ?thesis
    using Mempool_Pending_prefix [of m n] by (cases "Mempool_Pending m n = []") (auto simp: Mempool_Remove_def)
qed

end
