(* ===== verification/Consensus.thy ===== *)
theory Consensus
  imports State_Genesis
begin

text \<open>
  Package \<^verbatim>\<open>consensus\<close> (\<^verbatim>\<open>src/consensus/consensus.go\<close>): the ordered validator set and the
  round-robin choice of the block producer. A set is its list; the read-write mutex around the list
  is not modelled, since no method changes the list after construction.
\<close>

record SetValidator =
  sv_Address :: address
  sv_Stake :: u64

record ValidatorSet =
  set_list :: "SetValidator list"

fun genesis_list :: "ValidatorGenesis list \<Rightarrow> SetValidator list \<Rightarrow> SetValidator list" where
  "genesis_list [] acc = acc"
| "genesis_list (g # gs) acc =
     (case AddressFromHex (vg_Address g) of
        None \<Rightarrow> genesis_list gs acc
      | Some addr \<Rightarrow>
          if vg_Stake g < MinStake then genesis_list gs acc
          else genesis_list gs (acc @ [\<lparr>sv_Address = addr, sv_Stake = vg_Stake g\<rparr>]))"

definition NewSet :: "ValidatorGenesis list \<Rightarrow> ValidatorSet" where
  "NewSet genesis = \<lparr>set_list = genesis_list genesis []\<rparr>"

definition NewSetFromValidators :: "SetValidator list \<Rightarrow> ValidatorSet" where
  "NewSetFromValidators l = \<lparr>set_list = l\<rparr>"

definition ValidatorForHeight :: "ValidatorSet \<Rightarrow> u64 \<Rightarrow> address" where
  "ValidatorForHeight s height =
     (if length (set_list s) = 0 then zero_address
      else sv_Address (set_list s ! (unat height mod length (set_list s))))"

definition Set_Size :: "ValidatorSet \<Rightarrow> nat" where
  "Set_Size s = length (set_list s)"

definition Set_List :: "ValidatorSet \<Rightarrow> SetValidator list" where
  "Set_List s = set_list s"

definition VerifyBlockValidator :: "ValidatorSet \<Rightarrow> Block \<Rightarrow> bool" where
  "VerifyBlockValidator s b \<longleftrightarrow> ValidatorForHeight s (blk_Height b) = blk_ValidatorAddress b"

fun list_has_address :: "SetValidator list \<Rightarrow> address \<Rightarrow> bool" where
  "list_has_address [] addr = False"
| "list_has_address (v # l) addr = (if sv_Address v = addr then True else list_has_address l addr)"

definition IsValidator :: "ValidatorSet \<Rightarrow> address \<Rightarrow> bool" where
  "IsValidator s addr = list_has_address (set_list s) addr"

section \<open>The producer of a height\<close>

lemma list_has_address_iff: "list_has_address l a \<longleftrightarrow> a \<in> sv_Address ` set l"
  by (induction l) auto

lemma ValidatorForHeight_member:
  "set_list s \<noteq> [] \<Longrightarrow> IsValidator s (ValidatorForHeight s h)"
  by (simp add: IsValidator_def list_has_address_iff ValidatorForHeight_def)

text \<open>The contract the node relies on: every height has one producer, and it is a member.\<close>

locale leader_schedule =
  fixes leader :: "'h \<Rightarrow> 'a" and member :: "'a \<Rightarrow> bool" and accepts :: "'h \<Rightarrow> 'a \<Rightarrow> bool"
  assumes accepts_leader: "accepts h a \<longleftrightarrow> leader h = a"
    and leader_member: "member (leader h)"
begin

lemma unique_producer: "accepts h a \<Longrightarrow> accepts h b \<Longrightarrow> a = b"
  by (simp add: accepts_leader)

lemma producer_is_member: "accepts h a \<Longrightarrow> member a"
  using leader_member by (auto simp: accepts_leader)

end

text \<open>A set built from a non-empty list satisfies it; \<open>v # l\<close> is that list.\<close>

interpretation round_robin: leader_schedule
  "ValidatorForHeight (NewSetFromValidators (v # l))" "IsValidator (NewSetFromValidators (v # l))"
  "\<lambda>h a. VerifyBlockValidator (NewSetFromValidators (v # l)) (zero_block\<lparr>blk_Height := h, blk_ValidatorAddress := a\<rparr>)"
  for v l
  by unfold_locales
    (simp_all add: VerifyBlockValidator_def ValidatorForHeight_member NewSetFromValidators_def)

lemma map_nth_rotate: "xs \<noteq> [] \<Longrightarrow> map (\<lambda>i. xs ! ((m + i) mod length xs)) [0..<length xs] = rotate m xs"
  by (intro nth_equalityI) (simp_all add: nth_rotate add.commute)

lemma genesis_list_eq:
  "genesis_list gs acc = acc @ map (\<lambda>(a, v). \<lparr>sv_Address = a, sv_Stake = v\<rparr>)
     (parsed (filter (\<lambda>v. AddressFromHex (vg_Address v) \<noteq> None \<and> \<not> vg_Stake v < MinStake) gs))"
  by (induction gs acc rule: genesis_list.induct) (auto simp: parsed_def split: option.split)

end
