(* ===== verification/State_Typing.thy ===== *)
theory State_Typing
  imports State_Genesis
begin

text \<open>
  The layout of the state database: which keys exist and what is stored under them, and that every operation of
  \<^verbatim>\<open>src/state/state.go\<close> keeps it, also when a write fails.
\<close>

section \<open>Well-typed entries\<close>

text \<open>An integer column holds eight bytes under the key of an address; the validator list is a JSON list of at least one
  readable address.\<close>

definition readable_list :: "byte list \<Rightarrow> bool" where
  "readable_list v \<longleftrightarrow> (case read_list v of
     None \<Rightarrow> False | Some xs \<Rightarrow> xs \<noteq> [] \<and> list_all (\<lambda>x. AddressFromHex x \<noteq> None) xs)"

definition typed_entry :: "byte list \<Rightarrow> byte list \<Rightarrow> bool" where
  "typed_entry k v \<longleftrightarrow>
     (\<exists>a. length a = AddressSize \<and> k \<in> {balanceKey a, nonceKey a, validatorStakeKey a}) \<and> length v = 8 \<or>
     k = keyValidatorList \<and> readable_list v"

definition typed_db :: "'db leveldb \<Rightarrow> 'db \<Rightarrow> bool" where
  "typed_db L db \<longleftrightarrow> (\<forall>k v. ldb_Get L db k = Found v \<longrightarrow> typed_entry k v)"

fun typed_op :: "batch_op \<Rightarrow> bool" where
  "typed_op (Put k v) = typed_entry k v"
| "typed_op (Delete k) = True"

lemma typed_batch_effect:
  "list_all typed_op ops \<Longrightarrow> (\<And>v. r = Found v \<Longrightarrow> typed_entry k v) \<Longrightarrow> batch_effect ops k r = Found v \<Longrightarrow> typed_entry k v"
proof (induction ops k r rule: batch_effect.induct)
  case (2 k' v' ops k r)
  then show ?case by (auto split: if_splits)
next
  case (3 k' ops k r)
  then show ?case by (auto split: if_splits)
qed simp

lemma typed_write:
  assumes "leveldb_ok L" and "typed_db L db" and "list_all typed_op ops" and "ldb_Write L db ops = (db', e)"
  shows "typed_db L db'"
proof (cases e)
  case None
  then show ?thesis
    using leveldb_write [OF assms(1), of db ops db'] assms(2,4) typed_batch_effect [OF assms(3), of "ldb_Get L db k" k for k]
    unfolding typed_db_def by metis
next
  case (Some x)
  then have "ldb_Get L db' k = ldb_Get L db k" for k using assms(1,4) unfolding leveldb_ok_def by metis
  then show ?thesis using assms(2) by (simp add: typed_db_def)
qed

section \<open>The batches\<close>

text \<open>The columns: writing integers under the keys of addresses.\<close>

definition address_keys :: "(address \<times> u64) list \<Rightarrow> bool" where
  "address_keys m \<longleftrightarrow> (\<forall>a \<in> fst ` set m. length a = AddressSize)"

lemma typed_puts:
  assumes "address_keys m"
  shows "list_all typed_op (balance_col.puts m)" "list_all typed_op (nonce_col.puts m)" "list_all typed_op (stake_col.puts m)"
    "list_all typed_op (account_puts m)"
  using assms
  by (fastforce simp: list_all_iff address_keys_def balance_col.puts_def nonce_col.puts_def stake_col.puts_def account_puts_def
      typed_entry_def)+

lemma address_keys_simps [simp]:
  "address_keys []" "address_keys (AList.update a v m) \<longleftrightarrow> length a = AddressSize \<and> address_keys m"
  by (simp_all add: address_keys_def dom_update)

lemma load_accounts_keys:
  "load_accounts L db txs bal non = (bal', non') \<Longrightarrow> list_all wf_tx txs \<Longrightarrow> address_keys bal \<Longrightarrow> address_keys non \<Longrightarrow>
     address_keys bal' \<and> address_keys non'"
proof (induction L db txs bal non rule: load_accounts.induct)
  case (2 L db tx txs bal non)
  then show ?case by (simp add: wf_tx_def AddressSize_def Let_def split: if_splits)
qed simp

lemma apply_txs_keys:
  "apply_txs txs bal non tot = (bal', non', tot') \<Longrightarrow> list_all wf_tx txs \<Longrightarrow> address_keys bal \<Longrightarrow> address_keys non \<Longrightarrow>
     address_keys bal' \<and> address_keys non'"
proof (induction txs bal non tot rule: apply_txs.induct)
  case (2 tx txs bal non tot)
  then show ?case by (simp add: wf_tx_def AddressSize_def Let_def split: if_splits)
qed simp

lemma credit_producer_keys: "address_keys bal \<Longrightarrow> length a = AddressSize \<Longrightarrow> address_keys (credit_producer L db a tot bal)"
  by (simp add: credit_producer_def Let_def)

section \<open>The operations\<close>

lemma typed_block:
  assumes "leveldb_ok L" and "typed_db L db" and "wf_block b" and "applyBlockLocked L db b = (db', e)"
  shows "typed_db L db'"
proof -
  obtain bal non where l: "load_accounts L db (blk_Transactions b) [] [] = (bal, non)" by fastforce
  obtain bal' non' tot where a: "apply_txs (blk_Transactions b) bal non 0 = (bal', non', tot)" by (metis surj_pair)
  have "list_all wf_tx (blk_Transactions b)" "length (blk_ValidatorAddress b) = AddressSize"
    using assms(3) by (simp_all add: wf_block_def AddressSize_def)
  then have k: "address_keys (credit_producer L db (blk_ValidatorAddress b) tot bal')" "address_keys non'"
    using load_accounts_keys [OF l] apply_txs_keys [OF a] credit_producer_keys by auto
  let ?ops = "balance_col.puts (credit_producer L db (blk_ValidatorAddress b) tot bal') @ nonce_col.puts non'"
  have "list_all typed_op ?ops" using typed_puts [OF k(1)] typed_puts [OF k(2)] by simp
  moreover have "ldb_Write L db ?ops = (db', e)" using assms(4) by (simp add: applyBlockLocked_def l a nonce_puts_eq balance_puts_eq)
  ultimately show ?thesis by (rule typed_write [OF assms(1,2)])
qed

lemma address_keys_genesis: "address_keys (decoded al)" "address_keys (parsed (accepted cfg vs))"
  by (auto simp: address_keys_def decoded_def parsed_def accepted_def split: option.splits dest: AddressFromHex_length AddressFromHex_length [OF sym])

lemma typed_genesis:
  assumes "leveldb_ok L" and "typed_db L db" and "applyGenesisLocked L cfg db al vs = (db', e)"
  shows "typed_db L db'"
proof -
  have "typed_op (Put keyValidatorList (stored_list (map vg_Address (accepted cfg vs))))" if "accepted cfg vs \<noteq> []"
    using that by (simp add: typed_entry_def readable_list_def list_all_iff) (simp add: accepted_def)
  then have "list_all typed_op (account_puts (decoded al) @ stake_col.puts (parsed (accepted cfg vs)) @
      (if accepted cfg vs = [] then [] else [Put keyValidatorList (stored_list (map vg_Address (accepted cfg vs)))]))"
    using typed_puts [OF address_keys_genesis(1)] typed_puts [OF address_keys_genesis(2)] by simp
  then show ?thesis by (rule typed_write [OF assms(1,2)]) (use assms(3) in \<open>simp add: genesis_batch\<close>)
qed

lemma typed_replay:
  "leveldb_ok L \<Longrightarrow> typed_db L db \<Longrightarrow> list_all wf_block bs \<Longrightarrow> replay_blocks L db bs = (db', e) \<Longrightarrow> typed_db L db'"
  by (induction bs arbitrary: db) (auto split: prod.splits option.splits dest: typed_block)

lemma typed_slash:
  assumes "leveldb_ok L" and "typed_db L (st_db s)" and "length a = AddressSize"
  shows "typed_db L (st_db (fst (SlashValidator L s a)))"
proof (cases "\<exists>v xs. ldb_Get L (st_db s) keyValidatorList = Found v \<and> read_list v = Some xs")
  case True
  then obtain v xs where v: "ldb_Get L (st_db s) keyValidatorList = Found v" "read_list v = Some xs" by blast
  let ?new = "filter (\<lambda>x. x \<noteq> Address_Hex a) xs"
  have "typed_entry keyValidatorList v" using assms(2) v(1) by (simp add: typed_db_def)
  then have "list_all (\<lambda>x. AddressFromHex x \<noteq> None) ?new" using v(2) by (auto simp: typed_entry_def readable_list_def list_all_iff)
  then have "?new \<noteq> [] \<longrightarrow> typed_entry keyValidatorList (stored_list ?new)" by (simp add: typed_entry_def readable_list_def)
  moreover have "typed_entry (validatorStakeKey a) (BigEndian_PutUint64 0)" using assms(3) by (auto simp: typed_entry_def)
  ultimately have "list_all typed_op ([Put (validatorStakeKey a) (BigEndian_PutUint64 0)] @
      (if ?new \<noteq> [] then [Put keyValidatorList (stored_list ?new)] else [Delete keyValidatorList]))" by simp
  moreover obtain db' e where w: "ldb_Write L (st_db s) ([Put (validatorStakeKey a) (BigEndian_PutUint64 0)] @
      (if ?new \<noteq> [] then [Put keyValidatorList (stored_list ?new)] else [Delete keyValidatorList])) = (db', e)" by fastforce
  ultimately have "typed_db L db'" by (rule typed_write [OF assms(1,2)])
  moreover have "SlashValidator L s a = (s\<lparr>st_db := db'\<rparr>, e)"
    using v w by (auto simp: SlashValidator_def read_list_def setValidatorStake_def stored_list_def Let_def)
  ultimately show ?thesis by simp
next
  case False
  then show ?thesis
    using assms(2) by (auto simp: SlashValidator_def read_list_def split: get_result.splits option.splits)
qed

lemma typed_deletes: "list_all typed_op (map Delete ks)"
  by (simp add: list_all_iff)

lemma typed_reset:
  assumes "leveldb_ok L" and "typed_db L (st_db s)" and "list_all wf_block bs"
  shows "typed_db L (st_db (fst (ResetAndReplay L s al vs bs)))"
proof -
  obtain db1 e1 where 1: "ldb_Write L (st_db s) (map Delete (ldb_Keys L (st_db s))) = (db1, e1)" by fastforce
  obtain db2 e2 where 2: "applyGenesisLocked L (st_cfg s) db1 al vs = (db2, e2)" by fastforce
  obtain db3 e3 where 3: "replay_blocks L db2 bs = (db3, e3)" by fastforce
  have t: "typed_db L db1" by (rule typed_write [OF assms(1,2) typed_deletes 1])
  have t2: "typed_db L db2" by (rule typed_genesis [OF assms(1) t 2])
  have "typed_db L db3" by (rule typed_replay [OF assms(1) t2 assms(3) 3])
  then show ?thesis using t t2 by (cases e1; cases e2) (simp_all add: ResetAndReplay_def 1 2 3)
qed

section \<open>Sequences of operations\<close>

datatype state_op = OpGenesis GenesisAllocation "ValidatorGenesis list" | OpBlock Block | OpSlash address
  | OpReset GenesisAllocation "ValidatorGenesis list" "Block list"

fun state_step :: "'db leveldb \<Rightarrow> state_op \<Rightarrow> 'db State \<Rightarrow> 'db State" where
  "state_step L (OpGenesis al vs) s = fst (ApplyGenesis L s al vs)"
| "state_step L (OpBlock b) s = fst (ApplyBlock L s b)"
| "state_step L (OpSlash a) s = fst (SlashValidator L s a)"
| "state_step L (OpReset al vs bs) s = fst (ResetAndReplay L s al vs bs)"

text \<open>The arguments have the Go types: blocks and addresses of the fixed sizes.\<close>

fun typed_args :: "state_op \<Rightarrow> bool" where
  "typed_args (OpGenesis al vs) = True"
| "typed_args (OpBlock b) = wf_block b"
| "typed_args (OpSlash a) = (length a = AddressSize)"
| "typed_args (OpReset al vs bs) = list_all wf_block bs"

interpretation database: transitions "\<lambda>s op s'. s' = state_step L op s" "\<lambda>s. leveldb_ok L \<and> typed_db L (st_db s)" typed_args
proof (unfold_locales, goal_cases)
  case (1 s op s')
  then show ?case
    by (cases op) (auto simp: ApplyGenesis_locked ApplyBlock_locked typed_slash typed_reset split: prod.split intro: typed_genesis typed_block)
qed

text \<open>A well-typed database always has a readable validator set.\<close>

lemma typed_set_readable:
  assumes "typed_db L (st_db s)"
  shows "snd (GetValidatorSet L s) = None"
proof (cases "ldb_Get L (st_db s) keyValidatorList")
  case (Found v)
  then have "typed_entry keyValidatorList v" using assms by (simp add: typed_db_def)
  then have "readable_list v" by (auto simp: typed_entry_def)
  then show ?thesis using Found by (auto simp: GetValidatorSet_def readable_list_def read_list_def split: option.splits)
qed (simp_all add: GetValidatorSet_def)

lemma run_fold: "run (\<lambda>s op s'. s' = f op s) s ops (fold f ops s)"
  by (induction ops arbitrary: s) (auto intro: run_Nil run_Cons)

end
