(* ===== verification/Ledger_Properties.thy ===== *)
theory Ledger_Properties
  imports Mempool Consensus State_Typing
begin

text \<open>
  The properties of the ledger, the validator set and the pool. The witnesses use an in-memory
  database and four accounts.
\<close>

section \<open>Data of the witnesses\<close>

definition alice :: address where "alice = replicate 20 1"
definition bob :: address where "bob = replicate 20 2"
definition carol :: address where "carol = replicate 20 3"
definition miner :: address where "miner = replicate 20 9"

definition pay :: "address \<Rightarrow> address \<Rightarrow> u64 \<Rightarrow> u64 \<Rightarrow> u64 \<Rightarrow> Transaction" where
  "pay from to amount fee nonce = zero_tx\<lparr>tx_From := from, tx_To := to, tx_Amount := amount, tx_Fee := fee, tx_Nonce := nonce\<rparr>"

definition block_of :: "Transaction list \<Rightarrow> Block" where
  "block_of txs = zero_block\<lparr>blk_Height := 1, blk_ValidatorAddress := miner, blk_Transactions := txs\<rparr>"

lemma account_lengths [simp]:
  "length alice = AddressSize" "length bob = AddressSize" "length carol = AddressSize" "length miner = AddressSize"
  by (simp_all add: alice_def bob_def carol_def miner_def AddressSize_def)

text \<open>Alice owns 1000 and has sent seven transactions, Bob owns 10.\<close>

definition demo_db :: memdb where
  "demo_db = [(balanceKey alice, BigEndian_PutUint64 1000), (nonceKey alice, BigEndian_PutUint64 7),
     (balanceKey bob, BigEndian_PutUint64 10)]"

definition demo_state :: "memdb State" where
  "demo_state = \<lparr>st_db = demo_db, st_cfg = DefaultChainConfig\<rparr>"

lemma GetValidatorSet_cong:
  assumes "stake_of L (st_db s') = stake_of L (st_db s)"
    and "ldb_Get L (st_db s') keyValidatorList = ldb_Get L (st_db s) keyValidatorList"
  shows "GetValidatorSet L s' = GetValidatorSet L s"
  using assms by (simp add: GetValidatorSet_def collect_validators_eq split: get_result.split option.split)

section \<open>Applying a block\<close>

text \<open>C1: a successful \<^verbatim>\<open>ApplyBlock\<close> refines the abstract ledger: the stored balances and nonces
  become those of the specification (each funded transaction moves its amount and costs its sender
  amount plus fee, the producer gets the fees), the stakes and the validator list stay, and a failed
  batch leaves every key of the database as it was.\<close>

theorem ApplyBlock_refines:
  assumes "leveldb_ok L" and "ApplyBlock L s b = (s', err)"
  shows "if err = None then
      balance_of L (st_db s') = spec_block (balance_of L (st_db s)) b \<and>
      nonce_of L (st_db s') = spec_nonce (balance_of L (st_db s)) (nonce_of L (st_db s)) (blk_Transactions b) \<and>
      stake_of L (st_db s') = stake_of L (st_db s) \<and> GetValidatorSet L s' = GetValidatorSet L s \<and> st_cfg s' = st_cfg s
    else \<forall>k. ldb_Get L (st_db s') k = ldb_Get L (st_db s) k"
proof -
  obtain db' where ap: "applyBlockLocked L (st_db s) b = (db', err)" and s': "s' = s\<lparr>st_db := db'\<rparr>"
    using assms(2) by (auto simp: ApplyBlock_locked split: prod.splits)
  show ?thesis
  proof (cases err)
    case None
    note acc = applyBlockLocked_accounts [OF assms(1) ap [unfolded None]]
    have "GetValidatorSet L s' = GetValidatorSet L s"
      using acc(3,4) s' by (intro GetValidatorSet_cong) simp_all
    then show ?thesis using None acc s' by simp
  next
    case (Some e)
    then show ?thesis using applyBlockLocked_failed [OF assms(1) ap [unfolded Some]] s' by simp
  qed
qed

theorem ApplyBlock_refines_witness:
  "\<exists>s'. ApplyBlock mem_leveldb demo_state (block_of [pay alice bob 300 100 7]) = (s', None) \<and>
     balance_of mem_leveldb (st_db s') alice = 600 \<and> balance_of mem_leveldb (st_db s') bob = 310 \<and>
     balance_of mem_leveldb (st_db s') miner = 100 \<and> nonce_of mem_leveldb (st_db s') alice = 8"
proof -
  let ?b = "block_of [pay alice bob 300 100 7]" and ?db = "st_db demo_state"
  obtain s' where s': "ApplyBlock mem_leveldb demo_state ?b = (s', None)" using ApplyBlock_ok [OF mem_writes_ok] by blast
  have *: "balance_of mem_leveldb (st_db s') = spec_block (balance_of mem_leveldb ?db) ?b"
    "nonce_of mem_leveldb (st_db s') = spec_nonce (balance_of mem_leveldb ?db) (nonce_of mem_leveldb ?db) (blk_Transactions ?b)"
    using ApplyBlock_refines [OF mem_leveldb_ok s'] by simp_all
  have "spec_block (balance_of mem_leveldb ?db) ?b alice = 600" "spec_block (balance_of mem_leveldb ?db) ?b bob = 310"
    "spec_block (balance_of mem_leveldb ?db) ?b miner = 100"
    "spec_nonce (balance_of mem_leveldb ?db) (nonce_of mem_leveldb ?db) (blk_Transactions ?b) alice = 8"
    by code_simp+
  then show ?thesis using s' * by simp
qed

text \<open>C2: in 64-bit arithmetic, for every block and every set of accounts that contains its parties, the
  sum of the balances after \<^verbatim>\<open>ApplyBlock\<close> is the sum before plus the fees of the transactions the
  block skipped for lack of funds (those fees are credited to the producer and paid by nobody).\<close>

theorem ApplyBlock_sum:
  assumes "leveldb_ok L" and "ApplyBlock L s b = (s', None)"
    and "finite A" and "parties (blk_Transactions b) \<subseteq> A" and "blk_ValidatorAddress b \<in> A"
  shows "(\<Sum>a\<in>A. balance_of L (st_db s') a) =
    (\<Sum>a\<in>A. balance_of L (st_db s) a) + fees (skipped (balance_of L (st_db s)) (blk_Transactions b))"
proof -
  obtain db' where "applyBlockLocked L (st_db s) b = (db', None)" and "s' = s\<lparr>st_db := db'\<rparr>"
    using assms(2) by (auto simp: ApplyBlock_locked split: prod.splits)
  then show ?thesis using applyBlockLocked_accounts(1) [OF assms(1)] sum_spec_block [OF assms(3-5)] by simp
qed

theorem ApplyBlock_sum_witness:
  "\<exists>s'. ApplyBlock mem_leveldb demo_state (block_of [pay alice bob 300 100 7, pay bob carol 5000 100 0]) = (s', None) \<and>
     (\<Sum>a\<in>{alice, bob, carol, miner}. balance_of mem_leveldb (st_db s') a) = 1110"
proof -
  let ?b = "block_of [pay alice bob 300 100 7, pay bob carol 5000 100 0]" and ?A = "{alice, bob, carol, miner}"
  obtain s' where s': "ApplyBlock mem_leveldb demo_state ?b = (s', None)" using ApplyBlock_ok [OF mem_writes_ok] by blast
  have A: "finite ?A" "parties (blk_Transactions ?b) \<subseteq> ?A" "blk_ValidatorAddress ?b \<in> ?A"
    by (simp_all add: parties_def block_of_def pay_def)
  have d: "distinct [alice, bob, carol, miner]" by code_simp
  have v: "balance_of mem_leveldb (st_db demo_state) alice = 1000" "balance_of mem_leveldb (st_db demo_state) bob = 10"
    "balance_of mem_leveldb (st_db demo_state) carol = 0" "balance_of mem_leveldb (st_db demo_state) miner = 0"
    "fees (skipped (balance_of mem_leveldb (st_db demo_state)) (blk_Transactions ?b)) = 100"
    by code_simp+
  have "(\<Sum>a\<in>?A. balance_of mem_leveldb (st_db demo_state) a) = 1010" using d v(1-4) by simp
  then show ?thesis using s' ApplyBlock_sum [OF mem_leveldb_ok s' A] v(5) by auto
qed

text \<open>C3: as a number, the total held by any finite set of accounts that contains the parties is
  unchanged by a block whose transactions are all funded, provided no amount plus fee wraps and
  the total fits in 64 bits; with skipped transactions it grows by exactly their fees.\<close>

theorem ApplyBlock_supply:
  assumes "leveldb_ok L" and "ApplyBlock L s b = (s', None)"
    and "finite A" and "parties (blk_Transactions b) \<subseteq> A" and "blk_ValidatorAddress b \<in> A"
    and "list_all no_overflow (blk_Transactions b)"
    and "supply_of A (balance_of L (st_db s)) +
      fee_total (skipped (balance_of L (st_db s)) (blk_Transactions b)) < 2 ^ 64"
  shows "supply_of A (balance_of L (st_db s')) = supply_of A (balance_of L (st_db s)) +
      fee_total (skipped (balance_of L (st_db s)) (blk_Transactions b))"
proof -
  obtain db' where "applyBlockLocked L (st_db s) b = (db', None)" and "s' = s\<lparr>st_db := db'\<rparr>"
    using assms(2) by (auto simp: ApplyBlock_locked split: prod.splits)
  then show ?thesis using applyBlockLocked_accounts(1) [OF assms(1)] supply_spec_block [OF assms(3-7)] by simp
qed

theorem ApplyBlock_supply_witness:
  "\<exists>s'. ApplyBlock mem_leveldb demo_state (block_of [pay alice bob 300 100 7]) = (s', None) \<and>
     supply_of {alice, bob, miner} (balance_of mem_leveldb (st_db s')) = 1010"
proof -
  let ?b = "block_of [pay alice bob 300 100 7]" and ?A = "{alice, bob, miner}"
  let ?bal = "balance_of mem_leveldb (st_db demo_state)"
  obtain s' where s': "ApplyBlock mem_leveldb demo_state ?b = (s', None)" using ApplyBlock_ok [OF mem_writes_ok] by blast
  have A: "finite ?A" "parties (blk_Transactions ?b) \<subseteq> ?A" "blk_ValidatorAddress ?b \<in> ?A"
    by (simp_all add: parties_def block_of_def pay_def)
  have d: "distinct [alice, bob, miner]" by code_simp
  have v: "?bal alice = 1000" "?bal bob = 10" "?bal miner = 0" "skipped ?bal (blk_Transactions ?b) = []"
    by code_simp+
  have no: "list_all no_overflow (blk_Transactions ?b)" by (simp add: no_overflow_def block_of_def pay_def)
  have sup: "supply_of ?A ?bal = 1010" using d v(1-3) by (simp add: supply_of_def)
  then show ?thesis using s' ApplyBlock_supply [OF mem_leveldb_ok s' A no] v(4) by (simp add: fee_total_def)
qed

section \<open>Reorganisation\<close>

text \<open>C18: after a successful \<^verbatim>\<open>ResetAndReplay\<close> the balances and nonces are those of replaying the
  blocks from the genesis allocation, whatever the database held before.\<close>

theorem ResetAndReplay_from_genesis:
  assumes "leveldb_ok L" and "ResetAndReplay L s al vs bs = (s', None)"
  shows "(balance_of L (st_db s'), nonce_of L (st_db s')) = spec_replay (genesis_balances al, \<lambda>_. 0) bs"
  using ResetAndReplay_ledger(1) [OF assms] .

theorem ResetAndReplay_from_genesis_witness:
  "\<exists>s'. ResetAndReplay mem_leveldb demo_state [(Address_Hex bob, 500)] [] [block_of [pay bob carol 100 100 0]] = (s', None) \<and>
     balance_of mem_leveldb (st_db s') bob = 300 \<and> balance_of mem_leveldb (st_db s') alice = 0 \<and>
     nonce_of mem_leveldb (st_db s') bob = 1"
proof -
  let ?al = "[(Address_Hex bob, 500)]" and ?bs = "[block_of [pay bob carol 100 100 0]]"
  obtain s' where s': "ResetAndReplay mem_leveldb demo_state ?al [] ?bs = (s', None)"
    using ResetAndReplay_ok [OF mem_writes_ok] by blast
  have *: "(balance_of mem_leveldb (st_db s'), nonce_of mem_leveldb (st_db s')) = spec_replay (genesis_balances ?al, \<lambda>_. 0) ?bs"
    by (rule ResetAndReplay_from_genesis [OF mem_leveldb_ok s'])
  have "genesis_balances ?al = (\<lambda>a. if a = bob then 500 else 0)"
    by (auto simp: genesis_balances_def decoded_def AddressFromHex_Hex)
  moreover have "fst (spec_replay (\<lambda>a. if a = bob then 500 else 0, \<lambda>_. 0) ?bs) bob = 300"
    "fst (spec_replay (\<lambda>a. if a = bob then 500 else 0, \<lambda>_. 0) ?bs) alice = 0"
    "snd (spec_replay (\<lambda>a. if a = bob then 500 else 0, \<lambda>_. 0) ?bs) bob = 1"
    by code_simp+
  ultimately have "fst (spec_replay (genesis_balances ?al, \<lambda>_. 0) ?bs) bob = 300"
    "fst (spec_replay (genesis_balances ?al, \<lambda>_. 0) ?bs) alice = 0" "snd (spec_replay (genesis_balances ?al, \<lambda>_. 0) ?bs) bob = 1"
    by simp_all
  with * have "balance_of mem_leveldb (st_db s') bob = 300 \<and> balance_of mem_leveldb (st_db s') alice = 0 \<and>
      nonce_of mem_leveldb (st_db s') bob = 1" by (simp add: prod_eq_iff)
  then show ?thesis using s' by blast
qed

fun apply_all :: "'db leveldb \<Rightarrow> 'db State \<Rightarrow> Block list \<Rightarrow> 'db State \<times> db_error option" where
  "apply_all L s [] = (s, None)"
| "apply_all L s (b # bs) = (case ApplyBlock L s b of (s', Some e) \<Rightarrow> (s', Some e) | (s', None) \<Rightarrow> apply_all L s' bs)"

lemma apply_all_replay: "apply_all L s bs = (case replay_blocks L (st_db s) bs of (db, err) \<Rightarrow> (s\<lparr>st_db := db\<rparr>, err))"
  by (induction bs arbitrary: s) (auto simp: ApplyBlock_locked split: prod.split option.split)

lemma apply_all_ok: "writes_ok L \<Longrightarrow> \<exists>s'. apply_all L s bs = (s', None)"
  using replay_blocks_ok [of L "st_db s" bs] by (auto simp: apply_all_replay)

text \<open>C19: a node that reorganises to a chain ends with the same balances, nonces and validator set as a
  node that started from the genesis and applied the blocks of that chain one by one. The two may visit the
  allocation map in different orders; the allocation must not name an address twice with different amounts.\<close>

theorem reorg_agrees_with_sync:
  assumes "leveldb_ok L" and "db_empty L (st_db s0)" and "ApplyGenesis L s0 al vs = (s1, None)"
    and "apply_all L s1 bs = (s2, None)"
    and "ResetAndReplay L s al' vs bs = (s', None)" and "st_cfg s = st_cfg s0"
    and "mset al' = mset al" and "unambiguous al"
  shows "balance_of L (st_db s') = balance_of L (st_db s2) \<and> nonce_of L (st_db s') = nonce_of L (st_db s2) \<and>
    GetValidatorSet L s' = GetValidatorSet L s2"
proof -
  obtain db1 where g: "applyGenesisLocked L (st_cfg s0) (st_db s0) al vs = (db1, None)" and s1: "s1 = s0\<lparr>st_db := db1\<rparr>"
    using assms(3) by (auto simp: ApplyGenesis_locked split: prod.splits)
  obtain db2 where r: "replay_blocks L db1 bs = (db2, None)" and s2: "s2 = s1\<lparr>st_db := db2\<rparr>"
    using assms(4) s1 by (auto simp: apply_all_replay split: prod.splits)
  note e = genesis_on_empty [OF assms(1,2) g] and rl = replay_blocks_ledger [OF assms(1) r]
    and ra = replay_blocks_accounts [OF assms(1) r] and rr = ResetAndReplay_ledger [OF assms(1,5)]
  have "(balance_of L (st_db s'), nonce_of L (st_db s')) = (balance_of L db2, nonce_of L db2)"
    using rl rr(1) e(1,2) genesis_balances_order [OF assms(8,7)] by simp
  moreover have "stake_of L (st_db s') = stake_of L db2" using rr(2) ra(2) e(3) assms(6) by auto
  moreover have "ldb_Get L (st_db s') keyValidatorList = ldb_Get L db2 keyValidatorList"
    using rr(3) ra(3) e(4) assms(6) by simp
  ultimately show ?thesis using s2 GetValidatorSet_cong [of L s' s2] by simp
qed

definition empty_state :: "memdb State" where
  "empty_state = \<lparr>st_db = [], st_cfg = DefaultChainConfig\<rparr>"

lemma empty_state_empty: "db_empty mem_leveldb (st_db empty_state)"
  by (simp add: db_empty_def empty_state_def mem_leveldb_def)

definition two_accounts :: GenesisAllocation where
  "two_accounts = [(Address_Hex bob, 500), (Address_Hex carol, 30)]"

lemma two_accounts_unambiguous: "unambiguous two_accounts"
  by (auto simp: unambiguous_def two_accounts_def AddressFromHex_Hex bob_def carol_def AddressSize_def)

theorem reorg_agrees_with_sync_witness:
  "\<exists>s1 s2 s'. ApplyGenesis mem_leveldb empty_state two_accounts [] = (s1, None) \<and>
     apply_all mem_leveldb s1 [block_of [pay bob carol 100 100 0]] = (s2, None) \<and>
     ResetAndReplay mem_leveldb demo_state (rev two_accounts) [] [block_of [pay bob carol 100 100 0]] = (s', None) \<and>
     balance_of mem_leveldb (st_db s') = balance_of mem_leveldb (st_db s2)"
proof -
  let ?bs = "[block_of [pay bob carol 100 100 0]]"
  obtain s1 where s1: "ApplyGenesis mem_leveldb empty_state two_accounts [] = (s1, None)" using ApplyGenesis_ok [OF mem_writes_ok] by blast
  obtain s2 where s2: "apply_all mem_leveldb s1 ?bs = (s2, None)" using apply_all_ok [OF mem_writes_ok] by blast
  obtain s' where s': "ResetAndReplay mem_leveldb demo_state (rev two_accounts) [] ?bs = (s', None)"
    using ResetAndReplay_ok [OF mem_writes_ok] by blast
  have "st_cfg demo_state = st_cfg empty_state" by (simp add: demo_state_def empty_state_def)
  then show ?thesis
    using reorg_agrees_with_sync [OF mem_leveldb_ok empty_state_empty s1 s2 s' _ mset_rev two_accounts_unambiguous] s1 s2 s' by blast
qed

text \<open>C17: when the order of Go's map iteration shows in the ledger. The balances after the genesis are the same for every
  order in which \<^verbatim>\<open>ApplyGenesis\<close> may visit the allocation map exactly when no two keys that decode to one
  address (hex digits in different cases) have different amounts; otherwise two nodes may start from one genesis
  file with different balances.\<close>

theorem genesis_order:
  assumes "leveldb_ok L" and "writes_ok L" and "db_empty L (st_db s)"
  shows "(\<forall>al'. mset al' = mset al \<longrightarrow>
      balance_of L (st_db (fst (ApplyGenesis L s al' vs))) = balance_of L (st_db (fst (ApplyGenesis L s al vs)))) \<longleftrightarrow>
    (\<forall>(h, v) \<in> set al. \<forall>(h', v') \<in> set al. AddressFromHex h = AddressFromHex h' \<and> AddressFromHex h \<noteq> None \<longrightarrow> v = v')"
proof -
  have g: "balance_of L (st_db (fst (ApplyGenesis L s al' vs))) = genesis_balances al'" for al'
  proof -
    obtain db where db: "applyGenesisLocked L (st_cfg s) (st_db s) al' vs = (db, None)"
      using applyGenesisLocked_ok [OF assms(2)] by blast
    then show ?thesis using genesis_on_empty(1) [OF assms(1,3) db] by (simp add: ApplyGenesis_locked)
  qed
  show ?thesis
    unfolding g unambiguous_def [symmetric] using genesis_balances_order genesis_balances_ambiguous by blast
qed

theorem genesis_order_witness:
  "\<exists>al'. mset al' = mset [(replicate 40 (CHR ''A''), 1), (replicate 40 (CHR ''a''), 2)] \<and>
     balance_of mem_leveldb (st_db (fst (ApplyGenesis mem_leveldb empty_state al' []))) \<noteq>
     balance_of mem_leveldb (st_db (fst (ApplyGenesis mem_leveldb empty_state
       [(replicate 40 (CHR ''A''), 1), (replicate 40 (CHR ''a''), 2)] [])))"
proof -
  have "AddressFromHex (replicate 40 (CHR ''A'')) = Some (replicate 20 170)" "AddressFromHex (replicate 40 (CHR ''a'')) = Some (replicate 20 170)"
    by code_simp+
  then show ?thesis
    using genesis_order [OF mem_leveldb_ok mem_writes_ok empty_state_empty,
        of "[(replicate 40 (CHR ''A''), 1), (replicate 40 (CHR ''a''), 2)]" "[]"] by simp
qed

section \<open>Validators\<close>

definition two_validators :: "ValidatorGenesis list" where
  "two_validators = [\<lparr>vg_Address = Address_Hex alice, vg_Stake = MinStake\<rparr>,
     \<lparr>vg_Address = ''xyz'', vg_Stake = MinStake\<rparr>, \<lparr>vg_Address = Address_Hex bob, vg_Stake = MinStake + 1\<rparr>,
     \<lparr>vg_Address = Address_Hex carol, vg_Stake = 3\<rparr>]"

lemma two_validators_parsed:
  "parsed (accepted DefaultChainConfig two_validators) = [(alice, MinStake), (bob, MinStake + 1)]"
proof -
  have "AddressFromHex ''xyz'' = None" by code_simp
  then show ?thesis
    by (simp add: accepted_def two_validators_def parsed_def AddressFromHex_Hex DefaultChainConfig_def MinStake_def)
qed

lemma two_validators_accepted: "accepted DefaultChainConfig two_validators \<noteq> []"
  using two_validators_parsed by (auto simp: parsed_def)

lemma accounts_distinct: "distinct [alice, bob, carol, miner]"
  by code_simp

text \<open>C21: slashing removes exactly the slashed validator from the set, keeps the order of the others and
  changes no balance and no nonce.\<close>

theorem SlashValidator_removes:
  assumes "leveldb_ok L" and "SlashValidator L s addr = (s', None)" and "length addr = AddressSize"
  shows "fst (GetValidatorSet L s') = filter (\<lambda>v. val_Address v \<noteq> addr) (fst (GetValidatorSet L s)) \<and>
    balance_of L (st_db s') = balance_of L (st_db s) \<and> nonce_of L (st_db s') = nonce_of L (st_db s)"
  using SlashValidator_set [OF assms] SlashValidator_accounts [OF assms(1,2)] by simp

lemma SlashValidator_listed_ok:
  assumes "writes_ok L" and "ldb_Get L (st_db s) keyValidatorList = Found (stored_list xs)"
  shows "\<exists>s'. SlashValidator L s addr = (s', None)"
  using assms(2) read_stored_list [of xs] writes_okE [OF assms(1)]
  by (auto simp: SlashValidator_def read_list_def Let_def split: prod.split) (metis prod.inject)+

lemma two_validators_state:
  obtains s1 where "ApplyGenesis mem_leveldb empty_state [] two_validators = (s1, None)"
    and "GetValidatorSet mem_leveldb s1 = ([\<lparr>val_Address = alice, val_Stake = MinStake\<rparr>,
           \<lparr>val_Address = bob, val_Stake = MinStake + 1\<rparr>], None)"
    and "\<exists>xs. ldb_Get mem_leveldb (st_db s1) keyValidatorList = Found (stored_list xs)"
proof -
  obtain db where g: "applyGenesisLocked mem_leveldb (st_cfg empty_state) (st_db empty_state) [] two_validators = (db, None)"
    using applyGenesisLocked_ok [OF mem_writes_ok] by blast
  let ?s1 = "empty_state\<lparr>st_db := db\<rparr>"
  have s1: "ApplyGenesis mem_leveldb empty_state [] two_validators = (?s1, None)" using g by (simp add: ApplyGenesis_locked)
  have acc: "accepted (st_cfg empty_state) two_validators \<noteq> []"
    "parsed (accepted (st_cfg empty_state) two_validators) = [(alice, MinStake), (bob, MinStake + 1)]"
    "0 < cfg_MinStake (st_cfg empty_state)"
    using two_validators_accepted two_validators_parsed by (simp_all add: empty_state_def DefaultChainConfig_def MinStake_def)
  have "GetValidatorSet mem_leveldb ?s1 = ([\<lparr>val_Address = alice, val_Stake = MinStake\<rparr>,
      \<lparr>val_Address = bob, val_Stake = MinStake + 1\<rparr>], None)"
    using genesis_validator_set [OF mem_leveldb_ok s1 acc(1) _ acc(3)] acc(2) accounts_distinct by simp
  moreover have "\<exists>xs. ldb_Get mem_leveldb (st_db ?s1) keyValidatorList = Found (stored_list xs)"
    using applyGenesis_accounts(4) [OF mem_leveldb_ok g] acc(1) by auto
  ultimately show thesis using that [OF s1] by blast
qed

theorem SlashValidator_removes_witness:
  "\<exists>s s'. SlashValidator mem_leveldb s alice = (s', None) \<and>
     map val_Address (fst (GetValidatorSet mem_leveldb s)) = [alice, bob] \<and>
     map val_Address (fst (GetValidatorSet mem_leveldb s')) = [bob]"
proof -
  obtain s1 where s1: "GetValidatorSet mem_leveldb s1 = ([\<lparr>val_Address = alice, val_Stake = MinStake\<rparr>,
      \<lparr>val_Address = bob, val_Stake = MinStake + 1\<rparr>], None)"
    "\<exists>xs. ldb_Get mem_leveldb (st_db s1) keyValidatorList = Found (stored_list xs)"
    using two_validators_state by metis
  obtain s' where s': "SlashValidator mem_leveldb s1 alice = (s', None)"
    using SlashValidator_listed_ok [OF mem_writes_ok] s1(2) by blast
  have "fst (GetValidatorSet mem_leveldb s') = filter (\<lambda>v. val_Address v \<noteq> alice) (fst (GetValidatorSet mem_leveldb s1))"
    using SlashValidator_removes [OF mem_leveldb_ok s'] by simp
  then show ?thesis using s1 s' accounts_distinct by (intro exI [of _ s1] exI [of _ s']) auto
qed

text \<open>A reorganisation forgets slashing: after \<^verbatim>\<open>ResetAndReplay\<close> the validator set is the genesis set again,
  whatever was slashed before.\<close>

lemma reorg_restores_validators:
  assumes "leveldb_ok L" and "ResetAndReplay L s al vs bs = (s', None)"
    and "accepted (st_cfg s) vs \<noteq> []" and "distinct (map fst (parsed (accepted (st_cfg s) vs)))" and "0 < cfg_MinStake (st_cfg s)"
  shows "GetValidatorSet L s' =
    (map (\<lambda>(a, v). \<lparr>val_Address = a, val_Stake = v\<rparr>) (parsed (accepted (st_cfg s) vs)), None)"
  using ResetAndReplay_ledger(2,3) [OF assms(1,2)] assms(3-5) by (intro stored_validator_set) simp_all

text \<open>C23: the state database is well typed. After any sequence of operations of the state (genesis, blocks, slashing,
  reorganisations, also ones whose write fails) on an empty database, every entry is either eight bytes under the balance,
  nonce or stake key of a 20-byte address, or the validator list, which is the JSON text of a non-empty list of
  readable addresses; and the validator set can always be read.\<close>

theorem database_well_typed:
  assumes "leveldb_ok L" and "db_empty L (st_db s)" and "list_all typed_args ops"
  shows "(\<forall>k v. ldb_Get L (st_db (fold (state_step L) ops s)) k = Found v \<longrightarrow> typed_entry k v) \<and>
    snd (GetValidatorSet L (fold (state_step L) ops s)) = None"
proof -
  have "typed_db L (st_db s)" using assms(2) by (simp add: typed_db_def db_empty_def)
  then have t: "typed_db L (st_db (fold (state_step L) ops s))"
    using database.run_keeps [OF run_fold assms(3), of L s] assms(1) by blast
  then show ?thesis using typed_set_readable [OF t] by (simp add: typed_db_def)
qed

theorem database_well_typed_witness:
  "\<exists>v. ldb_Get mem_leveldb (st_db (fold (state_step mem_leveldb) [OpGenesis [] two_validators] empty_state)) keyValidatorList = Found v \<and>
     typed_entry keyValidatorList v"
proof -
  let ?s = "fold (state_step mem_leveldb) [OpGenesis [] two_validators] empty_state"
  have "db_empty mem_leveldb (st_db empty_state)" by (simp add: db_empty_def mem_leveldb_def empty_state_def)
  from database_well_typed [OF mem_leveldb_ok this, of "[OpGenesis [] two_validators]"]
  have "ldb_Get mem_leveldb (st_db ?s) keyValidatorList = Found v \<longrightarrow> typed_entry keyValidatorList v" for v
    by simp
  moreover have "\<exists>v. ldb_Get mem_leveldb (st_db ?s) keyValidatorList = Found v"
    by (rule two_validators_state) auto
  ultimately show ?thesis by blast
qed

text \<open>C24: over any window of as many consecutive heights as there are validators, the producers are
  the validators of the set, each one once, starting from the position of the first height.\<close>

theorem round_robin_window:
  assumes "Set_List s \<noteq> []" and "m + Set_Size s \<le> 2 ^ 64"
  shows "map (\<lambda>i. ValidatorForHeight s (of_nat (m + i))) [0..<Set_Size s] = rotate m (map sv_Address (Set_List s))"
proof -
  let ?l = "set_list s"
  have "ValidatorForHeight s (of_nat (m + i)) = map sv_Address ?l ! ((m + i) mod length (map sv_Address ?l))" if "i < length ?l" for i
  proof -
    have "unat (of_nat (m + i) :: u64) = m + i"
      using assms(2) that unfolding unat_of_nat by (simp add: Set_Size_def)
    then show ?thesis using assms(1) by (simp add: ValidatorForHeight_def Set_List_def del: of_nat_add)
  qed
  then have "map (\<lambda>i. ValidatorForHeight s (of_nat (m + i))) [0..<length ?l] =
      map (\<lambda>i. map sv_Address ?l ! ((m + i) mod length (map sv_Address ?l))) [0..<length (map sv_Address ?l)]"
    by (intro map_cong) simp_all
  also have "\<dots> = rotate m (map sv_Address ?l)" using assms(1) by (intro map_nth_rotate) (simp add: Set_List_def)
  finally show ?thesis by (simp add: Set_Size_def Set_List_def)
qed

theorem round_robin_window_witness:
  "map (\<lambda>i. ValidatorForHeight (NewSet two_validators) (of_nat (4 + i))) [0..<2] = [alice, bob]"
proof -
  have l: "Set_List (NewSet two_validators) = [\<lparr>sv_Address = alice, sv_Stake = MinStake\<rparr>, \<lparr>sv_Address = bob, sv_Stake = MinStake + 1\<rparr>]"
    using two_validators_parsed
    by (simp add: Set_List_def NewSet_def genesis_list_eq accepted_def DefaultChainConfig_def)
  then have n: "Set_Size (NewSet two_validators) = 2" by (simp add: Set_Size_def Set_List_def)
  have "rotate 4 (map sv_Address (Set_List (NewSet two_validators))) = [alice, bob]"
    using l by (simp add: rotate_def numeral_eq_Suc)
  then show ?thesis using round_robin_window [of "NewSet two_validators" 4] l n by simp
qed

section \<open>The pool\<close>

text \<open>Whatever transactions are offered and removed, in any order and against any states, the pool
  started by \<^verbatim>\<open>New\<close> never exceeds its capacity, never holds two transactions with one hash, and holds
  only transactions with a valid signature and at least the minimum fee.\<close>

lemma pool_invariant:
  "mempool_ok cl (fold (pool_step cl L) ops (Mempool_New n))"
  by (rule pool.run_inv [OF mempool_ok_New])

text \<open>C25: \<^verbatim>\<open>Add\<close> accepts a transaction exactly when the pool has room, the signature is valid and by
  the sender, the fee reaches the minimum, the nonce is the stored nonce of the sender, the stored
  balance covers amount plus fee and the hash is new; it then appends it, and otherwise leaves the pool
  as it was.\<close>

theorem Add_accepts_iff:
  assumes "leveldb_ok L"
  shows "Mempool_Add cl L (Some s) m tx =
    (if int (length (mp_txs m)) < mp_max m \<and> VerifySignature cl tx \<and> MinFee \<le> tx_Fee tx \<and>
        tx_Nonce tx = nonce_of L (st_db s) (tx_From tx) \<and>
        tx_Amount tx + tx_Fee tx \<le> balance_of L (st_db s) (tx_From tx) \<and>
        TxHash cl tx \<notin> TxHash cl ` set (mp_txs m)
     then (m\<lparr>mp_txs := mp_txs m @ [tx]\<rparr>, None)
     else (m, snd (Mempool_Add cl L (Some s) m tx))) \<and>
    (snd (Mempool_Add cl L (Some s) m tx) = None \<longleftrightarrow>
       int (length (mp_txs m)) < mp_max m \<and> VerifySignature cl tx \<and> MinFee \<le> tx_Fee tx \<and>
       tx_Nonce tx = nonce_of L (st_db s) (tx_From tx) \<and>
       tx_Amount tx + tx_Fee tx \<le> balance_of L (st_db s) (tx_From tx) \<and>
       TxHash cl tx \<notin> TxHash cl ` set (mp_txs m))"
proof -
  have "state_check L (Some s) tx = None \<longleftrightarrow> tx_Nonce tx = nonce_of L (st_db s) (tx_From tx) \<and>
      tx_Amount tx + tx_Fee tx \<le> balance_of L (st_db s) (tx_From tx)"
    by (simp add: state_check_None_iff [OF assms] funded_def not_less)
  then show ?thesis
    by (cases "state_check L (Some s) tx") (auto simp: Mempool_Add_def SatisfiesMinFee_def has_hash_iff)
qed

text \<open>A signature scheme for the witnesses: the hash is the end of its input, and there is one signature.\<close>

definition demo_crypto :: crypto_lib where
  "demo_crypto = \<lparr>sha256_Sum256 = (\<lambda>d. take 32 (rev d @ replicate 32 1)),
     elliptic_MarshalCompressed = (\<lambda>(x, y). replicate 33 (word_of_nat x)),
     elliptic_UnmarshalCompressed = (\<lambda>b. Some (unat (hd b), 0)),
     ecdsa_GenerateKey = (\<lambda>seed. Some \<lparr>key_D = 5, key_X = 5, key_Y = 0\<rparr>),
     ecdsa_Sign = (\<lambda>seed k h. Some (7, 9)), ecdsa_Verify = (\<lambda>p h rs. rs = (7, 9))\<rparr>"

definition demo_sender :: address where
  "demo_sender = PubkeyToAddress demo_crypto (Some (5, 0))"

definition demo_tx :: "u64 \<Rightarrow> Transaction" where
  "demo_tx amount = (pay demo_sender bob amount 100 0)\<lparr>tx_SenderPubkey := replicate 33 5,
     tx_Signature := low_bytes 32 7 @ low_bytes 32 9\<rparr>"

definition sender_state :: "memdb State" where
  "sender_state = \<lparr>st_db = [(balanceKey demo_sender, BigEndian_PutUint64 1000)], st_cfg = DefaultChainConfig\<rparr>"

lemma demo_tx_signed: "VerifySignature demo_crypto (demo_tx amount)"
proof -
  have "UnmarshalPubkey demo_crypto (replicate 33 5) = Some (5, 0)" by (simp add: UnmarshalPubkey_def demo_crypto_def)
  moreover have "big_SetBytes (low_bytes 32 7) = 7" "big_SetBytes (low_bytes 32 9) = 9" by (simp_all add: big_SetBytes_low)
  ultimately show ?thesis
    by (simp add: VerifySignature_def demo_tx_def pay_def demo_sender_def Verify_def) (simp add: demo_crypto_def)
qed

theorem Add_accepts_iff_witness:
  "Mempool_Add demo_crypto mem_leveldb (Some sender_state) (Mempool_New 10) (demo_tx 5) =
     ((Mempool_New 10)\<lparr>mp_txs := [demo_tx 5]\<rparr>, None)"
proof -
  have "nonce_of mem_leveldb (st_db sender_state) demo_sender = 0" "balance_of mem_leveldb (st_db sender_state) demo_sender = 1000"
    by code_simp+
  then show ?thesis
    using Add_accepts_iff [OF mem_leveldb_ok, of demo_crypto sender_state "Mempool_New 10" "demo_tx 5"] demo_tx_signed [of 5]
    by (simp add: Mempool_New_def demo_tx_def pay_def MinFee_def)
qed

definition demo_pool :: Mempool where
  "demo_pool = \<lparr>mp_txs = [demo_tx 5, demo_tx 50], mp_max = 10\<rparr>"

lemma demo_pool_ok: "mempool_ok demo_crypto demo_pool"
proof -
  have "TxHash demo_crypto (demo_tx 5) \<noteq> TxHash demo_crypto (demo_tx 50)" by code_simp
  then show ?thesis
    using demo_tx_signed by (simp add: mempool_ok_def demo_pool_def SatisfiesMinFee_def) (simp add: demo_tx_def pay_def MinFee_def)
qed

section \<open>Where the ledger departs from its documentation\<close>

text \<open>What the ledger reads of a transaction.\<close>

definition movement :: "Transaction \<Rightarrow> address \<times> address \<times> u64 \<times> u64" where
  "movement t = (tx_From t, tx_To t, tx_Amount t, tx_Fee t)"

lemma movement_loops:
  assumes "map movement txs = map movement txs'"
  shows "load_accounts L db txs bal non = load_accounts L db txs' bal non" and "apply_txs txs bal non tot = apply_txs txs' bal non tot"
proof -
  have "list_all2 (\<lambda>t t'. movement t = movement t') txs txs'"
    using assms by (simp add: list_all2_conv_all_nth) (metis length_map nth_map)
  then have "load_accounts L db txs bal non = load_accounts L db txs' bal non \<and> apply_txs txs bal non tot = apply_txs txs' bal non tot"
    by (induction arbitrary: bal non tot rule: list_all2_induct) (simp_all add: movement_def Let_def split: prod.split)
  then show "load_accounts L db txs bal non = load_accounts L db txs' bal non" "apply_txs txs bal non tot = apply_txs txs' bal non tot"
    by simp_all
qed

text \<open>C30: the ledger applies a block by the senders, recipients, amounts and fees of its transactions and
  its producer alone: two blocks that agree in these have the same effect, whatever their transaction
  nonces, public keys and signatures are (none are needed), and whatever their heights, predecessors,
  hashes and block signatures. The rules on nonces and signatures hold for transactions that
  entered through the pool only.\<close>

theorem ApplyBlock_ignores_signatures:
  assumes "map movement (blk_Transactions b) = map movement (blk_Transactions b')"
    and "blk_ValidatorAddress b = blk_ValidatorAddress b'"
  shows "ApplyBlock L s b = ApplyBlock L s b'"
  unfolding ApplyBlock_def movement_loops [OF assms(1)] assms(2) ..

theorem ApplyBlock_ignores_signatures_witness:
  "\<not> VerifySignature demo_crypto (pay demo_sender bob 5 100 9) \<and> VerifySignature demo_crypto (demo_tx 5) \<and>
   ApplyBlock mem_leveldb sender_state (block_of [pay demo_sender bob 5 100 9]) = ApplyBlock mem_leveldb sender_state (block_of [demo_tx 5])"
proof -
  have "\<not> VerifySignature demo_crypto (pay demo_sender bob 5 100 9)"
    by (simp add: VerifySignature_def pay_def UnmarshalPubkey_def zero_tx_def)
  moreover have "ApplyBlock mem_leveldb sender_state (block_of [pay demo_sender bob 5 100 9]) =
      ApplyBlock mem_leveldb sender_state (block_of [demo_tx 5])"
    by (rule ApplyBlock_ignores_signatures) (simp_all add: block_of_def movement_def demo_tx_def pay_def)
  ultimately show ?thesis using demo_tx_signed by simp
qed

text \<open>C37: when amount plus fee wraps around to zero, the checks of the pool and of \<^verbatim>\<open>ApplyBlock\<close> pass
  for a sender without funds: in a block with this one transaction, whose producer is neither its sender nor its
  recipient, the recipient is credited the full amount and the sender pays nothing.\<close>

theorem wrapped_total_mints:
  assumes "leveldb_ok L" and "ApplyBlock L s b = (s', None)" and "blk_Transactions b = [t]"
    and "tx_Amount t + tx_Fee t = 0" and "tx_To t \<noteq> tx_From t" and "blk_ValidatorAddress b \<notin> {tx_From t, tx_To t}"
    and "tx_Nonce t = nonce_of L (st_db s) (tx_From t)"
  shows "state_check L (Some s) t = None \<and>
    balance_of L (st_db s') (tx_From t) = balance_of L (st_db s) (tx_From t) \<and>
    balance_of L (st_db s') (tx_To t) = balance_of L (st_db s) (tx_To t) + tx_Amount t"
proof -
  obtain db' where "applyBlockLocked L (st_db s) b = (db', None)" and "s' = s\<lparr>st_db := db'\<rparr>"
    using assms(2) by (auto simp: ApplyBlock_locked split: prod.splits)
  then show ?thesis
    using applyBlockLocked_accounts(1) [OF assms(1)] assms(3-7)
    by (auto simp: spec_block_def spec_tx_def funded_def Let_def state_check_None_iff [OF assms(1)])
qed

theorem wrapped_total_mints_witness:
  "\<exists>s'. ApplyBlock mem_leveldb empty_state (block_of [pay alice bob (- 100) 100 0]) = (s', None) \<and>
     balance_of mem_leveldb (st_db s') alice = 0 \<and> balance_of mem_leveldb (st_db s') bob = - 100"
proof -
  let ?b = "block_of [pay alice bob (- 100) 100 0]" and ?t = "pay alice bob (- 100) 100 0"
  obtain s' where s': "ApplyBlock mem_leveldb empty_state ?b = (s', None)" using ApplyBlock_ok [OF mem_writes_ok] by blast
  have v: "balance_of mem_leveldb (st_db empty_state) = (\<lambda>_. 0)" "nonce_of mem_leveldb (st_db empty_state) = (\<lambda>_. 0)"
    using db_empty_views [OF empty_state_empty] by simp_all
  have f: "tx_From ?t = alice" "tx_To ?t = bob" "tx_Amount ?t = - 100" "tx_Fee ?t = 100" "tx_Nonce ?t = 0"
    "blk_Transactions ?b = [?t]" "blk_ValidatorAddress ?b = miner"
    by (simp_all add: pay_def block_of_def)
  have "state_check mem_leveldb (Some empty_state) ?t = None \<and>
      balance_of mem_leveldb (st_db s') alice = 0 \<and> balance_of mem_leveldb (st_db s') bob = - 100"
    using wrapped_total_mints [OF mem_leveldb_ok s' f(6)] f v accounts_distinct by auto
  then show ?thesis using s' by blast
qed

text \<open>C38: the nonce of an account that receives in a block before it sends is not loaded: after the
  block it is the number of its transactions in this block, whatever it was before, so that old
  signed transactions become valid again.\<close>

theorem nonce_restarts:
  assumes "leveldb_ok L" and "ApplyBlock L s b = (s', None)"
    and "\<not> first_as_sender (blk_Transactions b) a" and "0 < sent (balance_of L (st_db s)) (blk_Transactions b) a"
  shows "nonce_of L (st_db s') a = of_nat (sent (balance_of L (st_db s)) (blk_Transactions b) a)"
proof -
  obtain db' where "applyBlockLocked L (st_db s) b = (db', None)" and "s' = s\<lparr>st_db := db'\<rparr>"
    using assms(2) by (auto simp: ApplyBlock_locked split: prod.splits)
  then show ?thesis
    using applyBlockLocked_accounts(2) [OF assms(1)] assms(3,4) by (simp add: spec_nonce_def)
qed

theorem nonce_restarts_witness:
  "nonce_of mem_leveldb (st_db demo_state) alice = 7 \<and>
   (\<exists>s'. ApplyBlock mem_leveldb demo_state (block_of [pay bob alice 1 1 0, pay alice bob 5 1 7]) = (s', None) \<and>
      nonce_of mem_leveldb (st_db s') alice = 1)"
proof -
  let ?b = "block_of [pay bob alice 1 1 0, pay alice bob 5 1 7]"
  obtain s' where s': "ApplyBlock mem_leveldb demo_state ?b = (s', None)" using ApplyBlock_ok [OF mem_writes_ok] by blast
  have v: "nonce_of mem_leveldb (st_db demo_state) alice = 7" "\<not> first_as_sender (blk_Transactions ?b) alice"
    "sent (balance_of mem_leveldb (st_db demo_state)) (blk_Transactions ?b) alice = 1"
    by code_simp+
  then show ?thesis using s' nonce_restarts [OF mem_leveldb_ok s' v(2)] by auto
qed

section \<open>Map traversal\<close>

lemma batch_effect_append: "batch_effect (xs @ ys) k r = batch_effect ys k (batch_effect xs k r)"
  by (induction xs k r rule: batch_effect.induct) simp_all

text \<open>The order in which Go traverses the two account maps does not matter: whatever permutation of
  the entries the batch is built from, every key of the database gets the same value.\<close>

lemma batch_order_irrelevant:
  assumes "distinct (map fst bals)" and "distinct (map fst nons)"
    and "mset bals' = mset bals" and "mset nons' = mset nons"
  shows "batch_effect (nonce_puts nons' (balance_puts bals' [])) k r = batch_effect (nonce_puts nons (balance_puts bals [])) k r"
proof -
  have split: "batch_effect (nonce_puts n (balance_puts b [])) k r =
      batch_effect (nonce_col.puts n) k (batch_effect (balance_col.puts b) k r)" for n b
    by (simp add: nonce_puts_eq balance_puts_eq batch_effect_append)
  have bal: "batch_effect (balance_col.puts bals') k r = batch_effect (balance_col.puts bals) k r" for r
    using balance_col.batch_effect_order [OF assms(1,3), of "[]"] balance_col.batch_effect_other [of k _ "[]"]
    by (cases "\<exists>a. k = balanceKey a") auto
  have non: "batch_effect (nonce_col.puts nons') k r = batch_effect (nonce_col.puts nons) k r" for r
    using nonce_col.batch_effect_order [OF assms(2,4), of "[]"] nonce_col.batch_effect_other [of k _ "[]"]
    by (cases "\<exists>a. k = nonceKey a") auto
  show ?thesis unfolding split bal non ..
qed

end
