(* ===== verification/Wire.thy ===== *)
theory Wire
  imports Core_Types
begin

text \<open>
  \<^verbatim>\<open>src/p2p/message.go\<close> and the framing of \<^verbatim>\<open>src/p2p/transport.go\<close>: message kinds and
  payloads, \<^verbatim>\<open>EncodeMessage\<close> and \<^verbatim>\<open>DecodeMessage\<close>, and \<^verbatim>\<open>Send\<close> and
  \<^verbatim>\<open>ReadMessage\<close> as functions on the characters of a connection. A raw payload is modelled by the
  JSON value its text denotes; \<open>None\<close> is an absent payload, which no later decoder accepts.
\<close>

section \<open>Messages\<close>

type_synonym Kind = string

definition KindNewTx :: Kind where "KindNewTx = ''new_tx''"
definition KindNewBlock :: Kind where "KindNewBlock = ''new_block''"
definition KindGetBlocks :: Kind where "KindGetBlocks = ''get_blocks''"
definition KindBlocks :: Kind where "KindBlocks = ''blocks''"
definition KindGetPeers :: Kind where "KindGetPeers = ''get_peers''"
definition KindPeers :: Kind where "KindPeers = ''peers''"
definition KindHello :: Kind where "KindHello = ''hello''"

lemmas kind_defs = KindNewTx_def KindNewBlock_def KindGetBlocks_def KindBlocks_def KindGetPeers_def
  KindPeers_def KindHello_def

record Message =
  msg_Kind :: Kind
  msg_Payload :: "json option"

record HelloPayload =
  hello_GenesisHash :: hash
  hello_ListenAddr :: string
  hello_Height :: u64

text \<open>\<open>gb_Max\<close> is the 64-bit pattern of a Go \<^verbatim>\<open>int\<close>.\<close>

record GetBlocksPayload =
  gb_FromHeight :: u64
  gb_Max :: u64

text \<open>The elements are pointers: a peer may send \<^verbatim>\<open>null\<close>.\<close>

record BlocksPayload =
  bp_Blocks :: "Block option list"

record PeersPayload =
  pp_Peers :: "string list"

definition hello_json :: "HelloPayload \<Rightarrow> json" where
  "hello_json h = JObj [(''genesis_hash'', enc_array (hello_GenesisHash h)),
     (''listen_addr'', JStr (hello_ListenAddr h)), (''height'', enc_uint64 (hello_Height h))]"

definition dec_hello :: "HelloPayload decoder" where
  "dec_hello = dec_struct
     [(''genesis_hash'', \<lambda>j h. map_option (\<lambda>v. h\<lparr>hello_GenesisHash := v\<rparr>) (dec_array j (hello_GenesisHash h))),
      (''listen_addr'', \<lambda>j h. map_option (\<lambda>v. h\<lparr>hello_ListenAddr := v\<rparr>) (dec_string j (hello_ListenAddr h))),
      (''height'', \<lambda>j h. map_option (\<lambda>v. h\<lparr>hello_Height := v\<rparr>) (dec_uint64 j (hello_Height h)))]"

definition zero_hello :: HelloPayload where
  "zero_hello = \<lparr>hello_GenesisHash = zero_hash, hello_ListenAddr = [], hello_Height = 0\<rparr>"

definition get_blocks_json :: "GetBlocksPayload \<Rightarrow> json" where
  "get_blocks_json g = JObj [(''from_height'', enc_uint64 (gb_FromHeight g)), (''max'', enc_int64 (gb_Max g))]"

definition dec_get_blocks :: "GetBlocksPayload decoder" where
  "dec_get_blocks = dec_struct
     [(''from_height'', \<lambda>j g. map_option (\<lambda>v. g\<lparr>gb_FromHeight := v\<rparr>) (dec_uint64 j (gb_FromHeight g))),
      (''max'', \<lambda>j g. map_option (\<lambda>v. g\<lparr>gb_Max := v\<rparr>) (dec_int64 j (gb_Max g)))]"

definition zero_get_blocks :: GetBlocksPayload where
  "zero_get_blocks = \<lparr>gb_FromHeight = 0, gb_Max = 0\<rparr>"

definition block_ptr_json :: "Block option \<Rightarrow> json" where
  "block_ptr_json b = (case b of None \<Rightarrow> JNull | Some b \<Rightarrow> block_json b)"

definition blocks_json :: "BlocksPayload \<Rightarrow> json" where
  "blocks_json p = JObj [(''blocks'', enc_list block_ptr_json (bp_Blocks p))]"

definition dec_blocks :: "BlocksPayload decoder" where
  "dec_blocks = dec_struct
     [(''blocks'', \<lambda>j p. map_option (\<lambda>v. p\<lparr>bp_Blocks := v\<rparr>)
         (dec_list (dec_ptr dec_block zero_block) None j (bp_Blocks p)))]"

definition zero_blocks :: BlocksPayload where
  "zero_blocks = \<lparr>bp_Blocks = []\<rparr>"

definition peers_json :: "PeersPayload \<Rightarrow> json" where
  "peers_json p = JObj [(''peers'', enc_list JStr (pp_Peers p))]"

definition dec_peers :: "PeersPayload decoder" where
  "dec_peers = dec_struct
     [(''peers'', \<lambda>j p. map_option (\<lambda>v. p\<lparr>pp_Peers := v\<rparr>) (dec_list dec_string [] j (pp_Peers p)))]"

definition zero_peers :: PeersPayload where
  "zero_peers = \<lparr>pp_Peers = []\<rparr>"

definition message_json :: "Message \<Rightarrow> json" where
  "message_json m = JObj ((''kind'', JStr (msg_Kind m)) #
     (case msg_Payload m of None \<Rightarrow> [] | Some p \<Rightarrow> [(''payload'', p)]))"

definition message_fields :: "(string \<times> Message decoder) list" where
  "message_fields =
     [(''kind'', \<lambda>j m. map_option (\<lambda>v. m\<lparr>msg_Kind := v\<rparr>) (dec_string j (msg_Kind m))),
      (''payload'', \<lambda>j m. Some (m\<lparr>msg_Payload := Some j\<rparr>))]"

definition EncodeMessage :: "Kind \<Rightarrow> json option \<Rightarrow> string" where
  "EncodeMessage kind payload = json_Marshal (message_json \<lparr>msg_Kind = kind, msg_Payload = payload\<rparr>)"

definition DecodeMessage :: "string \<Rightarrow> (Kind \<times> json option) option" where
  "DecodeMessage data =
     (case Option.bind (json_Unmarshal data) (\<lambda>j. dec_struct message_fields j \<lparr>msg_Kind = [], msg_Payload = None\<rparr>) of
        None \<Rightarrow> None
      | Some m \<Rightarrow> Some (msg_Kind m, msg_Payload m))"

section \<open>Framing\<close>

definition newline :: char where "newline = CHR 0x0A"

text \<open>What \<^verbatim>\<open>Send\<close> writes to the connection.\<close>

definition Send_text :: "Kind \<Rightarrow> json option \<Rightarrow> string" where
  "Send_text kind payload = EncodeMessage kind payload @ [newline]"

text \<open>\<open>inp\<close> is what the peer will have sent until it closes or the deadline passes; the result is
  the unread rest and the message, \<open>None\<close> for an error.\<close>

definition ReadMessage :: "string \<Rightarrow> string \<times> (Kind \<times> json option) option" where
  "ReadMessage inp =
     (if newline \<notin> set inp then ([], None)
      else let line = takeWhile (\<lambda>c. c \<noteq> newline) inp;
               rest = tl (dropWhile (\<lambda>c. c \<noteq> newline) inp)
           in if length line = 0 then (rest, None) else (rest, DecodeMessage line))"

lemma ReadMessage_shorter:
  assumes r: "ReadMessage inp = (rest, Some m)"
  shows "length rest < length inp"
proof -
  have nl: "newline \<in> set inp" using r by (auto simp: ReadMessage_def split: if_splits)
  then have "dropWhile (\<lambda>c. c \<noteq> newline) inp \<noteq> []" by (auto simp: dropWhile_eq_Nil_conv)
  moreover have "rest = tl (dropWhile (\<lambda>c. c \<noteq> newline) inp)"
    using r nl by (auto simp: ReadMessage_def Let_def split: if_splits)
  ultimately show ?thesis
    using length_dropWhile_le [of "\<lambda>c. c \<noteq> newline" inp]
    by (cases "dropWhile (\<lambda>c. c \<noteq> newline) inp") auto
qed

text \<open>The messages of a connection up to its first error.\<close>

function read_messages :: "string \<Rightarrow> (Kind \<times> json option) list" where
  "read_messages inp = (case ReadMessage inp of (rest, None) \<Rightarrow> [] | (rest, Some m) \<Rightarrow> m # read_messages rest)"
  by pat_completeness auto
termination
  by (relation "measure length") (auto dest: sym ReadMessage_shorter)

declare read_messages.simps [simp del]

section \<open>Round trips\<close>

lemma newline_free_hex: "n < 16 \<Longrightarrow> hex_digit n \<noteq> newline"
proof
  assume "n < 16" and "hex_digit n = newline"
  then show False using hex_value_digit [of n] by (simp add: newline_def hex_value_def)
qed

lemma newline_free_hex4: "newline \<notin> set (hex4 n)"
  using newline_free_hex [of "n div 4096 mod 16"] newline_free_hex [of "n div 256 mod 16"]
    newline_free_hex [of "n div 16 mod 16"] newline_free_hex [of "n mod 16"]
  by (auto simp: hex4_def)

lemma newline_free_escape: "newline \<notin> set (escape_char c)"
  using newline_free_hex4 [of "of_char c"] by (simp add: escape_char_def Let_def newline_def)

lemma newline_free_quote [simp]: "newline \<notin> set (json_quote s)"
  using newline_free_escape by (auto simp: json_quote_def) (auto simp: newline_def)

lemma newline_free_literal: "int_literal l \<Longrightarrow> newline \<notin> set l"
proof -
  assume "int_literal l"
  moreover have "\<not> is_digit newline" by (simp add: newline_def is_digit_def)
  moreover have "newline \<noteq> CHR ''-''" by (simp add: newline_def)
  ultimately show ?thesis
    by (cases l) (auto simp: int_literal_def Let_def list_all_iff starts_def split: if_splits)
qed

lemma newline_structural [simp]:
  "newline \<noteq> CHR ''n''" "newline \<noteq> CHR ''u''" "newline \<noteq> CHR ''l''" "newline \<noteq> CHR ''t''" "newline \<noteq> CHR ''r''" "newline \<noteq> CHR ''e''" "newline \<noteq> CHR ''f''" "newline \<noteq> CHR ''a''"
  "newline \<noteq> CHR ''s''" "newline \<noteq> CHR ''[''" "newline \<noteq> CHR '']''" "newline \<noteq> CHR ''{''" "newline \<noteq> CHR ''}''" "newline \<noteq> CHR '',''" "newline \<noteq> CHR '':''"
  by (simp_all add: newline_def)

lemma newline_free_render:
  "wf_json v \<Longrightarrow> newline \<notin> set (render (\<lambda>_. []) [] d v)"
  "\<forall>v \<in> set vs. wf_json v \<Longrightarrow> newline \<notin> set (render_elems (\<lambda>_. []) [] d vs)"
  "\<forall>kv \<in> set kvs. wf_json (snd kv) \<Longrightarrow> newline \<notin> set (render_members (\<lambda>_. []) [] d kvs)"
proof (induction "\<lambda>_ :: nat. [] :: string" "[] :: string" d v and "\<lambda>_ :: nat. [] :: string" "[] :: string" d vs
    and "\<lambda>_ :: nat. [] :: string" "[] :: string" d kvs rule: render_render_elems_render_members.induct)
qed (auto simp: newline_free_literal)

lemma ReadMessage_line:
  assumes "newline \<notin> set l" and "l \<noteq> []"
  shows "ReadMessage (l @ newline # rest) = (rest, DecodeMessage l)"
  using assms by (auto simp: ReadMessage_def Let_def takeWhile_append dropWhile_append)

definition wf_payload :: "json option \<Rightarrow> bool" where
  "wf_payload p \<longleftrightarrow> (case p of None \<Rightarrow> True | Some j \<Rightarrow> wf_json j)"

lemma DecodeMessage_Encode: "wf_payload p \<Longrightarrow> DecodeMessage (EncodeMessage k p) = Some (k, p)"
  by (cases p) (simp_all add: DecodeMessage_def EncodeMessage_def message_json_def message_fields_def wf_payload_def
      json_text.dec_enc dec_struct_def dec_string_def)

interpretation message_codec: codec "\<lambda>(k, p). EncodeMessage k p" DecodeMessage "\<lambda>(k, p). wf_payload p"
  by unfold_locales (auto simp: DecodeMessage_Encode)

lemma ReadMessage_Send: "wf_payload p \<Longrightarrow> ReadMessage (Send_text k p @ rest) = (rest, Some (k, p))"
proof -
  assume p: "wf_payload p"
  then have "wf_json (message_json \<lparr>msg_Kind = k, msg_Payload = p\<rparr>)"
    by (auto simp: message_json_def wf_payload_def split: option.splits)
  then have "newline \<notin> set (EncodeMessage k p)" and "EncodeMessage k p \<noteq> []"
    by (auto simp: EncodeMessage_def json_Marshal_def newline_free_render(1)) (simp add: message_json_def)
  then show ?thesis using p ReadMessage_line by (simp add: Send_text_def DecodeMessage_Encode)
qed

text \<open>What one side sends in any number of messages the other side reads back in order.\<close>

lemma read_messages_Send:
  assumes "list_all (\<lambda>(k, p). wf_payload p) ms"
  shows "read_messages (concat (map (\<lambda>(k, p). Send_text k p) ms)) = ms"
  using assms
proof (induction ms)
  case Nil
  then show ?case by (subst read_messages.simps) (simp add: ReadMessage_def)
next
  case (Cons m ms)
  then show ?case by (subst read_messages.simps) (auto simp: ReadMessage_Send split: prod.split)
qed

section \<open>Payloads\<close>

definition wf_block_ptr :: "Block option \<Rightarrow> bool" where
  "wf_block_ptr b \<longleftrightarrow> (case b of None \<Rightarrow> True | Some b \<Rightarrow> wf_block b)"

lemma dec_block_ptr: "wf_block_ptr b \<Longrightarrow> dec_ptr dec_block zero_block (block_ptr_json b) None = Some b"
  using dec_block_json by (cases b) (simp_all add: wf_block_ptr_def dec_ptr_def block_ptr_json_def block_json_def)

lemma dec_blocks_json [roundtrip_simps]:
  "list_all wf_block_ptr (bp_Blocks p) \<Longrightarrow> dec_blocks (blocks_json p) zero_blocks = Some p"
  using dec_enc_list [of "bp_Blocks p" "dec_ptr dec_block zero_block" block_ptr_json None "[]"]
  by (cases p) (simp add: dec_blocks_def blocks_json_def zero_blocks_def dec_struct_def dec_block_ptr list_all_iff)

lemma dec_hello_json [roundtrip_simps]:
  "length (hello_GenesisHash h) = 32 \<Longrightarrow> dec_hello (hello_json h) zero_hello = Some h"
  by (cases h) (simp add: dec_hello_def hello_json_def zero_hello_def dec_struct_def dec_string_def)

lemma dec_get_blocks_json [roundtrip_simps]: "dec_get_blocks (get_blocks_json g) zero_get_blocks = Some g"
  by (cases g) (simp add: dec_get_blocks_def get_blocks_json_def zero_get_blocks_def dec_struct_def)

lemma dec_peers_json [roundtrip_simps]: "dec_peers (peers_json p) zero_peers = Some p"
  using dec_enc_list [of "pp_Peers p" dec_string JStr "[]" "[]"]
  by (cases p) (simp add: dec_peers_def peers_json_def zero_peers_def dec_struct_def dec_string_def)

lemma wf_json_payloads [simp]:
  "wf_json (hello_json h)" "wf_json (get_blocks_json g)" "wf_json (blocks_json p)" "wf_json (peers_json q)"
  by (auto simp: hello_json_def get_blocks_json_def blocks_json_def peers_json_def block_ptr_json_def
      intro!: wf_json_enc_list split: option.split)

end
