(* ===== verification/Format_Properties.thy ===== *)
theory Format_Properties
  imports Ledger_Properties Wire
begin

text \<open>
  The properties of hashes, files and messages: what a transaction hash, a block hash and a Merkle
  root commit to, and that blocks are read back as they were written.
\<close>

section \<open>Hashes\<close>

lemma wf_tx_payload: "wf_json (tx_payload t)"
  by (simp add: tx_payload_def)

lemma wf_block_payload: "wf_json (block_payload cl b)"
  by (auto simp: block_payload_def)

text \<open>C27: two transactions with the same hash agree in sender, recipient, amount, fee and nonce, unless
  their payloads are a collision of the hash function: the signature covers all five fields.\<close>

theorem TxHash_binds:
  assumes "TxHash cl t = TxHash cl t'"
    and "inj_on (sha256_Sum256 cl) {bytes (json_Marshal (tx_payload t)), bytes (json_Marshal (tx_payload t'))}"
  shows "tx_From t = tx_From t' \<and> tx_To t = tx_To t' \<and> tx_Amount t = tx_Amount t' \<and> tx_Fee t = tx_Fee t' \<and>
    tx_Nonce t = tx_Nonce t'"
proof -
  have "bytes (json_Marshal (tx_payload t)) = bytes (json_Marshal (tx_payload t'))"
    using assms by (auto simp: TxHash_def HashBytes_def dest: inj_onD)
  then have "tx_payload t = tx_payload t'" using json_text.enc_inject wf_tx_payload by simp
  then show ?thesis by (simp add: tx_payload_def)
qed

theorem TxHash_binds_witness:
  "TxHash demo_crypto (demo_tx 5) = TxHash demo_crypto ((demo_tx 5)\<lparr>tx_Signature := []\<rparr>) \<and>
   tx_Amount (demo_tx 5) = tx_Amount ((demo_tx 5)\<lparr>tx_Signature := []\<rparr>)"
proof -
  have e: "TxHash demo_crypto (demo_tx 5) = TxHash demo_crypto ((demo_tx 5)\<lparr>tx_Signature := []\<rparr>)"
    by (simp add: TxHash_def tx_payload_def)
  have "tx_payload (demo_tx 5) = tx_payload ((demo_tx 5)\<lparr>tx_Signature := []\<rparr>)" by (simp add: tx_payload_def)
  then show ?thesis using e TxHash_binds [OF e] by simp
qed

text \<open>C28: two valid blocks with the same hash have the same height, timestamp, predecessor, Merkle root and
  producer and the same transaction hashes in the same order, unless their payloads collide; the
  block signature is not covered.\<close>

theorem BlockHash_binds:
  assumes "ValidateBlock cl b" and "ValidateBlock cl b'" and "blk_Hash b = blk_Hash b'"
    and "inj_on (sha256_Sum256 cl) {bytes (json_Marshal (block_payload cl b)), bytes (json_Marshal (block_payload cl b'))}"
  shows "blk_Height b = blk_Height b' \<and> blk_Timestamp b = blk_Timestamp b' \<and> blk_PreviousHash b = blk_PreviousHash b' \<and>
    blk_MerkleRoot b = blk_MerkleRoot b' \<and> blk_ValidatorAddress b = blk_ValidatorAddress b' \<and>
    map (TxHash cl) (blk_Transactions b) = map (TxHash cl) (blk_Transactions b')"
proof -
  have "BlockHash cl b = BlockHash cl b'"
    using assms(1-3) by (auto simp: ValidateBlock_def Let_def split: if_splits)
  then have "bytes (json_Marshal (block_payload cl b)) = bytes (json_Marshal (block_payload cl b'))"
    using assms(4) by (auto simp: BlockHash_def HashBytes_def dest: inj_onD)
  then have p: "block_payload cl b = block_payload cl b'" using json_text.enc_inject wf_block_payload by simp
  have "inj enc_array" by (rule injI) simp
  then show ?thesis using p by (simp add: block_payload_def txHashes_def inj_map_eq_map del: map_map)
qed

theorem BlockHash_binds_witness:
  "ValidateBlock demo_crypto (GenesisBlock demo_crypto alice) \<and>
   blk_ValidatorAddress (GenesisBlock demo_crypto alice) =
   blk_ValidatorAddress ((GenesisBlock demo_crypto alice)\<lparr>blk_Signature := [1]\<rparr>)"
proof -
  let ?g = "GenesisBlock demo_crypto alice"
  have "block_payload demo_crypto (?g\<lparr>blk_Signature := [1]\<rparr>) = block_payload demo_crypto ?g" by (simp add: block_payload_def)
  then show ?thesis
    using BlockHash_binds [of demo_crypto ?g "?g\<lparr>blk_Signature := [1]\<rparr>"] ValidateBlock_Genesis by simp
qed

text \<open>C29: the Merkle root commits to the list of transaction hashes: lists of the same length with the same
  root are equal, unless two inputs of the hash function met in the computation collide.\<close>

theorem MerkleRoot_binds:
  assumes "length xs = length ys" and "list_all (\<lambda>h. length h = 32) xs" and "list_all (\<lambda>h. length h = 32) ys"
    and "digest_size cl"
    and "inj_on (sha256_Sum256 cl) (set (merkle_inputs cl xs) \<union> set (merkle_inputs cl ys))"
    and "MerkleRoot cl xs = MerkleRoot cl ys"
  shows "xs = ys"
  using MerkleRoot_binding_lemma [OF assms(1-3) _ assms(5,6)] assms(4) by (simp add: digest_size_def)

lemma demo_digest_size: "digest_size demo_crypto"
  by (simp add: digest_size_def demo_crypto_def min_def)

definition leaf :: "byte \<Rightarrow> hash" where
  "leaf b = replicate 31 0 @ [b]"

theorem MerkleRoot_binds_witness:
  "MerkleRoot demo_crypto [leaf 3, leaf 1] \<noteq> MerkleRoot demo_crypto [leaf 3, leaf 2]"
proof
  let ?xs = "[leaf 3, leaf 1]" and ?ys = "[leaf 3, leaf 2]"
  let ?in = "[leaf 3 @ leaf 1, rev (leaf 1), leaf 3 @ leaf 2, rev (leaf 2)]"
  assume eq: "MerkleRoot demo_crypto ?xs = MerkleRoot demo_crypto ?ys"
  have m: "set (merkle_inputs demo_crypto ?xs) \<union> set (merkle_inputs demo_crypto ?ys) = set ?in"
    by (auto simp: merkle_inputs.simps demo_crypto_def HashBytes_def leaf_def)
  have "distinct (map (sha256_Sum256 demo_crypto) ?in)" by code_simp
  then have "inj_on (sha256_Sum256 demo_crypto) (set ?in)" by (simp only: distinct_map)
  moreover have "list_all (\<lambda>h. length h = 32) ?xs" "list_all (\<lambda>h. length h = 32) ?ys" by (simp_all add: leaf_def)
  ultimately have "?xs = ?ys"
    using MerkleRoot_binds [of ?xs ?ys demo_crypto, OF _ _ _ demo_digest_size _ eq] m by simp
  moreover have "leaf 1 \<noteq> leaf 2" by code_simp
  ultimately show False by simp
qed

text \<open>The root does not commit to the number of leaves: repeating the last leaf of an odd-length list of at
  least three gives the same root.\<close>

lemma MerkleRoot_duplicate:
  assumes "xs \<noteq> []" and "even (length xs)"
  shows "MerkleRoot cl (xs @ [x]) = MerkleRoot cl (xs @ [x, x])"
proof -
  have "merkle_level cl (xs @ [x]) = merkle_level cl (xs @ [x, x])"
    using assms(2) by (simp add: merkle_level_append)
  moreover have "length xs \<noteq> 0" using assms(1) by simp
  ultimately show ?thesis
    using MerkleRoot.simps [of cl "xs @ [x]"] MerkleRoot.simps [of cl "xs @ [x, x]"] by simp
qed

section \<open>Files and messages\<close>

text \<open>C31: a block written in either of the two file formats, or sent to a peer, is read back unchanged, and
  whatever text is read as a block has arrays of the right sizes.\<close>

theorem block_text_roundtrip:
  "(wf_block b \<longrightarrow> Unmarshal_block (json_Marshal (block_json b)) = Some b \<and>
      Unmarshal_block (json_MarshalIndent (block_json b)) = Some b) \<and>
   (Unmarshal_block txt = Some b' \<longrightarrow> wf_block b')"
  using Unmarshal_block_Marshal Unmarshal_block_wf by blast

theorem block_text_roundtrip_witness:
  "Unmarshal_block (json_Marshal (block_json (block_of [demo_tx 5]))) = Some (block_of [demo_tx 5])"
proof -
  have "length demo_sender = 20" by (simp add: demo_sender_def length_PubkeyToAddress demo_digest_size)
  then have "wf_block (block_of [demo_tx 5])"
    by (simp add: wf_block_def block_of_def zero_block_def wf_tx_def demo_tx_def pay_def bob_def miner_def)
  then show ?thesis using block_text_roundtrip by blast
qed

end
