(* ===== verification/Chain.thy ===== *)
theory Chain
  imports Core_Types Runtime "HOL-Library.List_Lexorder" "HOL-Library.Char_ord"
begin

text \<open>
  \<^verbatim>\<open>src/core/chain.go\<close> and \<^verbatim>\<open>src/core/genesis.go\<close>: blocks in one file per hash, the tip in
  \<^verbatim>\<open>chain.json\<close>, and the genesis file. A chain is bound to one data directory, which is part of
  its record; file names are relative to it. Every method takes the lock steps of the source: a call
  that would wait for a lock its own goroutine holds has the outcome \<open>Blocks\<close>.
\<close>

section \<open>The chain\<close>

record ChainMeta =
  cm_Height :: u64
  cm_LastHash :: hash

record Chain =
  ch_mu :: rwmutex
  ch_disk :: disk
  ch_cfg :: ChainConfig
  ch_Height :: u64
  ch_LastHash :: hash

definition block_file :: "hash \<Rightarrow> string" where
  "block_file h = ''blocks/'' @ Hash_Hex h @ ''.json''"

definition tmp_file :: "hash \<Rightarrow> string" where
  "tmp_file h = ''blocks/.tmp.'' @ Hash_Hex h @ ''.json''"

definition meta_json :: "ChainMeta \<Rightarrow> json" where
  "meta_json m = JObj [(''height'', enc_uint64 (cm_Height m)), (''last_hash'', enc_array (cm_LastHash m))]"

definition meta_fields :: "(string \<times> ChainMeta decoder) list" where
  "meta_fields =
     [(''height'', \<lambda>j m. map_option (\<lambda>v. m\<lparr>cm_Height := v\<rparr>) (dec_uint64 j (cm_Height m))),
      (''last_hash'', \<lambda>j m. map_option (\<lambda>v. m\<lparr>cm_LastHash := v\<rparr>) (dec_array j (cm_LastHash m)))]"

definition zero_meta :: ChainMeta where
  "zero_meta = \<lparr>cm_Height = 0, cm_LastHash = zero_hash\<rparr>"

definition Unmarshal_meta :: "string \<Rightarrow> ChainMeta option" where
  "Unmarshal_meta s = Option.bind (json_Unmarshal s) (\<lambda>j. dec_struct meta_fields j zero_meta)"

definition NewChain :: "disk \<Rightarrow> ChainConfig option \<Rightarrow> io_error + Chain" where
  "NewChain d cfg =
     (let cfg = (case cfg of None \<Rightarrow> DefaultChainConfig | Some c \<Rightarrow> c);
          c = \<lparr>ch_mu = Unlocked, ch_disk = d, ch_cfg = cfg, ch_Height = 0, ch_LastHash = zero_hash\<rparr>
      in case os_MkdirAll d ''blocks'' of
           Some e \<Rightarrow> Inl e
         | None \<Rightarrow>
             (case os_ReadFile d ''chain.json'' of
                NotExist \<Rightarrow> Inr c
              | ReadFailed \<Rightarrow> Inl IOError
              | Content s \<Rightarrow>
                  (case Unmarshal_meta s of
                     None \<Rightarrow> Inl JSONError
                   | Some m \<Rightarrow> Inr (c\<lparr>ch_Height := cm_Height m, ch_LastHash := cm_LastHash m\<rparr>))))"

section \<open>Locking\<close>

definition chain_RLock :: "Chain \<Rightarrow> (Chain, unit) outcome" where
  "chain_RLock c = (case rw_RLock (ch_mu c) of None \<Rightarrow> Blocks c | Some m \<Rightarrow> Returns (c\<lparr>ch_mu := m\<rparr>) ())"

definition chain_RUnlock :: "Chain \<Rightarrow> Chain" where
  "chain_RUnlock c = c\<lparr>ch_mu := rw_RUnlock (ch_mu c)\<rparr>"

definition chain_Lock :: "Chain \<Rightarrow> (Chain, unit) outcome" where
  "chain_Lock c = (case rw_Lock (ch_mu c) of None \<Rightarrow> Blocks c | Some m \<Rightarrow> Returns (c\<lparr>ch_mu := m\<rparr>) ())"

definition chain_Unlock :: "Chain \<Rightarrow> Chain" where
  "chain_Unlock c = c\<lparr>ch_mu := rw_Unlock (ch_mu c)\<rparr>"

section \<open>Operations\<close>

definition Chain_Save :: "Chain \<Rightarrow> (Chain, io_error option) outcome" where
  "Chain_Save c = and_then (chain_RLock c) (\<lambda>c _.
     let (d, err) = os_WriteFile (ch_disk c) ''chain.json''
           (json_MarshalIndent (meta_json \<lparr>cm_Height = ch_Height c, cm_LastHash = ch_LastHash c\<rparr>))
     in Returns (chain_RUnlock (c\<lparr>ch_disk := d\<rparr>)) err)"

definition AppendBlock :: "Chain \<Rightarrow> Block \<Rightarrow> (Chain, io_error option) outcome" where
  "AppendBlock c b = and_then (chain_Lock c) (\<lambda>c _.
     case os_WriteFile (ch_disk c) (tmp_file (blk_Hash b)) (json_Marshal (block_json b)) of
       (d, Some e) \<Rightarrow> Returns (chain_Unlock (c\<lparr>ch_disk := d\<rparr>)) (Some e)
     | (d, None) \<Rightarrow>
         (case os_Rename d (tmp_file (blk_Hash b)) (block_file (blk_Hash b)) of
            (d, Some e) \<Rightarrow>
              Returns (chain_Unlock (c\<lparr>ch_disk := os_Remove d (tmp_file (blk_Hash b))\<rparr>)) (Some e)
          | (d, None) \<Rightarrow>
              Chain_Save (chain_Unlock (c\<lparr>ch_disk := d, ch_Height := blk_Height b, ch_LastHash := blk_Hash b\<rparr>))))"

definition read_block :: "disk \<Rightarrow> hash \<Rightarrow> io_error + Block" where
  "read_block d h = (case os_ReadFile d (block_file h) of
     NotExist \<Rightarrow> Inl NotExistError
   | ReadFailed \<Rightarrow> Inl IOError
   | Content s \<Rightarrow> (case Unmarshal_block s of None \<Rightarrow> Inl JSONError | Some b \<Rightarrow> Inr b))"

definition GetBlock :: "Chain \<Rightarrow> hash \<Rightarrow> (Chain, io_error + Block) outcome" where
  "GetBlock c h = and_then (chain_RLock c) (\<lambda>c _. Returns (chain_RUnlock c) (read_block (ch_disk c) h))"

definition LastBlock :: "Chain \<Rightarrow> (Chain, io_error + Block option) outcome" where
  "LastBlock c = and_then (chain_RLock c) (\<lambda>c _.
     let last = ch_LastHash c; c = chain_RUnlock c
     in if Hash_IsZero last then Returns c (Inr None)
        else and_then (GetBlock c last) (\<lambda>c r. Returns c (case r of Inl e \<Rightarrow> Inl e | Inr b \<Rightarrow> Inr (Some b))))"

definition Chain_Config :: "Chain \<Rightarrow> ChainConfig" where
  "Chain_Config c = ch_cfg c"

definition HasBlock :: "Chain \<Rightarrow> hash \<Rightarrow> (Chain, bool) outcome" where
  "HasBlock c h = and_then (GetBlock c h) (\<lambda>c r. Returns c (case r of Inl e \<Rightarrow> False | Inr b \<Rightarrow> True))"

text \<open>The walk from the tip towards the genesis block; \<open>None\<close> if it never ends.\<close>

partial_function (option) walk_back :: "disk \<Rightarrow> u64 \<Rightarrow> hash \<Rightarrow> hash list \<Rightarrow> (io_error + hash list) option" where
  "walk_back d fromHeight h hashes =
     (case read_block d h of
        Inl e \<Rightarrow> Some (Inl e)
      | Inr b \<Rightarrow>
          if blk_Height b < fromHeight then Some (Inr hashes)
          else if blk_Height b = fromHeight \<or> Hash_IsZero (blk_PreviousHash b) then Some (Inr (hashes @ [h]))
          else walk_back d fromHeight (blk_PreviousHash b) (hashes @ [h]))"

fun load_blocks :: "disk \<Rightarrow> hash list \<Rightarrow> Block list \<Rightarrow> io_error + Block list" where
  "load_blocks d [] out = Inr out"
| "load_blocks d (h # hs) out =
     (case read_block d h of Inl e \<Rightarrow> Inl e | Inr b \<Rightarrow> load_blocks d hs (out @ [b]))"

definition GetBlocksFrom :: "Chain \<Rightarrow> u64 \<Rightarrow> int \<Rightarrow> (Chain, io_error + Block list) outcome" where
  "GetBlocksFrom c fromHeight mx =
     (let mx = (if mx \<le> 0 then 10000 else mx)
      in and_then (chain_RLock c) (\<lambda>c _.
         let tipHash = ch_LastHash c; height = ch_Height c; c = chain_RUnlock c
         in if Hash_IsZero tipHash \<or> height < fromHeight then Returns c (Inr [])
            else case walk_back (ch_disk c) fromHeight tipHash [] of
              None \<Rightarrow> Blocks c
            | Some (Inl e) \<Rightarrow> Returns c (Inl e)
            | Some (Inr hashes) \<Rightarrow>
                (let hashes = (if int (length hashes) > mx then drop (length hashes - nat mx) hashes else hashes)
                 in Returns c (load_blocks (ch_disk c) (rev hashes) []))))"

text \<open>The write lock is held (until the deferred unlock) when \<^verbatim>\<open>Save\<close> asks for the read lock.\<close>

definition SetTip :: "Chain \<Rightarrow> Block \<Rightarrow> (Chain, io_error option) outcome" where
  "SetTip c b = and_then (chain_Lock c) (\<lambda>c _.
     let c = c\<lparr>ch_Height := blk_Height b, ch_LastHash := blk_Hash b\<rparr>
     in and_then (Chain_Save c) (\<lambda>c err. Returns (chain_Unlock c) err))"

definition WriteBlock :: "Chain \<Rightarrow> Block \<Rightarrow> (Chain, io_error option) outcome" where
  "WriteBlock c b = and_then (chain_Lock c) (\<lambda>c _.
     let (d, err) = os_WriteFile (ch_disk c) (block_file (blk_Hash b)) (json_MarshalIndent (block_json b))
     in Returns (chain_Unlock (c\<lparr>ch_disk := d\<rparr>)) err)"

definition BlocksFromGenesisToTip :: "Chain \<Rightarrow> (Chain, io_error + Block list) outcome" where
  "BlocksFromGenesisToTip c = GetBlocksFrom c 0 0"

section \<open>The genesis file\<close>

record genesisFile =
  gf_Block :: "Block option"
  gf_Allocation :: GenesisAllocation
  gf_Validators :: "ValidatorGenesis list"

definition validator_json :: "ValidatorGenesis \<Rightarrow> json" where
  "validator_json v = JObj [(''address'', JStr (vg_Address v)), (''stake'', enc_uint64 (vg_Stake v))]"

definition validator_fields :: "(string \<times> ValidatorGenesis decoder) list" where
  "validator_fields =
     [(''address'', \<lambda>j v. map_option (\<lambda>x. v\<lparr>vg_Address := x\<rparr>) (dec_string j (vg_Address v))),
      (''stake'', \<lambda>j v. map_option (\<lambda>x. v\<lparr>vg_Stake := x\<rparr>) (dec_uint64 j (vg_Stake v)))]"

definition zero_validator :: ValidatorGenesis where
  "zero_validator = \<lparr>vg_Address = [], vg_Stake = 0\<rparr>"

text \<open>Map keys are written in sorted order; reading builds the map entry by entry.\<close>

definition alloc_json :: "GenesisAllocation \<Rightarrow> json" where
  "alloc_json al = (if al = [] then JNull else JObj (map (\<lambda>(k, v). (k, enc_uint64 v)) (sort_key fst al)))"

fun dec_alloc_members :: "(string \<times> json) list \<Rightarrow> GenesisAllocation \<Rightarrow> GenesisAllocation option" where
  "dec_alloc_members [] al = Some al"
| "dec_alloc_members ((k, j) # kvs) al =
     (case dec_uint64 j 0 of None \<Rightarrow> None | Some v \<Rightarrow> dec_alloc_members kvs (AList.update k v al))"

definition dec_alloc :: "GenesisAllocation decoder" where
  "dec_alloc j old = (case j of JNull \<Rightarrow> Some [] | JObj kvs \<Rightarrow> dec_alloc_members kvs old | _ \<Rightarrow> None)"

definition genesis_json :: "genesisFile \<Rightarrow> json" where
  "genesis_json g = JObj
     ([(''block'', case gf_Block g of None \<Rightarrow> JNull | Some b \<Rightarrow> block_json b),
       (''allocation'', alloc_json (gf_Allocation g))] @
      (if gf_Validators g = [] then [] else [(''validators'', enc_list validator_json (gf_Validators g))]))"

definition genesis_fields :: "(string \<times> genesisFile decoder) list" where
  "genesis_fields =
     [(''block'', \<lambda>j g. map_option (\<lambda>x. g\<lparr>gf_Block := x\<rparr>) (dec_ptr dec_block zero_block j (gf_Block g))),
      (''allocation'', \<lambda>j g. map_option (\<lambda>x. g\<lparr>gf_Allocation := x\<rparr>) (dec_alloc j (gf_Allocation g))),
      (''validators'', \<lambda>j g. map_option (\<lambda>x. g\<lparr>gf_Validators := x\<rparr>)
          (dec_list (dec_struct validator_fields) zero_validator j (gf_Validators g)))]"

definition zero_genesis :: genesisFile where
  "zero_genesis = \<lparr>gf_Block = None, gf_Allocation = [], gf_Validators = []\<rparr>"

definition WriteGenesisFile ::
  "crypto_lib \<Rightarrow> disk \<Rightarrow> ChainConfig \<Rightarrow> address \<Rightarrow> ValidatorGenesis list \<Rightarrow> disk \<times> io_error option" where
  "WriteGenesisFile cl d cfg validator validators =
     (case os_MkdirAll d [] of
        Some e \<Rightarrow> (d, Some e)
      | None \<Rightarrow>
          (let g = GenesisBlock cl validator
           in os_WriteFile d ''genesis.json'' (json_MarshalIndent (genesis_json
                \<lparr>gf_Block = Some g, gf_Allocation = cfg_Genesis cfg, gf_Validators = validators\<rparr>))))"

definition LoadGenesisFromFile :: "disk \<Rightarrow> io_error + genesisFile" where
  "LoadGenesisFromFile d = (case os_ReadFile d ''genesis.json'' of
     NotExist \<Rightarrow> Inl NotExistError
   | ReadFailed \<Rightarrow> Inl IOError
   | Content s \<Rightarrow>
       (case Option.bind (json_Unmarshal s) (\<lambda>j. dec_struct genesis_fields j zero_genesis) of
          None \<Rightarrow> Inl JSONError | Some g \<Rightarrow> Inr g))"

definition GetGenesis :: "Chain \<Rightarrow> io_error + Block option" where
  "GetGenesis c = (case LoadGenesisFromFile (ch_disk c) of Inl e \<Rightarrow> Inl e | Inr g \<Rightarrow> Inr (gf_Block g))"

text \<open>The scan meets the files of \<^verbatim>\<open>blocks/\<close> in the order of their names.\<close>

definition dir_entries :: "disk \<Rightarrow> string list" where
  "dir_entries d = sort (map (drop 7) (filter (\<lambda>n. take 7 n = ''blocks/'') (map fst (dk_files d))))"

definition is_json_name :: "string \<Rightarrow> bool" where
  "is_json_name n \<longleftrightarrow> 5 \<le> length n \<and> drop (length n - 5) n = ''.json''"

fun scan_height :: "disk \<Rightarrow> u64 \<Rightarrow> string list \<Rightarrow> io_error + Block option" where
  "scan_height d height [] = Inl NotExistError"
| "scan_height d height (n # ns) =
     (if \<not> is_json_name n then scan_height d height ns
      else case os_ReadFile d (''blocks/'' @ n) of
        Content s \<Rightarrow>
          (case Unmarshal_block s of
             None \<Rightarrow> scan_height d height ns
           | Some b \<Rightarrow> if blk_Height b = height then Inr (Some b) else scan_height d height ns)
      | _ \<Rightarrow> scan_height d height ns)"

definition GetBlockByHeight :: "Chain \<Rightarrow> u64 \<Rightarrow> io_error + Block option" where
  "GetBlockByHeight c height =
     (if height = 0 then GetGenesis c
      else if dk_fault (ch_disk c) (OpReadDir ''blocks'') then Inl IOError
      else scan_height (ch_disk c) height (dir_entries (ch_disk c)))"

end
