(* ===== verification/Chain_Laws.thy ===== *)
theory Chain_Laws
  imports Chain
begin

text \<open>
  Properties of the block store: what is written is read back, appending is atomic for every pattern
  of failing system calls, the walk behind \<^verbatim>\<open>GetBlocksFrom\<close> ends and returns the requested
  segment of a linked chain, and \<^verbatim>\<open>SetTip\<close> never returns.
\<close>

section \<open>Locks\<close>

lemma chain_lock_simps [simp]:
  "ch_mu c = Unlocked \<Longrightarrow> chain_RLock c = Returns (c\<lparr>ch_mu := ReadLocked 1\<rparr>) ()"
  "ch_mu c = Unlocked \<Longrightarrow> chain_Lock c = Returns (c\<lparr>ch_mu := WriteLocked\<rparr>) ()"
  "ch_mu c = WriteLocked \<Longrightarrow> chain_RLock c = Blocks c"
  "ch_mu c = WriteLocked \<Longrightarrow> chain_Lock c = Blocks c"
  by (simp_all add: chain_RLock_def chain_Lock_def)

lemma chain_unlock_simps [simp]:
  "chain_RUnlock (c\<lparr>ch_mu := ReadLocked 1\<rparr>) = c\<lparr>ch_mu := Unlocked\<rparr>"
  "chain_Unlock (c\<lparr>ch_mu := WriteLocked\<rparr>) = c\<lparr>ch_mu := Unlocked\<rparr>"
  by (simp_all add: chain_RUnlock_def chain_Unlock_def)

lemma mu_same [simp]: "ch_mu c = m \<Longrightarrow> c\<lparr>ch_mu := m\<rparr> = c"
  by (cases c) simp

lemma SetTip_blocks:
  "ch_mu c = Unlocked \<Longrightarrow>
     SetTip c b = Blocks (c\<lparr>ch_mu := WriteLocked, ch_Height := blk_Height b, ch_LastHash := blk_Hash b\<rparr>)"
  by (simp add: SetTip_def Chain_Save_def)

lemma GetBlock_free: "ch_mu c = Unlocked \<Longrightarrow> GetBlock c h = Returns c (read_block (ch_disk c) h)"
  by (simp add: GetBlock_def chain_RUnlock_def)

lemma HasBlock_free:
  "ch_mu c = Unlocked \<Longrightarrow> HasBlock c h = Returns c (case read_block (ch_disk c) h of Inl _ \<Rightarrow> False | Inr _ \<Rightarrow> True)"
  by (simp add: HasBlock_def GetBlock_free)

definition tip_block :: "Chain \<Rightarrow> io_error + Block option" where
  "tip_block c = (if Hash_IsZero (ch_LastHash c) then Inr None
     else case read_block (ch_disk c) (ch_LastHash c) of Inl e \<Rightarrow> Inl e | Inr b \<Rightarrow> Inr (Some b))"

lemma LastBlock_free: "ch_mu c = Unlocked \<Longrightarrow> LastBlock c = Returns c (tip_block c)"
  by (auto simp: LastBlock_def chain_RUnlock_def GetBlock_free tip_block_def Let_def)

lemma Chain_Save_free:
  "ch_mu c = Unlocked \<Longrightarrow> Chain_Save c =
     (case os_WriteFile (ch_disk c) ''chain.json''
        (json_MarshalIndent (meta_json \<lparr>cm_Height = ch_Height c, cm_LastHash = ch_LastHash c\<rparr>)) of
        (d, err) \<Rightarrow> Returns (c\<lparr>ch_disk := d\<rparr>) err)"
  by (simp add: Chain_Save_def chain_RUnlock_def split: prod.split)

lemma WriteBlock_free:
  "ch_mu c = Unlocked \<Longrightarrow> WriteBlock c b =
     (case os_WriteFile (ch_disk c) (block_file (blk_Hash b)) (json_MarshalIndent (block_json b)) of
        (d, err) \<Rightarrow> Returns (c\<lparr>ch_disk := d\<rparr>) err)"
  by (simp add: WriteBlock_def chain_Unlock_def split: prod.split)

section \<open>File names\<close>

lemma hex_no_dot: "CHR ''.'' \<notin> set (hex_EncodeToString bs)"
proof -
  have "hex_digit n \<noteq> CHR ''.''" if "n < 16" for n
  proof
    assume "hex_digit n = CHR ''.''"
    then show False using hex_value_digit [OF that] by (simp add: hex_value_def)
  qed
  moreover have "unat b div 16 < 16" for b :: byte using unat_byte_lt [of b] by linarith
  ultimately show ?thesis unfolding hex_EncodeToString_def by (induction bs) (auto dest: sym)
qed

lemma block_file_inject [simp]: "block_file h = block_file h' \<longleftrightarrow> h = h'"
  by (simp add: block_file_def Hash_Hex_def hex.enc_inject)

lemma tmp_not_block [simp]: "tmp_file h \<noteq> block_file h'" "block_file h' \<noteq> tmp_file h"
proof -
  have "CHR ''.'' # s \<noteq> hex_EncodeToString h' @ ''.json''" if "length s > 4" for s
    using hex_no_dot [of h'] that by (cases "hex_EncodeToString h'") auto
  from this [of "''tmp.'' @ Hash_Hex h @ ''.json''"]
  show "tmp_file h \<noteq> block_file h'" "block_file h' \<noteq> tmp_file h"
    by (simp_all add: tmp_file_def block_file_def Hash_Hex_def del: append_same_eq)
qed

lemma other_files [simp]:
  "block_file h \<noteq> ''chain.json''" "''chain.json'' \<noteq> block_file h" "tmp_file h \<noteq> ''chain.json''"
  "''chain.json'' \<noteq> tmp_file h" "block_file h \<noteq> ''genesis.json''" "tmp_file h \<noteq> ''genesis.json''"
  by (simp_all add: block_file_def tmp_file_def)

section \<open>The block store\<close>

lemma find_member: "find P (rev xs) = Some x \<Longrightarrow> x \<in> set xs"
  by (metis find_Some_iff length_rev nth_mem set_rev)

lemma find_pred: "find P xs = Some x \<Longrightarrow> P x"
  by (auto simp: find_Some_iff)

text \<open>The contract of a store of blocks by hash, as the reorganisation and the handlers use it.\<close>

locale block_store =
  fixes get :: "'s \<Rightarrow> 'h \<Rightarrow> 'b option"
    and put :: "'b \<Rightarrow> 's \<Rightarrow> 's"
    and hash_of :: "'b \<Rightarrow> 'h"
    and inv :: "'s \<Rightarrow> bool"
    and ok :: "'b \<Rightarrow> bool"
  assumes get_put: "inv s \<Longrightarrow> ok b \<Longrightarrow> get (put b s) h = (if h = hash_of b then Some b else get s h)"
    and put_inv: "inv s \<Longrightarrow> inv (put b s)"
begin

lemma get_put_all:
  assumes "inv s" and "list_all ok bs"
  shows "get (fold put bs s) h = (case find (\<lambda>b. hash_of b = h) (rev bs) of Some b \<Rightarrow> Some b | None \<Rightarrow> get s h)"
proof -
  have app: "find P (xs @ ys) = (case find P xs of Some x \<Rightarrow> Some x | None \<Rightarrow> find P ys)" for P and xs ys :: "'b list"
    by (induction xs) auto
  from assms show ?thesis
  proof (induction bs arbitrary: s)
    case (Cons b bs)
    then show ?case using get_put [of s b h] put_inv [of s b] by (auto simp: app split: option.split)
  qed simp
qed

lemma get_put_member:
  assumes "inv s" and "list_all ok bs" and "b \<in> set bs" and "inj_on hash_of (set bs)"
  shows "get (fold put bs s) (hash_of b) = Some b"
proof -
  obtain b' where b': "find (\<lambda>x. hash_of x = hash_of b) (rev bs) = Some b'"
    using assms(3) by (cases "find (\<lambda>x. hash_of x = hash_of b) (rev bs)") (auto simp: find_None_iff)
  have "b' \<in> set bs" and "hash_of b' = hash_of b" using find_member [OF b'] find_pred [OF b'] by auto
  with assms(3,4) have "b' = b" by (auto dest: inj_onD)
  with b' get_put_all [OF assms(1,2)] show ?thesis by simp
qed

end

definition stored_block :: "disk \<Rightarrow> hash \<Rightarrow> Block option" where
  "stored_block d h = (case read_block d h of Inl _ \<Rightarrow> None | Inr b \<Rightarrow> Some b)"

definition store_block :: "Block \<Rightarrow> disk \<Rightarrow> disk" where
  "store_block b d = fst (os_WriteFile d (block_file (blk_Hash b)) (json_MarshalIndent (block_json b)))"

lemma read_block_update:
  assumes "healthy d" and "wf_block b" and "c = json_Marshal (block_json b) \<or> c = json_MarshalIndent (block_json b)"
  shows "read_block (d\<lparr>dk_files := AList.update (block_file (blk_Hash b)) c (dk_files d)\<rparr>) h =
    (if h = blk_Hash b then Inr b else read_block d h)"
  using assms by (auto simp: read_block_def Unmarshal_block_Marshal healthy_def)

interpretation disk_store: block_store stored_block store_block blk_Hash healthy wf_block
  by unfold_locales (auto simp: stored_block_def store_block_def os_WriteFile_healthy read_block_update)

section \<open>Appending\<close>

lemma read_block_cong:
  "os_ReadFile d (block_file h) = os_ReadFile d' (block_file h) \<Longrightarrow> read_block d h = read_block d' h"
  by (simp add: read_block_def)

text \<open>The three ways an append can end.\<close>

lemma AppendBlock_cases:
  assumes "ch_mu c = Unlocked"
  obtains (tmp_failed) d e where "AppendBlock c b = Returns (c\<lparr>ch_disk := d\<rparr>) (Some e)"
      and "os_WriteFile (ch_disk c) (tmp_file (blk_Hash b)) (json_Marshal (block_json b)) = (d, Some e)"
  | (rename_failed) d1 d e where "AppendBlock c b = Returns (c\<lparr>ch_disk := os_Remove d (tmp_file (blk_Hash b))\<rparr>) (Some e)"
      and "os_WriteFile (ch_disk c) (tmp_file (blk_Hash b)) (json_Marshal (block_json b)) = (d1, None)"
      and "os_Rename d1 (tmp_file (blk_Hash b)) (block_file (blk_Hash b)) = (d, Some e)"
  | (saved) d1 d2 d err where "AppendBlock c b =
        Returns (c\<lparr>ch_disk := d, ch_Height := blk_Height b, ch_LastHash := blk_Hash b\<rparr>) err"
      and "os_WriteFile (ch_disk c) (tmp_file (blk_Hash b)) (json_Marshal (block_json b)) = (d1, None)"
      and "os_Rename d1 (tmp_file (blk_Hash b)) (block_file (blk_Hash b)) = (d2, None)"
      and "os_WriteFile d2 ''chain.json'' (json_MarshalIndent (meta_json
             \<lparr>cm_Height = blk_Height b, cm_LastHash = blk_Hash b\<rparr>)) = (d, err)"
proof -
  obtain d1 e1 where w: "os_WriteFile (ch_disk c) (tmp_file (blk_Hash b)) (json_Marshal (block_json b)) = (d1, e1)"
    by (cases "os_WriteFile (ch_disk c) (tmp_file (blk_Hash b)) (json_Marshal (block_json b))")
  obtain d2 e2 where r: "os_Rename d1 (tmp_file (blk_Hash b)) (block_file (blk_Hash b)) = (d2, e2)"
    by (cases "os_Rename d1 (tmp_file (blk_Hash b)) (block_file (blk_Hash b))")
  show thesis
  proof (cases e1)
    case (Some e)
    then show thesis using tmp_failed [of d1 e] assms w by (simp add: AppendBlock_def chain_Unlock_def)
  next
    case None
    note e1 = this
    show thesis
    proof (cases e2)
      case (Some e)
      then show thesis using rename_failed [of d2 e d1] assms w r e1 by (simp add: AppendBlock_def chain_Unlock_def)
    next
      case None
      obtain d err where s: "os_WriteFile d2 ''chain.json'' (json_MarshalIndent (meta_json
             \<lparr>cm_Height = blk_Height b, cm_LastHash = blk_Hash b\<rparr>)) = (d, err)" by fastforce
      show thesis
        using saved [of d err d1 d2] assms w r e1 None s
        by (simp add: AppendBlock_def chain_Unlock_def Chain_Save_free)
    qed
  qed
qed

lemma os_Remove_other: "q \<noteq> p \<Longrightarrow> os_ReadFile (os_Remove d p) q = os_ReadFile d q"
  by (simp add: os_ReadFile_def os_Remove_def delete_conv')

lemma os_Rename_failed: "os_Rename d p q = (d', Some e) \<Longrightarrow> d' = d"
  by (auto simp: os_Rename_def split: if_splits option.splits)

lemma os_Rename_other:
  "os_Rename d p q = (d', None) \<Longrightarrow> r \<noteq> p \<Longrightarrow> r \<noteq> q \<Longrightarrow> os_ReadFile d' r = os_ReadFile d r"
  by (auto simp: os_Rename_def os_ReadFile_def update_conv' delete_conv' split: if_splits option.splits)

lemma os_Rename_target:
  assumes "os_WriteFile d p c = (d1, None)" and "os_Rename d1 p q = (d2, None)"
  shows "os_ReadFile d2 q = (if dk_fault d (OpRead q) then ReadFailed else Content c)"
  using assms by (auto simp: os_WriteFile_def os_Rename_def os_ReadFile_def update_conv' split: if_splits option.splits)

lemma AppendBlock_atomic_lemma:
  assumes free: "ch_mu c = Unlocked" and wf: "wf_block b"
  obtains c' err where "AppendBlock c b = Returns c' err" and "ch_mu c' = Unlocked" and "ch_cfg c' = ch_cfg c"
    and "\<And>h. h \<noteq> blk_Hash b \<Longrightarrow> read_block (ch_disk c') h = read_block (ch_disk c) h"
    and "err \<noteq> None \<and> ch_Height c' = ch_Height c \<and> ch_LastHash c' = ch_LastHash c \<and>
         read_block (ch_disk c') (blk_Hash b) = read_block (ch_disk c) (blk_Hash b) \<and>
         os_ReadFile (ch_disk c') ''chain.json'' = os_ReadFile (ch_disk c) ''chain.json'' \<or>
         ch_Height c' = blk_Height b \<and> ch_LastHash c' = blk_Hash b \<and>
         (\<not> dk_fault (ch_disk c) (OpRead (block_file (blk_Hash b))) \<longrightarrow>
            read_block (ch_disk c') (blk_Hash b) = Inr b) \<and>
         (err = None \<and> \<not> dk_fault (ch_disk c) (OpRead ''chain.json'') \<longrightarrow>
            os_ReadFile (ch_disk c') ''chain.json'' = Content (json_MarshalIndent (meta_json
              \<lparr>cm_Height = blk_Height b, cm_LastHash = blk_Hash b\<rparr>)))"
  using free
proof (cases rule: AppendBlock_cases [of c b])
  case (tmp_failed d e)
  have "read_block d h = read_block (ch_disk c) h" for h
    using os_WriteFile_other [OF tmp_failed(2)] by (intro read_block_cong) auto
  then show thesis using that [OF tmp_failed(1)] os_WriteFile_other [OF tmp_failed(2), of "''chain.json''"] free by simp
next
  case (rename_failed d1 d e)
  have "read_block (os_Remove d (tmp_file (blk_Hash b))) h = read_block (ch_disk c) h" for h
    using os_WriteFile_other [OF rename_failed(2)] os_Rename_failed [OF rename_failed(3)]
    by (intro read_block_cong) (simp add: os_Remove_other)
  moreover have "os_ReadFile (os_Remove d (tmp_file (blk_Hash b))) ''chain.json'' = os_ReadFile (ch_disk c) ''chain.json''"
    using os_WriteFile_other [OF rename_failed(2)] os_Rename_failed [OF rename_failed(3)] by (simp add: os_Remove_other)
  ultimately show thesis using that [OF rename_failed(1)] free by simp
next
  case (saved d1 d2 d err)
  have "read_block d h = read_block (ch_disk c) h" if "h \<noteq> blk_Hash b" for h
    using os_WriteFile_other [OF saved(2), of "block_file h"] os_WriteFile_other [OF saved(4), of "block_file h"]
      os_Rename_other [OF saved(3), of "block_file h"] that
    by (intro read_block_cong) auto
  moreover have "read_block d (blk_Hash b) = Inr b" if "\<not> dk_fault (ch_disk c) (OpRead (block_file (blk_Hash b)))"
    using os_WriteFile_other [OF saved(4), of "block_file (blk_Hash b)"] os_Rename_target [OF saved(2,3)] wf that
    by (simp add: read_block_def Unmarshal_block_Marshal)
  moreover have "os_ReadFile d ''chain.json'' = Content (json_MarshalIndent (meta_json
      \<lparr>cm_Height = blk_Height b, cm_LastHash = blk_Hash b\<rparr>))" if "err = None" "\<not> dk_fault (ch_disk c) (OpRead ''chain.json'')"
    using saved(2-4) that by (auto simp: os_WriteFile_def os_Rename_def os_ReadFile_def update_conv' split: if_splits option.splits)
  ultimately show thesis using that [OF saved(1)] free by simp
qed

lemma AppendBlock_healthy:
  assumes "ch_mu c = Unlocked" and "healthy (ch_disk c)" and "wf_block b"
  obtains d where "AppendBlock c b = Returns (c\<lparr>ch_disk := d, ch_Height := blk_Height b, ch_LastHash := blk_Hash b\<rparr>) None"
    and "healthy d"
    and "os_ReadFile d ''chain.json'' = Content (json_MarshalIndent (meta_json
             \<lparr>cm_Height = blk_Height b, cm_LastHash = blk_Hash b\<rparr>))"
    and "\<And>h. read_block d h = (if h = blk_Hash b then Inr b else read_block (ch_disk c) h)"
    and "\<And>p. p \<notin> {block_file (blk_Hash b), tmp_file (blk_Hash b), ''chain.json''} \<Longrightarrow>
           os_ReadFile d p = os_ReadFile (ch_disk c) p"
  using assms(1)
proof (cases rule: AppendBlock_cases [of c b])
  case (saved d1 d2 d err)
  have d1: "d1 = ch_disk c\<lparr>dk_files := dk_files d1\<rparr>" "healthy d1"
    using saved(2) assms(2) by (auto simp: os_WriteFile_healthy)
  have d2: "healthy d2" using saved(3) d1(2) by (auto simp: os_Rename_def split: if_splits option.splits)
  then have d: "err = None" "d = d2\<lparr>dk_files := AList.update ''chain.json'' (json_MarshalIndent (meta_json
             \<lparr>cm_Height = blk_Height b, cm_LastHash = blk_Hash b\<rparr>)) (dk_files d2)\<rparr>"
    using saved(4) by (auto simp: os_WriteFile_healthy)
  have "read_block d h = read_block (ch_disk c) h" if "h \<noteq> blk_Hash b" for h
    using os_WriteFile_other [OF saved(2), of "block_file h"] os_WriteFile_other [OF saved(4), of "block_file h"]
      os_Rename_other [OF saved(3), of "block_file h"] that
    by (intro read_block_cong) auto
  moreover have "read_block d (blk_Hash b) = Inr b"
    using os_WriteFile_other [OF saved(4), of "block_file (blk_Hash b)"] os_Rename_target [OF saved(2,3)] assms(2,3)
    by (simp add: read_block_def Unmarshal_block_Marshal healthy_def)
  moreover have "os_ReadFile d p = os_ReadFile (ch_disk c) p"
    if "p \<notin> {block_file (blk_Hash b), tmp_file (blk_Hash b), ''chain.json''}" for p
    using os_WriteFile_other [OF saved(2), of p] os_WriteFile_other [OF saved(4), of p]
      os_Rename_other [OF saved(3), of p] that by simp
  ultimately show thesis
    using that [of d] saved(1) d d2 by (simp add: healthy_def)
next
  case (rename_failed d1 d e)
  then show thesis using assms(2) by (auto simp: os_WriteFile_healthy os_Rename_def healthy_def update_conv' split: if_splits option.splits)
qed (simp add: assms os_WriteFile_healthy)

section \<open>The tip file\<close>

definition wf_meta :: "ChainMeta \<Rightarrow> bool" where
  "wf_meta m \<longleftrightarrow> length (cm_LastHash m) = 32"

lemma Unmarshal_meta_json [roundtrip_simps]:
  assumes "wf_meta m"
  shows "Unmarshal_meta (json_MarshalIndent (meta_json m)) = Some m"
proof -
  have "wf_json (meta_json m)" by (simp add: meta_json_def)
  then show ?thesis using assms
    by (cases m) (simp add: Unmarshal_meta_def json_indent.dec_enc meta_json_def meta_fields_def dec_struct_def
        zero_meta_def wf_meta_def)
qed

text \<open>A node that starts again on the directory finds the tip it had saved.\<close>

lemma NewChain_reload:
  assumes "healthy d" and "length h = 32"
    and "os_ReadFile d ''chain.json'' = Content (json_MarshalIndent (meta_json \<lparr>cm_Height = n, cm_LastHash = h\<rparr>))"
  shows "NewChain d (Some cfg) =
    Inr \<lparr>ch_mu = Unlocked, ch_disk = d, ch_cfg = cfg, ch_Height = n, ch_LastHash = h\<rparr>"
  using assms Unmarshal_meta_json [of "\<lparr>cm_Height = n, cm_LastHash = h\<rparr>"]
  by (simp add: NewChain_def os_MkdirAll_def healthy_def wf_meta_def)

section \<open>A linked chain on disk\<close>

text \<open>The blocks \<open>bs\<close> are stored under their hashes, start at height \<open>n\<close> after the block with
  hash \<open>prev\<close>, and each names its predecessor.\<close>

fun linked :: "disk \<Rightarrow> nat \<Rightarrow> hash \<Rightarrow> Block list \<Rightarrow> bool" where
  "linked d n prev [] \<longleftrightarrow> True"
| "linked d n prev (b # bs) \<longleftrightarrow> blk_Height b = of_nat n \<and> blk_PreviousHash b = prev \<and> \<not> Hash_IsZero (blk_Hash b) \<and>
     read_block d (blk_Hash b) = Inr b \<and> linked d (Suc n) (blk_Hash b) bs"

definition tip_hash :: "hash \<Rightarrow> Block list \<Rightarrow> hash" where
  "tip_hash prev bs = (if bs = [] then prev else blk_Hash (last bs))"

lemma linked_append:
  "linked d n prev (xs @ ys) \<longleftrightarrow> linked d n prev xs \<and> linked d (n + length xs) (tip_hash prev xs) ys"
  by (induction xs arbitrary: n prev) (auto simp: tip_hash_def)

lemma linked_read: "linked d n prev bs \<Longrightarrow> b \<in> set bs \<Longrightarrow> read_block d (blk_Hash b) = Inr b \<and> \<not> Hash_IsZero (blk_Hash b)"
  by (induction bs arbitrary: n prev) auto

lemma linked_mono:
  "linked d n prev bs \<Longrightarrow> (\<And>b. b \<in> set bs \<Longrightarrow> read_block d' (blk_Hash b) = read_block d (blk_Hash b)) \<Longrightarrow>
   linked d' n prev bs"
  by (induction bs arbitrary: n prev) auto

definition chain_on_disk :: "Chain \<Rightarrow> Block list \<Rightarrow> bool" where
  "chain_on_disk c bs \<longleftrightarrow> ch_mu c = Unlocked \<and> length bs < 2 ^ 64 \<and> linked (ch_disk c) 0 zero_hash bs \<and>
     ch_LastHash c = tip_hash zero_hash bs \<and> ch_Height c = of_nat (length bs - 1)"

lemma zero_hash_IsZero [simp]: "Hash_IsZero zero_hash"
  by (simp add: Hash_IsZero_iff zero_hash_def)

text \<open>A disk and a tip determine the chain.\<close>

lemma linked_unique:
  "linked d 0 zero_hash bs \<Longrightarrow> linked d 0 zero_hash bs' \<Longrightarrow> tip_hash zero_hash bs = tip_hash zero_hash bs' \<Longrightarrow> bs = bs'"
proof (induction bs arbitrary: bs' rule: rev_induct)
  case Nil
  then show ?case by (cases bs' rule: rev_cases) (auto simp: tip_hash_def linked_append)
next
  case (snoc b bs)
  show ?case
  proof (cases bs' rule: rev_cases)
    case Nil
    then show ?thesis using snoc.prems(1,3) unfolding linked_append by (simp add: tip_hash_def)
  next
    case (snoc xs x)
    have l: "linked d 0 zero_hash bs" "linked d 0 zero_hash xs" "blk_PreviousHash b = tip_hash zero_hash bs"
        "blk_PreviousHash x = tip_hash zero_hash xs" "read_block d (blk_Hash b) = Inr b" "read_block d (blk_Hash x) = Inr x"
      using snoc.prems(1,2) unfolding snoc linked_append linked.simps by blast+
    have "blk_Hash b = blk_Hash x" using snoc.prems(3) unfolding snoc by (simp add: tip_hash_def)
    then have "b = x" using l(5,6) by (metis sum.inject(2))
    then show ?thesis using snoc.IH [OF l(1,2)] l(3,4) unfolding snoc by simp
  qed
qed

lemma chain_on_disk_unique: "chain_on_disk c bs \<Longrightarrow> chain_on_disk c bs' \<Longrightarrow> bs = bs'"
  unfolding chain_on_disk_def by (elim conjE) (rule linked_unique, assumption, assumption, simp)

lemma of_nat_u64_less [simp]:
  "m < 2 ^ 64 \<Longrightarrow> n < 2 ^ 64 \<Longrightarrow> (of_nat m :: u64) < of_nat n \<longleftrightarrow> m < n"
  "m < 2 ^ 64 \<Longrightarrow> n < 2 ^ 64 \<Longrightarrow> (of_nat m :: u64) = of_nat n \<longleftrightarrow> m = n"
  by (simp_all add: word_less_nat_alt unat_of_nat word_unat_eq_iff)

text \<open>The walk ends and collects the hashes down to the requested height, the tip first.\<close>

lemma walk_back_linked:
  "linked d 0 zero_hash bs \<Longrightarrow> n < length bs \<Longrightarrow> length bs < 2 ^ 64 \<Longrightarrow>
   walk_back d (of_nat n) (blk_Hash (last bs)) hs = Some (Inr (hs @ rev (map blk_Hash (drop n bs))))"
proof (induction bs arbitrary: hs rule: rev_induct)
  case (snoc b bs)
  then have b: "read_block d (blk_Hash b) = Inr b" "blk_Height b = of_nat (length bs)"
      "blk_PreviousHash b = tip_hash zero_hash bs" and bs: "linked d 0 zero_hash bs"
    by (simp_all add: linked_append)
  show ?case
  proof (cases "n = length bs")
    case True
    then show ?thesis using b snoc.prems by (subst walk_back.simps) simp
  next
    case False
    with snoc.prems have n: "n < length bs" by simp
    then have "bs \<noteq> []" by auto
    then have "\<not> Hash_IsZero (blk_PreviousHash b)" and p: "blk_PreviousHash b = blk_Hash (last bs)"
      using b(3) linked_read [OF bs, of "last bs"] by (simp_all add: tip_hash_def)
    then show ?thesis
      using b n snoc.prems snoc.IH [OF bs n]
      by (subst walk_back.simps) simp
  qed
qed simp

lemma load_blocks_stored:
  "(\<And>b. b \<in> set bs \<Longrightarrow> read_block d (blk_Hash b) = Inr b) \<Longrightarrow>
   load_blocks d (map blk_Hash bs) out = Inr (out @ bs)"
  by (induction bs arbitrary: out) simp_all

lemma GetBlocksFrom_default: "mx \<le> 0 \<Longrightarrow> GetBlocksFrom c f mx = GetBlocksFrom c f 10000"
  by (simp add: GetBlocksFrom_def)

lemma GetBlocksFrom_positive:
  assumes c: "chain_on_disk c bs" and n: "n < length bs" and mx: "0 < mx"
  shows "GetBlocksFrom c (of_nat n) mx = Returns c (Inr (take (nat mx) (drop n bs)))"
proof -
  have l: "linked (ch_disk c) 0 zero_hash bs" and len: "length bs < 2 ^ 64" and free: "ch_mu c = Unlocked"
    and tip: "ch_LastHash c = blk_Hash (last bs)" and h: "ch_Height c = of_nat (length bs - 1)"
    using c n by (auto simp: chain_on_disk_def tip_hash_def)
  have "bs \<noteq> []" using n by auto
  then have nz: "\<not> Hash_IsZero (ch_LastHash c)" using linked_read [OF l, of "last bs"] tip by simp
  have low: "\<not> ch_Height c < of_nat n"
    unfolding h using of_nat_u64_less(1) [of "length bs - 1" n] len n by linarith
  let ?hs = "rev (map blk_Hash (drop n bs))"
  have trim: "rev (if int (length ?hs) > mx then drop (length ?hs - nat mx) ?hs else ?hs) =
      map blk_Hash (take (nat mx) (drop n bs))"
  proof (cases "nat mx \<le> length bs - n")
    case True
    then have "length ?hs - (length ?hs - nat mx) = nat mx" by simp
    then show ?thesis using True mx by (auto simp: rev_drop take_map)
  qed (use mx in auto)
  have "load_blocks (ch_disk c) (map blk_Hash (take (nat mx) (drop n bs))) [] = Inr (take (nat mx) (drop n bs))"
    using load_blocks_stored [of "take (nat mx) (drop n bs)" "ch_disk c" "[]"] linked_read [OF l]
    by (auto dest: in_set_takeD in_set_dropD)
  then show ?thesis
    using free nz low tip mx walk_back_linked [OF l n len, of "[]"] trim
    by (simp add: GetBlocksFrom_def Let_def chain_RUnlock_def del: length_rev length_map length_drop)
qed

lemma GetBlocksFrom_chain:
  assumes c: "chain_on_disk c bs" and n: "n < 2 ^ 64"
  shows "GetBlocksFrom c (of_nat n) mx = Returns c (Inr (take (if mx \<le> 0 then 10000 else nat mx) (drop n bs)))"
proof (cases "n < length bs")
  case True
  then show ?thesis
    using GetBlocksFrom_positive [OF c True, of mx] GetBlocksFrom_positive [OF c True, of 10000]
    by (simp add: GetBlocksFrom_default)
next
  case False
  have free: "ch_mu c = Unlocked" and tip: "ch_LastHash c = tip_hash zero_hash bs"
    and h: "ch_Height c = of_nat (length bs - 1)" and len: "length bs < 2 ^ 64"
    using c by (auto simp: chain_on_disk_def)
  have "ch_Height c < of_nat n \<or> Hash_IsZero (ch_LastHash c)"
    using False h n len tip of_nat_u64_less(1) [of "length bs - 1" n] by (cases bs) (simp_all add: tip_hash_def)
  then show ?thesis using False free by (auto simp: GetBlocksFrom_def Let_def chain_RUnlock_def)
qed

text \<open>The walk ends on any disk on which a stored predecessor has a smaller height, whatever is missing or
  unreadable; a block that is its own predecessor is walked for ever.\<close>

definition heights_descend :: "disk \<Rightarrow> bool" where
  "heights_descend d \<longleftrightarrow> (\<forall>h b b'. read_block d h = Inr b \<longrightarrow> read_block d (blk_PreviousHash b) = Inr b' \<longrightarrow>
     blk_Height b' < blk_Height b)"

lemma walk_back_ends:
  assumes "heights_descend d"
  shows "\<exists>r. walk_back d f h hs = Some r"
proof -
  have stored: "read_block d h = Inr b \<Longrightarrow> \<exists>r. walk_back d f h hs = Some r" for b h hs
  proof (induction "unat (blk_Height b)" arbitrary: b h hs rule: less_induct)
    case less
    show ?case
    proof (cases "read_block d (blk_PreviousHash b)")
      case Inl
      from Inl show ?thesis using less.prems walk_back.simps [of d f "blk_PreviousHash b"] by (subst walk_back.simps) simp
    next
      case (Inr b')
      then have "unat (blk_Height b') < unat (blk_Height b)"
        using assms less.prems unfolding heights_descend_def by (blast intro: unat_mono)
      from less.hyps [OF this Inr] show ?thesis using less.prems by (subst walk_back.simps) simp
    qed
  qed
  show ?thesis
  proof (cases "read_block d h")
    case Inl
    then show ?thesis by (subst walk_back.simps) simp
  qed (rule stored)
qed

lemma walk_back_returns_elsewhere:
  assumes "walk_back d f x hs = Some r" and "read_block d x = Inr b" and "blk_PreviousHash b = x" and "f < blk_Height b"
  shows "Hash_IsZero x"
  using assms
proof (induction rule: walk_back.raw_induct [rotated, consumes 1])
  case (1 w d f x hs r)
  then show ?case by (auto split: if_splits)
qed

lemma walk_back_loops:
  assumes "read_block d h = Inr b" and "blk_PreviousHash b = h" and "\<not> Hash_IsZero h" and "f < blk_Height b"
  shows "walk_back d f h hs = None"
  using walk_back_returns_elsewhere assms by fastforce

lemma length_load_blocks: "load_blocks d hs out = Inr bs \<Longrightarrow> length bs = length out + length hs"
  by (induction d hs out rule: load_blocks.induct) (auto split: sum.splits)

lemma GetBlocksFrom_ends:
  assumes "ch_mu c = Unlocked" and "heights_descend (ch_disk c)"
  shows "\<exists>r. GetBlocksFrom c f mx = Returns c r \<and>
    (\<forall>bs. r = Inr bs \<longrightarrow> int (length bs) \<le> (if mx \<le> 0 then 10000 else mx))"
proof -
  obtain w where "walk_back (ch_disk c) f (ch_LastHash c) [] = Some w" using walk_back_ends [OF assms(2)] by blast
  then show ?thesis using assms(1)
    by (auto simp: GetBlocksFrom_def Let_def chain_RUnlock_def split: sum.splits if_splits dest!: length_load_blocks)
qed

lemma GetBlocksFrom_loops:
  assumes "ch_mu c = Unlocked" and "read_block (ch_disk c) (ch_LastHash c) = Inr b"
    and "blk_PreviousHash b = ch_LastHash c" and "\<not> Hash_IsZero (ch_LastHash c)" and "f < blk_Height b" and "f \<le> ch_Height c"
  shows "GetBlocksFrom c f mx = Blocks c"
  using assms walk_back_loops [OF assms(2,3,4,5)]
  by (auto simp: GetBlocksFrom_def Let_def chain_RUnlock_def)

text \<open>A producer's append extends the chain.\<close>

lemma AppendBlock_extends:
  assumes c: "chain_on_disk c bs" and ok: "healthy (ch_disk c)" "wf_block b" "length bs + 1 < 2 ^ 64"
    and b: "blk_Height b = of_nat (length bs)" "blk_PreviousHash b = ch_LastHash c" "\<not> Hash_IsZero (blk_Hash b)"
    and fresh: "blk_Hash b \<notin> blk_Hash ` set bs"
  obtains c' where "AppendBlock c b = Returns c' None" and "chain_on_disk c' (bs @ [b])"
    and "healthy (ch_disk c')" and "ch_cfg c' = ch_cfg c" and "NewChain (ch_disk c') (Some (ch_cfg c)) = Inr c'"
    and "\<And>p. p \<notin> {block_file (blk_Hash b), tmp_file (blk_Hash b), ''chain.json''} \<Longrightarrow>
           os_ReadFile (ch_disk c') p = os_ReadFile (ch_disk c) p"
proof -
  have free: "ch_mu c = Unlocked" and l: "linked (ch_disk c) 0 zero_hash bs" and tip: "ch_LastHash c = tip_hash zero_hash bs"
    using c by (auto simp: chain_on_disk_def)
  obtain d where d: "AppendBlock c b = Returns (c\<lparr>ch_disk := d, ch_Height := blk_Height b, ch_LastHash := blk_Hash b\<rparr>) None"
      "healthy d" "os_ReadFile d ''chain.json'' = Content (json_MarshalIndent (meta_json
             \<lparr>cm_Height = blk_Height b, cm_LastHash = blk_Hash b\<rparr>))"
      "\<And>h. read_block d h = (if h = blk_Hash b then Inr b else read_block (ch_disk c) h)"
      "\<And>p. p \<notin> {block_file (blk_Hash b), tmp_file (blk_Hash b), ''chain.json''} \<Longrightarrow>
           os_ReadFile d p = os_ReadFile (ch_disk c) p"
    using AppendBlock_healthy [OF free ok(1,2)] by metis
  have "linked d 0 zero_hash bs" using fresh d(4) by (intro linked_mono [OF l]) (metis imageI)
  then have "linked d 0 zero_hash (bs @ [b])" using b d(4) tip by (simp add: linked_append)
  then have "chain_on_disk (c\<lparr>ch_disk := d, ch_Height := blk_Height b, ch_LastHash := blk_Hash b\<rparr>) (bs @ [b])"
    using free ok(3) b(1) by (simp add: chain_on_disk_def tip_hash_def)
  moreover have "length (blk_Hash b) = 32" using ok(2) by (simp add: wf_block_def)
  ultimately show thesis
    using that [OF d(1)] d(2,5) NewChain_reload [OF d(2) _ d(3), of "ch_cfg c"] free by (cases c) simp
qed

section \<open>The genesis file\<close>

lemma dec_alloc_members_fresh:
  "distinct (map fst (al @ xs)) \<Longrightarrow>
   dec_alloc_members (map (\<lambda>(k, v). (k, enc_uint64 v)) xs) al = Some (al @ xs)"
proof (induction xs arbitrary: al)
  case (Cons x xs)
  obtain k v where x: "x = (k, v)" by (cases x)
  with Cons.prems have "k \<notin> fst ` set al" by auto
  then have "AList.update k v al = al @ [(k, v)]" by (induction al) auto
  then show ?case using Cons.IH [of "al @ [(k, v)]"] Cons.prems x by simp
qed simp

lemma dec_alloc_json:
  assumes "distinct (map fst al)"
  shows "dec_alloc (alloc_json al) [] = Some (sort_key fst al)"
proof -
  have "distinct (map fst (sort_key fst al))"
    by (metis assms distinct_map distinct_sort set_sort)
  then show ?thesis
    using dec_alloc_members_fresh [of "[]" "sort_key fst al"] by (simp add: dec_alloc_def alloc_json_def)
qed

lemma wf_json_alloc [simp]: "wf_json (alloc_json al)"
  by (auto simp: alloc_json_def)

lemma dec_validator_json: "dec_struct validator_fields (validator_json v) zero_validator = Some v"
  by (cases v) (simp add: dec_struct_def validator_fields_def validator_json_def zero_validator_def dec_string_def)

lemma genesis_file_roundtrip:
  assumes "distinct (map fst (gf_Allocation g))" and "case gf_Block g of None \<Rightarrow> True | Some b \<Rightarrow> wf_block b"
  shows "Option.bind (json_Unmarshal (json_MarshalIndent (genesis_json g)))
      (\<lambda>j. dec_struct genesis_fields j zero_genesis) = Some (g\<lparr>gf_Allocation := sort_key fst (gf_Allocation g)\<rparr>)"
proof -
  have wf: "wf_json (genesis_json g)"
    by (simp add: genesis_json_def validator_json_def split: option.split)
  have vs: "dec_list (dec_struct validator_fields) zero_validator
      (enc_list validator_json (gf_Validators g)) [] = Some (gf_Validators g)"
    by (rule dec_enc_list) (rule dec_validator_json)
  have blk: "dec_ptr dec_block zero_block (case gf_Block g of None \<Rightarrow> JNull | Some b \<Rightarrow> block_json b) None =
      Some (gf_Block g)"
    using assms(2) dec_block_json
    by (cases "gf_Block g") (simp_all add: dec_ptr_def block_json_def)
  show ?thesis
    using wf vs blk dec_alloc_json [OF assms(1)]
    by (cases g) (auto simp: json_indent.dec_enc genesis_json_def genesis_fields_def dec_struct_def zero_genesis_def)
qed

lemma LoadGenesis_after_write:
  assumes "healthy d" and "distinct (map fst (cfg_Genesis cfg))" and "length validator = 20"
    and "wf_block (GenesisBlock cl validator)"
  obtains d' where "WriteGenesisFile cl d cfg validator vs = (d', None)" and "healthy d'"
    and "\<And>n. n \<noteq> ''genesis.json'' \<Longrightarrow> os_ReadFile d' n = os_ReadFile d n"
    and "LoadGenesisFromFile d' = Inr \<lparr>gf_Block = Some (GenesisBlock cl validator),
           gf_Allocation = sort_key fst (cfg_Genesis cfg), gf_Validators = vs\<rparr>"
proof -
  let ?g = "\<lparr>gf_Block = Some (GenesisBlock cl validator), gf_Allocation = cfg_Genesis cfg, gf_Validators = vs\<rparr>"
  let ?d = "d\<lparr>dk_files := AList.update ''genesis.json'' (json_MarshalIndent (genesis_json ?g)) (dk_files d)\<rparr>"
  have "WriteGenesisFile cl d cfg validator vs = (?d, None)"
    using assms(1) by (simp add: WriteGenesisFile_def os_MkdirAll_def os_WriteFile_healthy) (simp add: healthy_def)
  moreover have "LoadGenesisFromFile ?d = Inr (?g\<lparr>gf_Allocation := sort_key fst (cfg_Genesis cfg)\<rparr>)"
    using assms(1,4) genesis_file_roundtrip [of ?g] assms(2) by (simp add: LoadGenesisFromFile_def healthy_def)
  ultimately show thesis using that [of ?d] assms(1) by simp
qed

end
