(* ===== verification/Peers.thy ===== *)
theory Peers
  imports Wire
begin

text \<open>
  \<^verbatim>\<open>src/p2p/peers.go\<close> and the server of \<^verbatim>\<open>src/p2p/transport.go\<close>: the set of connected peers,
  dialing, broadcasting and accepting. Connections are numbered; the record \<open>Net\<close> holds what
  happens to them (closed, written to, handler goroutines started) and the answers of the network:
  the result of each dial and the connections on which writing fails. Each method that takes the mutex
  of the peer set releases it before it calls another one.
\<close>

section \<open>The network\<close>

record Net =
  nt_next :: nat
  nt_dial :: "nat \<Rightarrow> string \<Rightarrow> string option"
  nt_broken :: "nat \<Rightarrow> bool"
  nt_closed :: "nat list"
  nt_sent :: "(nat \<times> Kind \<times> json) list"
  nt_started :: "(nat \<times> string) list"

definition net_Close :: "Net \<Rightarrow> nat \<Rightarrow> Net" where
  "net_Close nt c = nt\<lparr>nt_closed := c # nt_closed nt\<rparr>"

text \<open>\<^verbatim>\<open>Conn.Send\<close>; the result says whether the write failed.\<close>

definition conn_Send :: "Net \<Rightarrow> nat \<Rightarrow> Kind \<Rightarrow> json \<Rightarrow> Net \<times> bool" where
  "conn_Send nt c kind payload =
     (if nt_broken nt c \<or> c \<in> set (nt_closed nt) then (nt, True)
      else (nt\<lparr>nt_sent := nt_sent nt @ [(c, kind, payload)]\<rparr>, False))"

text \<open>\<^verbatim>\<open>go f(c, remote)\<close> for the connection handler.\<close>

definition net_go :: "Net \<Rightarrow> nat \<Rightarrow> string \<Rightarrow> Net" where
  "net_go nt c remote = nt\<lparr>nt_started := nt_started nt @ [(c, remote)]\<rparr>"

text \<open>A dial: the connection and the text of its remote address.\<close>

definition dialPeer :: "Net \<Rightarrow> string \<Rightarrow> Net \<times> (nat \<times> string) option" where
  "dialPeer nt addr = (case nt_dial nt (nt_next nt) addr of
     None \<Rightarrow> (nt\<lparr>nt_next := nt_next nt + 1\<rparr>, None)
   | Some remote \<Rightarrow> (nt\<lparr>nt_next := nt_next nt + 1\<rparr>, Some (nt_next nt, remote)))"

definition DialPeer :: "Net \<Rightarrow> string \<Rightarrow> Net \<times> (nat \<times> string) option" where
  "DialPeer nt addr = dialPeer nt addr"

section \<open>The peer set\<close>

record peerConn =
  pc_conn :: nat
  pc_addr :: string

record PeerSet =
  ps_peers :: "(string \<times> peerConn) list"
  ps_maxPeers :: int
  ps_seeds :: "string list"
  ps_listenAddr :: string

definition NewPeerSet :: "int \<Rightarrow> string list \<Rightarrow> string \<Rightarrow> PeerSet" where
  "NewPeerSet maxPeers seeds listenAddr =
     \<lparr>ps_peers = [], ps_maxPeers = maxPeers, ps_seeds = seeds, ps_listenAddr = listenAddr\<rparr>"

text \<open>\<open>onNewPeer\<close> says whether the callback is given.\<close>

definition addPeer :: "PeerSet \<Rightarrow> Net \<Rightarrow> nat \<Rightarrow> string \<Rightarrow> bool \<Rightarrow> PeerSet \<times> Net \<times> bool" where
  "addPeer p nt c remoteAddr onNewPeer =
     (if int (length (ps_peers p)) \<ge> ps_maxPeers p then (p, net_Close nt c, False)
      else if map_has (ps_peers p) remoteAddr then (p, net_Close nt c, False)
      else (p\<lparr>ps_peers := AList.update remoteAddr \<lparr>pc_conn = c, pc_addr = remoteAddr\<rparr> (ps_peers p)\<rparr>,
            if onNewPeer then net_go nt c remoteAddr else nt, True))"

definition AddPeer :: "PeerSet \<Rightarrow> Net \<Rightarrow> nat \<Rightarrow> string \<Rightarrow> bool \<Rightarrow> PeerSet \<times> Net \<times> bool" where
  "AddPeer p nt c remoteAddr onNewPeer = addPeer p nt c remoteAddr onNewPeer"

definition TryConnect :: "PeerSet \<Rightarrow> Net \<Rightarrow> string \<Rightarrow> PeerSet \<times> Net" where
  "TryConnect p nt addr =
     (if addr = [] \<or> addr = ps_listenAddr p then (p, nt)
      else if int (length (ps_peers p)) \<ge> ps_maxPeers p then (p, nt)
      else case dialPeer nt addr of
        (nt, None) \<Rightarrow> (p, nt)
      | (nt, Some (c, remote)) \<Rightarrow>
          (case addPeer p nt c remote False of
             (p, nt, ok) \<Rightarrow> (p, if ok then net_go nt c remote else nt)))"

fun connect_seeds :: "string list \<Rightarrow> PeerSet \<Rightarrow> Net \<Rightarrow> PeerSet \<times> Net" where
  "connect_seeds [] p nt = (p, nt)"
| "connect_seeds (seed # seeds) p nt =
     (if seed = [] \<or> seed = ps_listenAddr p then connect_seeds seeds p nt
      else if int (length (ps_peers p)) \<ge> ps_maxPeers p then (p, nt)
      else case dialPeer nt seed of
        (nt, None) \<Rightarrow> connect_seeds seeds p nt
      | (nt, Some (c, remote)) \<Rightarrow>
          (case addPeer p nt c remote True of (p, nt, _) \<Rightarrow> connect_seeds seeds p nt))"

definition ConnectToSeeds :: "PeerSet \<Rightarrow> Net \<Rightarrow> PeerSet \<times> Net" where
  "ConnectToSeeds p nt = connect_seeds (ps_seeds p) p nt"

definition RemovePeer :: "PeerSet \<Rightarrow> Net \<Rightarrow> string \<Rightarrow> PeerSet \<times> Net" where
  "RemovePeer p nt remoteAddr = (case map_of (ps_peers p) remoteAddr of
     None \<Rightarrow> (p, nt)
   | Some pc \<Rightarrow> (p\<lparr>ps_peers := AList.delete remoteAddr (ps_peers p)\<rparr>, net_Close nt (pc_conn pc)))"

text \<open>One goroutine per peer: it sends, and closes the connection when the write fails.\<close>

fun send_all :: "(string \<times> peerConn) list \<Rightarrow> Kind \<Rightarrow> json \<Rightarrow> Net \<Rightarrow> Net" where
  "send_all [] kind payload nt = nt"
| "send_all ((_, pc) # peers) kind payload nt =
     (case conn_Send nt (pc_conn pc) kind payload of
        (nt, failed) \<Rightarrow> send_all peers kind payload (if failed then net_Close nt (pc_conn pc) else nt))"

definition Broadcast :: "PeerSet \<Rightarrow> Net \<Rightarrow> Kind \<Rightarrow> json \<Rightarrow> Net" where
  "Broadcast p nt kind payload = send_all (ps_peers p) kind payload nt"

definition PeerCount :: "PeerSet \<Rightarrow> nat" where
  "PeerCount p = length (ps_peers p)"

section \<open>The server\<close>

record Server =
  srv_listenAddr :: string
  srv_genesisHash :: hash
  srv_onConn :: bool
  srv_lis :: bool

definition NewServer :: "string \<Rightarrow> hash \<Rightarrow> Server" where
  "NewServer listenAddr genesisHash =
     \<lparr>srv_listenAddr = listenAddr, srv_genesisHash = genesisHash, srv_onConn = False, srv_lis = False\<rparr>"

definition Server_OnConn :: "Server \<Rightarrow> Server" where
  "Server_OnConn s = s\<lparr>srv_onConn := True\<rparr>"

text \<open>\<open>bound\<close> is whether \<^verbatim>\<open>net.Listen\<close> succeeds; the result is whether the call failed.\<close>

definition Server_Listen :: "bool \<Rightarrow> Server \<Rightarrow> Server \<times> bool" where
  "Server_Listen bound s = (if bound then (s\<lparr>srv_lis := True\<rparr>, False) else (s, True))"

definition Server_Close :: "Server \<Rightarrow> Server" where
  "Server_Close s = (if srv_lis s then s\<lparr>srv_lis := False\<rparr> else s)"

text \<open>One round of the accept loop; \<open>height\<close> is the value of the \<^verbatim>\<open>getHeight\<close> callback.\<close>

definition accept_conn :: "Server \<Rightarrow> u64 \<Rightarrow> Net \<Rightarrow> nat \<Rightarrow> string \<Rightarrow> Net" where
  "accept_conn s height nt c remote =
     (case conn_Send nt c KindHello (hello_json
        \<lparr>hello_GenesisHash = srv_genesisHash s, hello_ListenAddr = srv_listenAddr s, hello_Height = height\<rparr>) of
        (nt, True) \<Rightarrow> net_Close nt c
      | (nt, False) \<Rightarrow> if srv_onConn s then net_go nt c remote else net_Close nt c)"

section \<open>The invariant of the peer set\<close>

definition peers_ok :: "PeerSet \<Rightarrow> bool" where
  "peers_ok p \<longleftrightarrow> distinct (map fst (ps_peers p)) \<and> int (length (ps_peers p)) \<le> max 0 (ps_maxPeers p) \<and>
     (\<forall>(k, pc) \<in> set (ps_peers p). pc_addr pc = k)"

datatype peer_op = OpTryConnect string | OpConnectToSeeds | OpAddPeer nat string bool | OpRemovePeer string
  | OpBroadcast Kind json

fun peer_step :: "peer_op \<Rightarrow> PeerSet \<times> Net \<Rightarrow> PeerSet \<times> Net" where
  "peer_step (OpTryConnect addr) (p, nt) = TryConnect p nt addr"
| "peer_step OpConnectToSeeds (p, nt) = ConnectToSeeds p nt"
| "peer_step (OpAddPeer c remote f) (p, nt) = (case AddPeer p nt c remote f of (p, nt, _) \<Rightarrow> (p, nt))"
| "peer_step (OpRemovePeer remote) (p, nt) = RemovePeer p nt remote"
| "peer_step (OpBroadcast kind payload) (p, nt) = (p, Broadcast p nt kind payload)"

lemma update_fresh: "\<not> map_has m k \<Longrightarrow> AList.update k v m = m @ [(k, v)]"
  by (induction m) (auto simp: map_has_def split: if_splits)

lemma peers_ok_New: "peers_ok (NewPeerSet m seeds l)"
  by (simp add: peers_ok_def NewPeerSet_def)

lemma peers_ok_addPeer: "peers_ok p \<Longrightarrow> addPeer p nt c remote f = (p', nt', ok) \<Longrightarrow> peers_ok p'"
  by (auto simp: addPeer_def peers_ok_def update_fresh map_has_iff_key split: if_splits)

lemma peers_ok_addPeer_fst: "peers_ok p \<Longrightarrow> peers_ok (fst (addPeer p nt c remote f))"
  by (cases "addPeer p nt c remote f") (auto dest: peers_ok_addPeer)

lemma peers_ok_TryConnect: "peers_ok p \<Longrightarrow> peers_ok (fst (TryConnect p nt addr))"
  by (auto simp: TryConnect_def dest: peers_ok_addPeer split: prod.splits option.splits)

lemma peers_ok_connect_seeds: "peers_ok p \<Longrightarrow> peers_ok (fst (connect_seeds seeds p nt))"
  by (induction seeds p nt rule: connect_seeds.induct)
    (auto dest: peers_ok_addPeer split: prod.splits option.splits)

lemma peers_ok_RemovePeer: "peers_ok p \<Longrightarrow> peers_ok (fst (RemovePeer p nt remote))"
proof -
  assume ok: "peers_ok p"
  have "distinct (map fst (AList.delete remote (ps_peers p)))" using ok by (simp add: peers_ok_def distinct_delete)
  moreover have "length (AList.delete remote (ps_peers p)) \<le> length (ps_peers p)" by (rule length_delete_le)
  moreover have "set (AList.delete remote (ps_peers p)) \<subseteq> set (ps_peers p)" by (simp add: AList.delete_eq)
  ultimately show ?thesis using ok by (auto simp: RemovePeer_def peers_ok_def split: option.splits)
qed

interpretation peer_set: machine peer_step "\<lambda>(p, nt). peers_ok p"
proof
  show "case peer_step op s of (p, nt) \<Rightarrow> peers_ok p" if "case s of (p, nt) \<Rightarrow> peers_ok p" for op s
  proof (cases s)
    case (Pair p nt)
    then show ?thesis
      using that peers_ok_TryConnect [of p nt] peers_ok_connect_seeds [of p _ nt] peers_ok_RemovePeer [of p nt]
      by (cases op) (auto simp: ConnectToSeeds_def AddPeer_def case_prod_beta intro: peers_ok_addPeer_fst)
  qed
qed

text \<open>No operation changes the limit.\<close>

lemma maxPeers_addPeer: "addPeer p nt c remote f = (p', nt', ok) \<Longrightarrow> ps_maxPeers p' = ps_maxPeers p"
  by (auto simp: addPeer_def split: if_splits)

lemma maxPeers_addPeer_fst: "ps_maxPeers (fst (addPeer p nt c remote f)) = ps_maxPeers p"
  by (cases "addPeer p nt c remote f") (simp add: maxPeers_addPeer)

lemma maxPeers_connect_seeds: "ps_maxPeers (fst (connect_seeds seeds p nt)) = ps_maxPeers p"
  by (induction seeds p nt rule: connect_seeds.induct) (auto dest: maxPeers_addPeer split: prod.splits option.splits)

lemma maxPeers_TryConnect: "ps_maxPeers (fst (TryConnect p nt addr)) = ps_maxPeers p"
  by (auto simp: TryConnect_def dest: maxPeers_addPeer split: prod.splits option.splits)

interpretation peer_limit: machine peer_step "\<lambda>(p, nt). ps_maxPeers p = m" for m
proof
  show "case peer_step op s of (p, nt) \<Rightarrow> ps_maxPeers p = m" if "case s of (p, nt) \<Rightarrow> ps_maxPeers p = m" for op s
  proof (cases s)
    case (Pair p nt)
    then show ?thesis
      using that maxPeers_connect_seeds [of "ps_seeds p" p nt] maxPeers_TryConnect [of p nt]
      by (cases op) (auto simp: ConnectToSeeds_def AddPeer_def RemovePeer_def case_prod_beta maxPeers_addPeer_fst
          split: option.splits)
  qed
qed

section \<open>Connections the node dials\<close>

lemma TryConnect_fresh:
  assumes "addr \<noteq> []" and "addr \<noteq> ps_listenAddr p" and "int (length (ps_peers p)) < ps_maxPeers p"
    and "nt_dial nt (nt_next nt) addr = Some remote" and "\<not> map_has (ps_peers p) remote"
  shows "TryConnect p nt addr =
    (p\<lparr>ps_peers := ps_peers p @ [(remote, \<lparr>pc_conn = nt_next nt, pc_addr = remote\<rparr>)]\<rparr>,
     net_go (nt\<lparr>nt_next := nt_next nt + 1\<rparr>) (nt_next nt) remote)"
  using assms by (simp add: TryConnect_def dialPeer_def addPeer_def update_fresh)

text \<open>What a broadcast writes: the message on every connection that accepts it, once per peer.\<close>

lemma send_all_sent:
  assumes "distinct (map (\<lambda>(_, pc). pc_conn pc) peers)"
  shows "nt_sent (send_all peers kind payload nt) = nt_sent nt @
    map (\<lambda>(_, pc). (pc_conn pc, kind, payload))
      (filter (\<lambda>(_, pc). \<not> nt_broken nt (pc_conn pc) \<and> pc_conn pc \<notin> set (nt_closed nt)) peers)"
  using assms
proof (induction peers arbitrary: nt)
  case (Cons x peers)
  obtain k pc where x: "x = (k, pc)" by (cases x)
  have other: "filter (\<lambda>(_, q). \<not> nt_broken nt (pc_conn q) \<and> pc_conn q \<noteq> pc_conn pc \<and> pc_conn q \<notin> set (nt_closed nt)) peers =
      filter (\<lambda>(_, q). \<not> nt_broken nt (pc_conn q) \<and> pc_conn q \<notin> set (nt_closed nt)) peers"
    using Cons.prems x by (intro filter_cong) (auto simp: image_iff)
  show ?case
    using Cons other x by (auto simp: conn_Send_def net_Close_def)
qed simp

end
