(* ===== verification/Node.thy ===== *)
theory Node
  imports Chain_Laws Mempool Consensus Peers
begin

text \<open>
  The running node of \<^verbatim>\<open>src/cmd/node/main.go\<close> (\<^verbatim>\<open>runNodeLoop\<close>): the state the goroutines
  share, the handler of each peer message and the block producer. A handler runs from its first
  to its last statement; its outcome says whether it returned, panicked (which ends the process) or
  waits for ever for a lock its own goroutine holds. The mutex of the double-sign table is taken
  around table accesses only and has no field.
\<close>

section \<open>State\<close>

record 'db Node =
  nd_chain :: Chain
  nd_state :: "'db State"
  nd_pool :: Mempool
  nd_peers :: PeerSet
  nd_net :: Net
  nd_blockMu :: bool
  nd_doubleSign :: "(u64 \<times> (string \<times> string) list) list"

text \<open>The values \<^verbatim>\<open>runNodeLoop\<close> computes once and its closures use.\<close>

record Env =
  env_allocation :: GenesisAllocation
  env_validators :: "ValidatorGenesis list"
  env_p2pListen :: string
  env_priv :: privkey
  env_validatorAddr :: address
  env_server :: Server

section \<open>Calls into the components\<close>

definition on_chain :: "'db Node \<Rightarrow> (Chain, 'a) outcome \<Rightarrow> ('db Node, 'a) outcome" where
  "on_chain n r = (case r of
     Returns c a \<Rightarrow> Returns (n\<lparr>nd_chain := c\<rparr>) a
   | Panics c \<Rightarrow> Panics (n\<lparr>nd_chain := c\<rparr>)
   | Blocks c \<Rightarrow> Blocks (n\<lparr>nd_chain := c\<rparr>))"

definition lock_blockMu :: "'db Node \<Rightarrow> ('db Node, unit) outcome" where
  "lock_blockMu n = (if nd_blockMu n then Blocks n else Returns (n\<lparr>nd_blockMu := True\<rparr>) ())"

definition unlock_blockMu :: "'db Node \<Rightarrow> 'db Node" where
  "unlock_blockMu n = n\<lparr>nd_blockMu := False\<rparr>"

text \<open>\<^verbatim>\<open>last, _ := chain.LastBlock()\<close>: an error gives the nil block.\<close>

definition node_LastBlock :: "'db Node \<Rightarrow> ('db Node, Block option) outcome" where
  "node_LastBlock n = and_then (on_chain n (LastBlock (nd_chain n)))
     (\<lambda>n r. Returns n (case r of Inl e \<Rightarrow> None | Inr b \<Rightarrow> b))"

definition getHeight :: "'db Node \<Rightarrow> ('db Node, u64) outcome" where
  "getHeight n = and_then (node_LastBlock n)
     (\<lambda>n last. Returns n (case last of None \<Rightarrow> 0 | Some b \<Rightarrow> blk_Height b))"

definition getValidatorSet :: "'db leveldb \<Rightarrow> 'db Node \<Rightarrow> ValidatorSet option" where
  "getValidatorSet L n = (case GetValidatorSet L (nd_state n) of
     (list, err) \<Rightarrow>
       if err \<noteq> None \<or> length list = 0 then None
       else Some (NewSetFromValidators
         (map (\<lambda>v. \<lparr>sv_Address = val_Address v, sv_Stake = val_Stake v\<rparr>) list)))"

definition node_ApplyBlock :: "'db leveldb \<Rightarrow> 'db Node \<Rightarrow> Block \<Rightarrow> 'db Node \<times> db_error option" where
  "node_ApplyBlock L n b = (case ApplyBlock L (nd_state n) b of (s, err) \<Rightarrow> (n\<lparr>nd_state := s\<rparr>, err))"

definition node_Slash :: "'db leveldb \<Rightarrow> 'db Node \<Rightarrow> address \<Rightarrow> 'db Node" where
  "node_Slash L n addr = n\<lparr>nd_state := fst (SlashValidator L (nd_state n) addr)\<rparr>"

definition node_Remove :: "crypto_lib \<Rightarrow> 'db Node \<Rightarrow> Transaction list \<Rightarrow> 'db Node" where
  "node_Remove cl n txs = n\<lparr>nd_pool := Mempool_Remove cl (nd_pool n) txs\<rparr>"

definition node_Broadcast :: "'db Node \<Rightarrow> Kind \<Rightarrow> json \<Rightarrow> 'db Node" where
  "node_Broadcast n kind payload = n\<lparr>nd_net := Broadcast (nd_peers n) (nd_net n) kind payload\<rparr>"

definition node_TryConnect :: "'db Node \<Rightarrow> string \<Rightarrow> 'db Node" where
  "node_TryConnect n addr = (case TryConnect (nd_peers n) (nd_net n) addr of
     (p, nt) \<Rightarrow> n\<lparr>nd_peers := p, nd_net := nt\<rparr>)"

text \<open>The double-sign table: the second component says that the validator already has another
  block at this height.\<close>

definition double_sign :: "'db Node \<Rightarrow> Block \<Rightarrow> 'db Node \<times> bool" where
  "double_sign n b =
     (let key = Address_Hex (blk_ValidatorAddress b);
          t = nd_doubleSign n;
          t = (if map_of t (blk_Height b) = None then AList.update (blk_Height b) [] t else t);
          m = (case map_of t (blk_Height b) of None \<Rightarrow> [] | Some m \<Rightarrow> m)
      in case map_of m key of
           Some prev \<Rightarrow>
             if prev \<noteq> Hash_Hex (blk_Hash b) then (n\<lparr>nd_doubleSign := t\<rparr>, True)
             else (n\<lparr>nd_doubleSign := AList.update (blk_Height b) (AList.update key (Hash_Hex (blk_Hash b)) m) t\<rparr>, False)
         | None \<Rightarrow> (n\<lparr>nd_doubleSign := AList.update (blk_Height b) (AList.update key (Hash_Hex (blk_Hash b)) m) t\<rparr>, False))"

section \<open>Blocks from a peer\<close>

text \<open>First branch of \<^verbatim>\<open>KindBlocks\<close>: the batch extends the tip. A nil element panics.\<close>

fun extend_loop ::
  "crypto_lib \<Rightarrow> 'db leveldb \<Rightarrow> ValidatorSet option \<Rightarrow> Block option list \<Rightarrow> 'db Node \<Rightarrow> ('db Node, unit) outcome" where
  "extend_loop cl L vset [] n = Returns n ()"
| "extend_loop cl L vset (None # bs) n = Panics n"
| "extend_loop cl L vset (Some b # bs) n =
     (if \<not> ValidateBlock cl b then extend_loop cl L vset bs n
      else and_then (on_chain n (HasBlock (nd_chain n) (blk_Hash b))) (\<lambda>n has.
        if has then extend_loop cl L vset bs n
        else if (case vset of None \<Rightarrow> False | Some vs \<Rightarrow> \<not> VerifyBlockValidator vs b) then extend_loop cl L vset bs n
        else case double_sign n b of
          (n, True) \<Rightarrow> extend_loop cl L vset bs (node_Slash L n (blk_ValidatorAddress b))
        | (n, False) \<Rightarrow>
            and_then (node_LastBlock n) (\<lambda>n cur.
              if (case cur of None \<Rightarrow> False | Some c \<Rightarrow> blk_PreviousHash b \<noteq> blk_Hash c) then Returns n ()
              else and_then (on_chain n (WriteBlock (nd_chain n) b)) (\<lambda>n _.
                case node_ApplyBlock L n b of
                  (n, Some e) \<Rightarrow> Returns n ()
                | (n, None) \<Rightarrow>
                    and_then (on_chain n (SetTip (nd_chain n) b)) (\<lambda>n _.
                      extend_loop cl L vset bs
                        (node_Broadcast (node_Remove cl n (blk_Transactions b)) KindNewBlock (block_json b)))))))"

text \<open>Second branch: no tip yet, and the batch starts at a genesis block.\<close>

fun sync_loop ::
  "crypto_lib \<Rightarrow> 'db leveldb \<Rightarrow> Env \<Rightarrow> Block option list \<Rightarrow> 'db Node \<Rightarrow> ('db Node, unit) outcome" where
  "sync_loop cl L env [] n = Returns n ()"
| "sync_loop cl L env (None # bs) n = Panics n"
| "sync_loop cl L env (Some b # bs) n =
     (if \<not> ValidateBlock cl b then Returns n ()
      else and_then (node_LastBlock n) (\<lambda>n cur.
        if (case cur of None \<Rightarrow> False | Some c \<Rightarrow> blk_PreviousHash b \<noteq> blk_Hash c) then Returns n ()
        else
          let n = (if cur = None \<and> blk_Height b = 0
                   then n\<lparr>nd_state := fst (ApplyGenesis L (nd_state n) (env_allocation env) (env_validators env))\<rparr>
                   else n)
          in and_then (on_chain n (WriteBlock (nd_chain n) b)) (\<lambda>n _.
            case node_ApplyBlock L n b of
              (n, Some e) \<Rightarrow> Returns n ()
            | (n, None) \<Rightarrow>
                and_then (on_chain n (SetTip (nd_chain n) b)) (\<lambda>n _.
                  sync_loop cl L env bs (node_Remove cl n (blk_Transactions b))))))"

text \<open>Third branch: each block after the first names its predecessor and is valid in itself.\<close>

fun check_links :: "crypto_lib \<Rightarrow> Block option list \<Rightarrow> bool go_call" where
  "check_links cl (Some a # Some b # bs) =
     (if blk_PreviousHash b \<noteq> blk_Hash a \<or> \<not> ValidateBlock cl b then Value False else check_links cl (Some b # bs))"
| "check_links cl (None # _ # bs) = Panic"
| "check_links cl (Some a # None # bs) = Panic"
| "check_links cl _ = Value True"

fun write_blocks :: "Block list \<Rightarrow> 'db Node \<Rightarrow> ('db Node, unit) outcome" where
  "write_blocks [] n = Returns n ()"
| "write_blocks (b # bs) n = and_then (on_chain n (WriteBlock (nd_chain n) b)) (\<lambda>n _. write_blocks bs n)"

definition reorg ::
  "crypto_lib \<Rightarrow> 'db leveldb \<Rightarrow> Env \<Rightarrow> Block list \<Rightarrow> 'db Node \<Rightarrow> ('db Node, unit) outcome" where
  "reorg cl L env blocks n = and_then (write_blocks blocks n) (\<lambda>n _.
     case ResetAndReplay L (nd_state n) (env_allocation env) (env_validators env) blocks of
       (s, Some e) \<Rightarrow> Returns (n\<lparr>nd_state := s\<rparr>) ()
     | (s, None) \<Rightarrow>
         and_then (on_chain (n\<lparr>nd_state := s\<rparr>) (SetTip (nd_chain n) (last blocks))) (\<lambda>n _.
           Returns (fold (\<lambda>b n. node_Remove cl n (blk_Transactions b)) blocks n) ()))"

definition other_chain ::
  "crypto_lib \<Rightarrow> 'db leveldb \<Rightarrow> Env \<Rightarrow> nat \<Rightarrow> Block option \<Rightarrow> Block option list \<Rightarrow> 'db Node \<Rightarrow> ('db Node, unit) outcome" where
  "other_chain cl L env c last_b body n = (case check_links cl body of
     Panic \<Rightarrow> Panics n
   | Error \<Rightarrow> Returns n ()
   | Value False \<Rightarrow> Returns n ()
   | Value True \<Rightarrow>
       (case those body of
          None \<Rightarrow> Panics n
        | Some blocks \<Rightarrow>
            (let longer = (case last_b of None \<Rightarrow> False | Some l \<Rightarrow> blk_Height (last blocks) > blk_Height l) in
             if blk_Height (hd blocks) = 0 \<and> Hash_IsZero (blk_PreviousHash (hd blocks)) then
               (if longer then reorg cl L env blocks n else Returns n ())
             else if longer then
               Returns (n\<lparr>nd_net := fst (conn_Send (nd_net n) c KindGetBlocks
                 (get_blocks_json \<lparr>gb_FromHeight = 0, gb_Max = 10000\<rparr>))\<rparr>) ()
             else Returns n ())))"

definition handle_blocks ::
  "crypto_lib \<Rightarrow> 'db leveldb \<Rightarrow> Env \<Rightarrow> nat \<Rightarrow> Block option list \<Rightarrow> 'db Node \<Rightarrow> ('db Node, unit) outcome" where
  "handle_blocks cl L env c body n =
     (if length body = 0 then Returns n ()
      else and_then (lock_blockMu n) (\<lambda>n _.
        and_then (node_LastBlock n) (\<lambda>n last_b.
          and_then
            (case hd body of
               None \<Rightarrow> Panics n
             | Some b0 \<Rightarrow>
                 if (case last_b of None \<Rightarrow> False | Some l \<Rightarrow> blk_PreviousHash b0 = blk_Hash l)
                 then extend_loop cl L (getValidatorSet L n) body n
                 else if last_b = None \<and> blk_Height b0 = 0 \<and> Hash_IsZero (blk_PreviousHash b0)
                 then sync_loop cl L env body n
                 else other_chain cl L env c last_b body n)
            (\<lambda>n _. Returns (unlock_blockMu n) ()))))"

section \<open>A new block\<close>

definition accept_block :: "crypto_lib \<Rightarrow> 'db leveldb \<Rightarrow> Block \<Rightarrow> 'db Node \<Rightarrow> ('db Node, unit) outcome" where
  "accept_block cl L b n = and_then (node_LastBlock n) (\<lambda>n last_b.
     if (case last_b of None \<Rightarrow> True | Some l \<Rightarrow> blk_PreviousHash b \<noteq> blk_Hash l) then Returns n ()
     else and_then (on_chain n (WriteBlock (nd_chain n) b)) (\<lambda>n _.
       case node_ApplyBlock L n b of
         (n, Some e) \<Rightarrow> Returns n ()
       | (n, None) \<Rightarrow>
           and_then (on_chain n (SetTip (nd_chain n) b)) (\<lambda>n _.
             Returns (node_Broadcast (node_Remove cl n (blk_Transactions b)) KindNewBlock (block_json b)) ())))"

definition handle_new_block :: "crypto_lib \<Rightarrow> 'db leveldb \<Rightarrow> Block \<Rightarrow> 'db Node \<Rightarrow> ('db Node, unit) outcome" where
  "handle_new_block cl L b n = and_then (lock_blockMu n) (\<lambda>n _.
     let vset = getValidatorSet L n in
     if \<not> ValidateBlock cl b then Returns (unlock_blockMu n) ()
     else and_then (on_chain n (HasBlock (nd_chain n) (blk_Hash b))) (\<lambda>n has.
       if has \<or> (case vset of None \<Rightarrow> False | Some vs \<Rightarrow> \<not> VerifyBlockValidator vs b)
       then Returns (unlock_blockMu n) ()
       else case double_sign n b of
         (n, True) \<Rightarrow> Returns (unlock_blockMu (node_Slash L n (blk_ValidatorAddress b))) ()
       | (n, False) \<Rightarrow> and_then (accept_block cl L b n) (\<lambda>n _. Returns (unlock_blockMu n) ())))"

section \<open>The message loop\<close>

definition handle_new_tx :: "crypto_lib \<Rightarrow> 'db leveldb \<Rightarrow> Transaction \<Rightarrow> 'db Node \<Rightarrow> 'db Node" where
  "handle_new_tx cl L tx n = (case Mempool_Add cl L (Some (nd_state n)) (nd_pool n) tx of
     (m, None) \<Rightarrow> node_Broadcast (n\<lparr>nd_pool := m\<rparr>) KindNewTx (tx_json tx)
   | (m, Some e) \<Rightarrow> n\<lparr>nd_pool := m\<rparr>)"

text \<open>A block list read from disk goes out as pointers.\<close>

definition handle_get_blocks :: "nat \<Rightarrow> GetBlocksPayload \<Rightarrow> 'db Node \<Rightarrow> ('db Node, unit) outcome" where
  "handle_get_blocks c req n =
     (let mx = (if sint (gb_Max req) \<le> 0 then 50 else sint (gb_Max req))
      in and_then (on_chain n (GetBlocksFrom (nd_chain n) (gb_FromHeight req) mx)) (\<lambda>n r.
        let blocks = (case r of Inl e \<Rightarrow> [] | Inr bs \<Rightarrow> bs) in
        if length blocks > 0
        then Returns (n\<lparr>nd_net := fst (conn_Send (nd_net n) c KindBlocks
               (blocks_json \<lparr>bp_Blocks = map Some blocks\<rparr>))\<rparr>) ()
        else Returns n ()))"

definition unmarshal :: "json option \<Rightarrow> 'a decoder \<Rightarrow> 'a \<Rightarrow> 'a option" where
  "unmarshal payload f z = Option.bind payload (\<lambda>j. f j z)"

definition handle_message ::
  "crypto_lib \<Rightarrow> 'db leveldb \<Rightarrow> Env \<Rightarrow> nat \<Rightarrow> Kind \<Rightarrow> json option \<Rightarrow> 'db Node \<Rightarrow> ('db Node, unit) outcome" where
  "handle_message cl L env c kind payload n =
     (if kind = KindHello then
        (case unmarshal payload dec_hello zero_hello of
           None \<Rightarrow> Returns n ()
         | Some h \<Rightarrow>
             if hello_ListenAddr h \<noteq> [] \<and> hello_ListenAddr h \<noteq> env_p2pListen env
             then Returns (node_TryConnect n (hello_ListenAddr h)) () else Returns n ())
      else if kind = KindGetBlocks then
        (case unmarshal payload dec_get_blocks zero_get_blocks of
           None \<Rightarrow> Returns n () | Some req \<Rightarrow> handle_get_blocks c req n)
      else if kind = KindBlocks then
        (case unmarshal payload dec_blocks zero_blocks of
           None \<Rightarrow> Returns n () | Some body \<Rightarrow> handle_blocks cl L env c (bp_Blocks body) n)
      else if kind = KindNewBlock then
        (case unmarshal payload dec_block zero_block of
           None \<Rightarrow> Returns n () | Some b \<Rightarrow> handle_new_block cl L b n)
      else if kind = KindNewTx then
        (case unmarshal payload dec_tx zero_tx of
           None \<Rightarrow> Returns n () | Some tx \<Rightarrow> Returns (handle_new_tx cl L tx n) ())
      else if kind = KindGetPeers then Returns n ()
      else if kind = KindPeers then
        (case unmarshal payload dec_peers zero_peers of
           None \<Rightarrow> Returns n ()
         | Some body \<Rightarrow>
             Returns (fold (\<lambda>addr n. if addr \<noteq> env_p2pListen env \<and> addr \<noteq> [] then node_TryConnect n addr else n)
               (pp_Peers body) n) ())
      else Returns n ())"

fun message_loop ::
  "crypto_lib \<Rightarrow> 'db leveldb \<Rightarrow> Env \<Rightarrow> nat \<Rightarrow> (Kind \<times> json option) list \<Rightarrow> 'db Node \<Rightarrow> ('db Node, unit) outcome" where
  "message_loop cl L env c [] n = Returns n ()"
| "message_loop cl L env c ((kind, payload) # ms) n =
     and_then (handle_message cl L env c kind payload n) (\<lambda>n _. message_loop cl L env c ms n)"

text \<open>\<open>inp\<close> is what the peer sends before the connection ends.\<close>

definition onConn ::
  "crypto_lib \<Rightarrow> 'db leveldb \<Rightarrow> Env \<Rightarrow> nat \<Rightarrow> string \<Rightarrow> string \<Rightarrow> 'db Node \<Rightarrow> ('db Node, unit) outcome" where
  "onConn cl L env c remote inp n = (case AddPeer (nd_peers n) (nd_net n) c remote False of
     (p, nt, ok) \<Rightarrow>
       (let n = n\<lparr>nd_peers := p, nd_net := nt\<rparr> in
        if \<not> ok then Returns n ()
        else and_then (message_loop cl L env c (read_messages inp) n) (\<lambda>n _.
          case RemovePeer (nd_peers n) (nd_net n) remote of
            (p, nt) \<Rightarrow> Returns (n\<lparr>nd_peers := p, nd_net := nt\<rparr>) ())))"

text \<open>One round of the accept loop of the server.\<close>

definition acceptLoop :: "Env \<Rightarrow> nat \<Rightarrow> string \<Rightarrow> 'db Node \<Rightarrow> ('db Node, unit) outcome" where
  "acceptLoop env c remote n = and_then (getHeight n) (\<lambda>n height.
     Returns (n\<lparr>nd_net := accept_conn (env_server env) height (nd_net n) c remote\<rparr>) ())"

text \<open>The goroutine that asks the peers for blocks once after the start.\<close>

definition initial_sync :: "'db Node \<Rightarrow> ('db Node, unit) outcome" where
  "initial_sync n = and_then (node_LastBlock n) (\<lambda>n last_b.
     case last_b of
       None \<Rightarrow> Returns n ()
     | Some l \<Rightarrow> Returns (node_Broadcast n KindGetBlocks
         (get_blocks_json \<lparr>gb_FromHeight = blk_Height l + 1, gb_Max = 100\<rparr>)) ())"

section \<open>The block producer\<close>

text \<open>One tick; \<open>now\<close> is the clock and \<open>seed\<close> the randomness of the signature.\<close>

definition produce ::
  "crypto_lib \<Rightarrow> 'db leveldb \<Rightarrow> Env \<Rightarrow> u64 \<Rightarrow> nat \<Rightarrow> 'db Node \<Rightarrow> ('db Node, unit) outcome" where
  "produce cl L env now seed n = and_then (lock_blockMu n) (\<lambda>n _.
     and_then (on_chain n (LastBlock (nd_chain n))) (\<lambda>n r.
       case r of
         Inl e \<Rightarrow> Returns (unlock_blockMu n) ()
       | Inr None \<Rightarrow> Returns (unlock_blockMu n) ()
       | Inr (Some l) \<Rightarrow>
           (let vset = getValidatorSet L n in
            if (case vset of None \<Rightarrow> False | Some vs \<Rightarrow> ValidatorForHeight vs (blk_Height l + 1) \<noteq> env_validatorAddr env)
            then Returns (unlock_blockMu n) ()
            else
              let txs = Mempool_Pending (nd_pool n) 100 in
              if length txs = 0 then Returns (unlock_blockMu n) ()
              else
                let b = NewBlock cl now (blk_Height l + 1) (blk_Hash l) (env_validatorAddr env) txs in
                case Sign cl seed (env_priv env) (blk_Hash b) of
                  Error \<Rightarrow> Returns (unlock_blockMu n) ()
                | Panic \<Rightarrow> Panics n
                | Value sig \<Rightarrow>
                    (let b = b\<lparr>blk_Signature := sig\<rparr> in
                     case node_ApplyBlock L n b of
                       (n, Some e) \<Rightarrow> Returns (unlock_blockMu n) ()
                     | (n, None) \<Rightarrow>
                         and_then (on_chain n (AppendBlock (nd_chain n) b)) (\<lambda>n err.
                           case err of
                             Some e \<Rightarrow> Returns (unlock_blockMu n) ()
                           | None \<Rightarrow>
                               Returns (node_Broadcast (unlock_blockMu (node_Remove cl n txs)) KindNewBlock (block_json b)) ())))))"

end
