(* ===== verification/Api.thy ===== *)
theory Api
  imports Node
begin

text \<open>
  The HTTP handlers of \<^verbatim>\<open>src/cmd/node/main.go\<close>: submitting a transaction, the status and
  metrics pages, account queries and the block explorer. A request has a method, query parameters and
  a body; a response a status code and a body. The text of library errors is not modelled.
\<close>

section \<open>Requests and responses\<close>

record Request =
  rq_Method :: string
  rq_Query :: "(string \<times> string) list"
  rq_Body :: string

datatype body = BodyText string | BodyJSON json | BodyDecodeError | BodyPoolError mempool_error

record Response =
  rs_Status :: nat
  rs_Body :: body

definition query_Get :: "Request \<Rightarrow> string \<Rightarrow> string" where
  "query_Get rq k = (case map_of (rq_Query rq) k of None \<Rightarrow> [] | Some v \<Rightarrow> v)"

definition method_not_allowed :: Response where
  "method_not_allowed = \<lparr>rs_Status = 405, rs_Body = BodyText ''method not allowed''\<rparr>"

definition bad_request :: "string \<Rightarrow> Response" where
  "bad_request msg = \<lparr>rs_Status = 400, rs_Body = BodyText msg\<rparr>"

definition not_found :: Response where
  "not_found = \<lparr>rs_Status = 404, rs_Body = BodyText ''not found''\<rparr>"

definition ok_json :: "json \<Rightarrow> Response" where
  "ok_json j = \<lparr>rs_Status = 200, rs_Body = BodyJSON j\<rparr>"

text \<open>\<^verbatim>\<open>json.NewDecoder(r).Decode\<close>: the first value of the stream. What follows an object or an
  array is not read; after any other value only white space may follow.\<close>

definition json_Decode :: "string \<Rightarrow> json option" where
  "json_Decode s = (case parse_value (2 * length s + 2) s of
     None \<Rightarrow> None
   | Some (v, r) \<Rightarrow>
       if (case v of JObj _ \<Rightarrow> True | JArr _ \<Rightarrow> True | _ \<Rightarrow> False) \<or> r = [] \<or> is_ws (hd r) then Some v else None)"

text \<open>\<^verbatim>\<open>fmt.Sscanf(s, "%d", &x)\<close> for an \<^verbatim>\<open>int\<close> and a \<^verbatim>\<open>uint64\<close>: leading blanks, a
  sign for the signed type, then the longest run of digits; the rest is not read.\<close>

definition is_blank :: "char \<Rightarrow> bool" where
  "is_blank c \<longleftrightarrow> c = CHR 0x20 \<or> c = CHR 0x09 \<or> c = CHR 0x0B \<or> c = CHR 0x0C \<or> c = CHR 0x0D"

definition Sscanf_int :: "string \<Rightarrow> int option" where
  "Sscanf_int s =
     (let r = dropWhile is_blank s;
          sg = (if starts (CHR ''-'') r then ''-'' else []);
          r = (if starts (CHR ''-'') r \<or> starts (CHR ''+'') r then tl r else r)
      in if takeWhile is_digit r = [] then None else map_option sint (ParseInt64 (sg @ takeWhile is_digit r)))"

definition Sscanf_uint64 :: "string \<Rightarrow> u64 option" where
  "Sscanf_uint64 s = ParseUint64 (takeWhile is_digit (dropWhile is_blank s))"

section \<open>Handlers\<close>

definition http_tx :: "crypto_lib \<Rightarrow> 'db leveldb \<Rightarrow> Request \<Rightarrow> 'db Node \<Rightarrow> 'db Node \<times> Response" where
  "http_tx cl L rq n =
     (if rq_Method rq \<noteq> ''POST'' then (n, method_not_allowed)
      else case Option.bind (json_Decode (rq_Body rq)) (\<lambda>j. dec_tx j zero_tx) of
        None \<Rightarrow> (n, \<lparr>rs_Status = 400, rs_Body = BodyDecodeError\<rparr>)
      | Some tx \<Rightarrow>
          (case Mempool_Add cl L (Some (nd_state n)) (nd_pool n) tx of
             (m, Some e) \<Rightarrow> (n\<lparr>nd_pool := m\<rparr>, \<lparr>rs_Status = 400, rs_Body = BodyPoolError e\<rparr>)
           | (m, None) \<Rightarrow>
               (node_Broadcast (n\<lparr>nd_pool := m\<rparr>) KindNewTx (tx_json tx),
                \<lparr>rs_Status = 202, rs_Body = BodyText (''tx hash: '' @ Hash_Hex (TxHash cl tx) @ [newline])\<rparr>)))"

definition http_status :: "'db Node \<Rightarrow> ('db Node, Response) outcome" where
  "http_status n = and_then (getHeight n) (\<lambda>n h.
     Returns n \<lparr>rs_Status = 200, rs_Body = BodyText (''height: '' @ decimal (unat h) @ [newline] @
       ''mempool: '' @ decimal (Mempool_Size (nd_pool n)) @ [newline])\<rparr>)"

definition account_json :: "u64 \<Rightarrow> u64 \<Rightarrow> json" where
  "account_json balance nonce = JObj [(''balance'', enc_uint64 balance), (''nonce'', enc_uint64 nonce)]"

definition http_account :: "'db leveldb \<Rightarrow> Request \<Rightarrow> 'db Node \<Rightarrow> Response" where
  "http_account L rq n =
     (if rq_Method rq \<noteq> ''GET'' then method_not_allowed
      else let addrHex = query_Get rq ''address'' in
        if addrHex = [] then bad_request ''missing address''
        else case AddressFromHex addrHex of
          None \<Rightarrow> bad_request ''invalid address''
        | Some addr \<Rightarrow>
            ok_json (account_json (fst (GetBalance L (nd_state n) addr)) (fst (GetNonce L (nd_state n) addr))))"

definition http_blocks :: "Request \<Rightarrow> 'db Node \<Rightarrow> ('db Node, Response) outcome" where
  "http_blocks rq n =
     (if rq_Method rq \<noteq> ''GET'' then Returns n method_not_allowed
      else
        let l = query_Get rq ''limit'';
            limit = (if l = [] then 20
                     else let v = (case Sscanf_int l of None \<Rightarrow> 20 | Some v \<Rightarrow> v)
                          in if v \<le> 0 \<or> v > 100 then 20 else v)
        in and_then (node_LastBlock n) (\<lambda>n last_b.
          case last_b of
            None \<Rightarrow> Returns n (ok_json (JArr []))
          | Some b \<Rightarrow>
              (let from = (if blk_Height b \<ge> word_of_int limit then blk_Height b - word_of_int limit + 1 else 0)
               in and_then (on_chain n (GetBlocksFrom (nd_chain n) from limit)) (\<lambda>n r.
                 Returns n (ok_json (enc_list block_json (case r of Inl e \<Rightarrow> [] | Inr bs \<Rightarrow> bs)))))))"

definition http_block :: "Request \<Rightarrow> 'db Node \<Rightarrow> ('db Node, Response) outcome" where
  "http_block rq n =
     (if rq_Method rq \<noteq> ''GET'' then Returns n method_not_allowed
      else if query_Get rq ''hash'' \<noteq> [] then
        and_then (on_chain n (GetBlock (nd_chain n) (HashFromHex (query_Get rq ''hash'')))) (\<lambda>n r.
          Returns n (case r of Inl e \<Rightarrow> not_found | Inr b \<Rightarrow> ok_json (block_json b)))
      else if query_Get rq ''height'' \<noteq> [] then
        (case Sscanf_uint64 (query_Get rq ''height'') of
           None \<Rightarrow> Returns n (bad_request ''invalid height'')
         | Some height \<Rightarrow>
             Returns n (case GetBlockByHeight (nd_chain n) height of
               Inl e \<Rightarrow> not_found
             | Inr b \<Rightarrow> ok_json (block_ptr_json b)))
      else Returns n (bad_request ''need ?hash= or ?height=''))"

text \<open>\<open>since\<close> gives the JSON text of the seconds since a timestamp.\<close>

definition http_metrics :: "(u64 \<Rightarrow> string) \<Rightarrow> Request \<Rightarrow> 'db Node \<Rightarrow> ('db Node, Response) outcome" where
  "http_metrics since rq n =
     (if rq_Method rq \<noteq> ''GET'' then Returns n method_not_allowed
      else and_then (node_LastBlock n) (\<lambda>n last_b.
        let height = (case last_b of None \<Rightarrow> 0 | Some b \<Rightarrow> blk_Height b);
            blockTime = (case last_b of None \<Rightarrow> ''0''
              | Some b \<Rightarrow> if sint (blk_Timestamp b) > 0 then since (blk_Timestamp b) else ''0'')
        in Returns n (ok_json (JObj
             [(''block_time_s'', JNum blockTime), (''height'', enc_uint64 height),
              (''mempool'', JNum (decimal (Mempool_Size (nd_pool n)))),
              (''peers'', JNum (decimal (PeerCount (nd_peers n))))]))))"

end
