(* ===== verification/Commands.thy ===== *)
theory Commands
  imports Api
begin

text \<open>
  The commands of \<^verbatim>\<open>src/cmd/node/main.go\<close> around the running node (argument dispatch,
  \<^verbatim>\<open>runInit\<close>, \<^verbatim>\<open>runInitJoin\<close>, the start of \<^verbatim>\<open>runNodeLoop\<close>, \<^verbatim>\<open>runKeygen\<close>,
  \<^verbatim>\<open>runSend\<close>) and the load generator \<^verbatim>\<open>src/cmd/loadgen/main.go\<close>. \<open>opened\<close> is what opening
  the LevelDB directory gives; the result state holds the directory and the database.
\<close>

section \<open>Arguments\<close>

record Flags =
  fl_dataDir :: string
  fl_init :: bool
  fl_initJoin :: string
  fl_run :: bool
  fl_keygen :: string
  fl_sendTo :: string
  fl_sendAmount :: u64
  fl_sendFee :: u64
  fl_sendKey :: string
  fl_sendAPI :: string
  fl_sendNonce :: u64
  fl_p2pListen :: string
  fl_p2pSeeds :: string
  fl_apiPort :: string

datatype command = CmdKeygen string | CmdSend string string u64 u64 u64 string | CmdInit string
  | CmdInitJoin string string | CmdRun string string "string list" string | CmdUsage

text \<open>\<^verbatim>\<open>strings.FieldsFunc\<close> with the comma as separator: no empty fields.\<close>

fun fields_comma :: "string \<Rightarrow> string \<Rightarrow> string list" where
  "fields_comma acc [] = (if acc = [] then [] else [acc])"
| "fields_comma acc (c # s) =
     (if c = CHR '','' then (if acc = [] then fields_comma [] s else acc # fields_comma [] s)
      else fields_comma (acc @ [c]) s)"

definition main_command :: "Flags \<Rightarrow> command" where
  "main_command f =
     (if fl_keygen f \<noteq> [] then CmdKeygen (fl_keygen f)
      else if fl_sendTo f \<noteq> [] \<and> fl_sendKey f \<noteq> []
      then CmdSend (fl_sendKey f) (fl_sendTo f) (fl_sendAmount f) (fl_sendFee f) (fl_sendNonce f) (fl_sendAPI f)
      else if fl_init f then CmdInit (fl_dataDir f)
      else if fl_initJoin f \<noteq> [] then CmdInitJoin (fl_dataDir f) (fl_initJoin f)
      else if fl_run f then CmdRun (fl_dataDir f) (fl_p2pListen f) (fields_comma [] (fl_p2pSeeds f)) (fl_apiPort f)
      else CmdUsage)"

section \<open>Initialisation\<close>

datatype cmd_error = CmdIO io_error | CmdDB db_error | CmdOpen | CmdKey | CmdListen

definition validatorKeyFile :: string where "validatorKeyFile = ''validator_key.json''"

text \<open>The last steps the three commands share: the chain of the directory gets the genesis block; a
  nil block panics.\<close>

definition append_genesis ::
  "disk \<Rightarrow> 'db option \<Rightarrow> Block option \<Rightarrow> (disk \<times> 'db option, cmd_error option) outcome" where
  "append_genesis d db genesis = (case NewChain d (Some DefaultChainConfig) of
     Inl e \<Rightarrow> Returns (d, db) (Some (CmdIO e))
   | Inr c \<Rightarrow>
       (case genesis of
          None \<Rightarrow> Panics (d, db)
        | Some g \<Rightarrow>
            (case AppendBlock c g of
               Returns c err \<Rightarrow> Returns (ch_disk c, db) (map_option CmdIO err)
             | Panics c \<Rightarrow> Panics (ch_disk c, db)
             | Blocks c \<Rightarrow> Blocks (ch_disk c, db))))"

definition runInit ::
  "crypto_lib \<Rightarrow> 'db leveldb \<Rightarrow> nat \<Rightarrow> 'db option \<Rightarrow> disk \<Rightarrow> (disk \<times> 'db option, cmd_error option) outcome" where
  "runInit cl L seed opened d = (case os_MkdirAll d [] of
     Some e \<Rightarrow> Returns (d, opened) (Some (CmdIO e))
   | None \<Rightarrow>
   (case GenerateKey cl seed of
      None \<Rightarrow> Returns (d, opened) (Some CmdKey)
    | Some priv \<Rightarrow>
      let validatorAddr = PubkeyToAddress cl (Some (PublicKey priv)) in
      case SaveKey d validatorKeyFile (Some priv) of
        (d, Some e) \<Rightarrow> Returns (d, opened) (Some (CmdIO e))
      | (d, None) \<Rightarrow>
        let cfg = DefaultChainConfig;
            genesisValidators = [\<lparr>vg_Address = Address_Hex validatorAddr, vg_Stake = MinStake\<rparr>] in
        case WriteGenesisFile cl d cfg validatorAddr genesisValidators of
          (d, Some e) \<Rightarrow> Returns (d, opened) (Some (CmdIO e))
        | (d, None) \<Rightarrow>
          case Open opened (Some cfg) of
            None \<Rightarrow> Returns (d, opened) (Some CmdOpen)
          | Some st \<Rightarrow>
            case LoadGenesisFromFile d of
              Inl e \<Rightarrow> Returns (d, opened) (Some (CmdIO e))
            | Inr g \<Rightarrow>
              case ApplyGenesis L st (gf_Allocation g) (gf_Validators g) of
                (st, Some e) \<Rightarrow> Returns (d, Some (State_Close st)) (Some (CmdDB e))
              | (st, None) \<Rightarrow> append_genesis d (Some (State_Close st)) (Some (GenesisBlock cl validatorAddr))))"

text \<open>\<open>join\<close> is the directory of the node to join.\<close>

definition runInitJoin ::
  "crypto_lib \<Rightarrow> 'db leveldb \<Rightarrow> nat \<Rightarrow> 'db option \<Rightarrow> disk \<Rightarrow> disk \<Rightarrow> (disk \<times> 'db option, cmd_error option) outcome" where
  "runInitJoin cl L seed opened join d = (case os_MkdirAll d [] of
     Some e \<Rightarrow> Returns (d, opened) (Some (CmdIO e))
   | None \<Rightarrow>
   (case os_ReadFile join ''genesis.json'' of
      NotExist \<Rightarrow> Returns (d, opened) (Some (CmdIO NotExistError))
    | ReadFailed \<Rightarrow> Returns (d, opened) (Some (CmdIO IOError))
    | Content data \<Rightarrow>
      case os_WriteFile d ''genesis.json'' data of
        (d, Some e) \<Rightarrow> Returns (d, opened) (Some (CmdIO e))
      | (d, None) \<Rightarrow>
        case LoadGenesisFromFile d of
          Inl e \<Rightarrow> Returns (d, opened) (Some (CmdIO e))
        | Inr g \<Rightarrow>
          case GenerateKey cl seed of
            None \<Rightarrow> Returns (d, opened) (Some CmdKey)
          | Some priv \<Rightarrow>
            case SaveKey d validatorKeyFile (Some priv) of
              (d, Some e) \<Rightarrow> Returns (d, opened) (Some (CmdIO e))
            | (d, None) \<Rightarrow>
              case Open opened (Some DefaultChainConfig) of
                None \<Rightarrow> Returns (d, opened) (Some CmdOpen)
              | Some st \<Rightarrow>
                case ApplyGenesis L st (gf_Allocation g) (gf_Validators g) of
                  (st, Some e) \<Rightarrow> Returns (d, Some (State_Close st)) (Some (CmdDB e))
                | (st, None) \<Rightarrow>
                  append_genesis d (Some (State_Close st))
                    (case LoadGenesisFromFile d of Inl e \<Rightarrow> None | Inr g \<Rightarrow> gf_Block g)))"

section \<open>Starting the node\<close>

text \<open>The block of \<^verbatim>\<open>runNodeLoop\<close> for a chain without a tip: apply the genesis and append its
  block.\<close>

definition ensure_genesis ::
  "'db leveldb \<Rightarrow> 'db option \<Rightarrow> genesisFile \<Rightarrow> Chain \<Rightarrow> (Chain \<times> 'db option, cmd_error option) outcome" where
  "ensure_genesis L opened g c =
     (if \<not> Hash_IsZero (ch_LastHash c) then Returns (c, opened) None
      else case Open opened (Some DefaultChainConfig) of
        None \<Rightarrow> Returns (c, opened) (Some CmdOpen)
      | Some st \<Rightarrow>
          (case ApplyGenesis L st (gf_Allocation g) (gf_Validators g) of
             (st, Some e) \<Rightarrow> Returns (c, Some (State_Close st)) (Some (CmdDB e))
           | (st, None) \<Rightarrow>
               (case LoadGenesisFromFile (ch_disk c) of
                  Inl e \<Rightarrow> Panics (c, Some (State_Close st))
                | Inr g \<Rightarrow>
                    (case gf_Block g of
                       None \<Rightarrow> Panics (c, Some (State_Close st))
                     | Some b \<Rightarrow>
                         (case AppendBlock c b of
                            Returns c err \<Rightarrow> Returns (c, Some (State_Close st)) (map_option CmdIO err)
                          | Panics c \<Rightarrow> Panics (c, Some (State_Close st))
                          | Blocks c \<Rightarrow> Blocks (c, Some (State_Close st)))))))"

text \<open>From the loaded chain to the connected node; \<open>bound\<close> and \<open>net\<close> are the network's answers.\<close>

definition start_services ::
  "crypto_lib \<Rightarrow> bool \<Rightarrow> Net \<Rightarrow> string \<Rightarrow> string list \<Rightarrow> genesisFile \<Rightarrow> Chain \<times> 'db option \<Rightarrow>
   (Chain \<times> 'db option, cmd_error + Env \<times> 'db Node) outcome" where
  "start_services cl bound net p2pListen seeds g = (\<lambda>(c, opened).
     case Open opened (Some DefaultChainConfig) of
       None \<Rightarrow> Returns (c, opened) (Inl CmdOpen)
     | Some st \<Rightarrow>
       (case LoadKey (ch_disk c) validatorKeyFile of
          Error \<Rightarrow> Returns (c, opened) (Inl CmdKey)
        | Panic \<Rightarrow> Panics (c, opened)
        | Value None \<Rightarrow> Panics (c, opened)
        | Value (Some priv) \<Rightarrow>
          (case LoadGenesisFromFile (ch_disk c) of
             Inl e \<Rightarrow> Panics (c, opened)
           | Inr g' \<Rightarrow>
             (case gf_Block g' of
                None \<Rightarrow> Panics (c, opened)
              | Some genesis \<Rightarrow>
                (case Server_Listen bound (Server_OnConn (NewServer p2pListen (blk_Hash genesis))) of
                   (srv, True) \<Rightarrow> Returns (c, opened) (Inl CmdListen)
                 | (srv, False) \<Rightarrow>
                   (case ConnectToSeeds (NewPeerSet 50 seeds p2pListen) net of
                      (ps, net) \<Rightarrow>
                        Returns (c, opened) (Inr
                          (\<lparr>env_allocation = gf_Allocation g, env_validators = gf_Validators g,
                            env_p2pListen = p2pListen, env_priv = priv,
                            env_validatorAddr = PubkeyToAddress cl (Some (PublicKey priv)), env_server = srv\<rparr>,
                           \<lparr>nd_chain = c, nd_state = st, nd_pool = Mempool_New (cfg_MaxBlockSize DefaultChainConfig div 500),
                            nd_peers = ps, nd_net = net, nd_blockMu = False, nd_doubleSign = []\<rparr>))))))))"

text \<open>\<open>None\<close>: the chain metadata cannot be read.\<close>

definition runNodeLoop ::
  "crypto_lib \<Rightarrow> 'db leveldb \<Rightarrow> bool \<Rightarrow> Net \<Rightarrow> 'db option \<Rightarrow> disk \<Rightarrow> string \<Rightarrow> string list \<Rightarrow>
   (Chain \<times> 'db option, cmd_error + Env \<times> 'db Node) outcome option" where
  "runNodeLoop cl L bound net opened d p2pListen seeds = (case NewChain d (Some DefaultChainConfig) of
     Inl e \<Rightarrow> None
   | Inr c \<Rightarrow>
       Some (case LoadGenesisFromFile d of
          Inl e \<Rightarrow> Returns (c, opened) (Inl (CmdIO e))
        | Inr g \<Rightarrow>
            and_then (ensure_genesis L opened g c) (\<lambda>s err.
              case err of
                Some e \<Rightarrow> Returns s (Inl e)
              | None \<Rightarrow> start_services cl bound net p2pListen seeds g s)))"

section \<open>Client commands\<close>

text \<open>\<open>d\<close> is the directory the key file is written to; the printed address is the result.\<close>

definition runKeygen :: "crypto_lib \<Rightarrow> nat \<Rightarrow> string \<Rightarrow> disk \<Rightarrow> disk \<times> (cmd_error + string)" where
  "runKeygen cl seed keyFile d = (case GenerateKey cl seed of
     None \<Rightarrow> (d, Inl CmdKey)
   | Some priv \<Rightarrow>
       (case SaveKey d keyFile (Some priv) of
          (d, Some e) \<Rightarrow> (d, Inl (CmdIO e))
        | (d, None) \<Rightarrow> (d, Inr (Address_Hex (PubkeyToAddress cl (Some (PublicKey priv)))))))"

datatype send_error = AmountRequired | BadKey | BadAddress | FetchNonce | DecodeAccount | SignFailed | PostFailed
  | NodeReturned nat

definition nonce_fields :: "(string \<times> u64 decoder) list" where
  "nonce_fields = [(''nonce'', \<lambda>j v. dec_uint64 j v)]"

definition signed_tx :: "crypto_lib \<Rightarrow> nat \<Rightarrow> privkey \<Rightarrow> address \<Rightarrow> u64 \<Rightarrow> u64 \<Rightarrow> u64 \<Rightarrow> Transaction go_call" where
  "signed_tx cl seed priv toAddr amount fee nonce =
     (let tx = \<lparr>tx_From = PubkeyToAddress cl (Some (PublicKey priv)), tx_To = toAddr, tx_Amount = amount,
                tx_Fee = fee, tx_Nonce = nonce, tx_SenderPubkey = MarshalPubkey cl (Some (PublicKey priv)),
                tx_Signature = []\<rparr>
      in case Sign cl seed priv (TxHash cl tx) of
           Value sig \<Rightarrow> Value (tx\<lparr>tx_Signature := sig\<rparr>) | Error \<Rightarrow> Error | Panic \<Rightarrow> Panic)"

text \<open>\<open>get\<close> is \<^verbatim>\<open>http.Get\<close> of the account page (its body), \<open>post\<close> is \<^verbatim>\<open>http.Post\<close> to
  \<^verbatim>\<open>/tx\<close> (its status); \<open>None\<close> is a transport error.\<close>

definition runSend ::
  "crypto_lib \<Rightarrow> nat \<Rightarrow> disk \<Rightarrow> string \<Rightarrow> string \<Rightarrow> u64 \<Rightarrow> u64 \<Rightarrow> u64 \<Rightarrow> (string \<Rightarrow> string option) \<Rightarrow>
   (string \<Rightarrow> nat option) \<Rightarrow> (send_error + string) go_call" where
  "runSend cl seed d keyFile toAddrHex amount fee nonce get post =
     (if amount = 0 then Value (Inl AmountRequired)
      else case LoadKey d keyFile of
        Error \<Rightarrow> Value (Inl BadKey)
      | Panic \<Rightarrow> Panic
      | Value None \<Rightarrow> Panic
      | Value (Some priv) \<Rightarrow>
        (case AddressFromHex toAddrHex of
           None \<Rightarrow> Value (Inl BadAddress)
         | Some toAddr \<Rightarrow>
           (let fetched =
              (if nonce \<noteq> 0 then Inr nonce
               else case get (Address_Hex (PubkeyToAddress cl (Some (PublicKey priv)))) of
                 None \<Rightarrow> Inl FetchNonce
               | Some body \<Rightarrow>
                   (case Option.bind (json_Decode body) (\<lambda>j. dec_struct nonce_fields j 0) of
                      None \<Rightarrow> Inl DecodeAccount | Some v \<Rightarrow> Inr v))
            in case fetched of
              Inl e \<Rightarrow> Value (Inl e)
            | Inr nonce \<Rightarrow>
              (case signed_tx cl seed priv toAddr amount fee nonce of
                 Panic \<Rightarrow> Panic
               | Error \<Rightarrow> Value (Inl SignFailed)
               | Value tx \<Rightarrow>
                 (case post (json_Marshal (tx_json tx)) of
                    None \<Rightarrow> Value (Inl PostFailed)
                  | Some status \<Rightarrow>
                      if status \<noteq> 202 then Value (Inl (NodeReturned status))
                      else Value (Inr (Hash_Hex (TxHash cl tx))))))))"

section \<open>The load generator\<close>

definition burn_address :: address where
  "burn_address = zero_address[19 := 1]"

text \<open>One request of a worker; \<open>nonce\<close> is the account nonce read at the start. The answer is whether the node
  accepted the transaction; a transaction that cannot be signed or sent is skipped.\<close>

definition loadgen_tx :: "crypto_lib \<Rightarrow> nat \<Rightarrow> privkey \<Rightarrow> u64 \<Rightarrow> u64 \<Rightarrow> Transaction go_call" where
  "loadgen_tx cl seed priv nonce i = signed_tx cl seed priv burn_address 1 MinFee (nonce + i)"

definition loadgen_request ::
  "crypto_lib \<Rightarrow> nat \<Rightarrow> privkey \<Rightarrow> u64 \<Rightarrow> (string \<Rightarrow> 's \<Rightarrow> 's \<times> nat option) \<Rightarrow> u64 \<Rightarrow> 's \<Rightarrow> ('s \<times> bool) go_call" where
  "loadgen_request cl seed priv nonce post i s = (case loadgen_tx cl seed priv nonce i of
     Panic \<Rightarrow> Panic
   | Error \<Rightarrow> Value (s, False)
   | Value tx \<Rightarrow> (case post (json_Marshal (tx_json tx)) s of (s, status) \<Rightarrow> Value (s, status = Some 202)))"

text \<open>The workers and the collector: the loop variable of each worker (the 64-bit pattern of a Go \<^verbatim>\<open>int\<close>, read with
  \<open>sint\<close>; adding the number of workers may wrap around), the numbers of the requests made so far (newest first, a history the
  program does not keep), the number of tokens in the channel \<^verbatim>\<open>done\<close>, whose capacity is the number of
  transactions, and the count of the collector. The events are a request of one worker, a receive and the timeout of the
  \<^verbatim>\<open>select\<close>. The value \<open>None\<close>: the program still runs after these events, or they cannot happen in this order.\<close>

record 's Load =
  lg_node :: 's
  lg_next :: "u64 list"
  lg_sent :: "u64 list"
  lg_done :: nat
  lg_accepted :: nat

datatype load_event = Post nat | Receive | Timeout

fun loadgen_loop ::
  "(u64 \<Rightarrow> 's \<Rightarrow> ('s \<times> bool) go_call) \<Rightarrow> u64 \<Rightarrow> u64 \<Rightarrow> load_event list \<Rightarrow> 's Load \<Rightarrow> 's Load go_call option" where
  "loadgen_loop request n concurrency [] ld = (if int (lg_accepted ld) < sint n then None else Some (Value ld))"
| "loadgen_loop request n concurrency (ev # evs) ld =
     (if \<not> int (lg_accepted ld) < sint n then Some (Value ld)
      else case ev of
        Receive \<Rightarrow>
          if lg_done ld = 0 then None
          else loadgen_loop request n concurrency evs (ld\<lparr>lg_done := lg_done ld - 1, lg_accepted := lg_accepted ld + 1\<rparr>)
      | Timeout \<Rightarrow> Some (Value ld)
      | Post c \<Rightarrow>
          if \<not> (c < length (lg_next ld) \<and> sint (lg_next ld ! c) < sint n) then None
          else
            (let i = lg_next ld ! c in
             case request i (lg_node ld) of
               Panic \<Rightarrow> Some Panic
             | Error \<Rightarrow> Some Error
             | Value (s, ok) \<Rightarrow>
                 (let ld = ld\<lparr>lg_node := s, lg_next := (lg_next ld)[c := i + concurrency], lg_sent := i # lg_sent ld\<rparr> in
                  if \<not> ok then loadgen_loop request n concurrency evs ld
                  else if int (lg_done ld) < sint n
                  then loadgen_loop request n concurrency evs (ld\<lparr>lg_done := lg_done ld + 1\<rparr>)
                  else None)))"

text \<open>The start: the key, and the nonce of its account from the node.\<close>

definition loadgen_start ::
  "crypto_lib \<Rightarrow> disk \<Rightarrow> string \<Rightarrow> (string \<Rightarrow> string option) \<Rightarrow> (send_error + privkey \<times> u64) go_call" where
  "loadgen_start cl d keyFile get =
     (if keyFile = [] then Value (Inl BadKey)
      else case LoadKey d keyFile of
        Error \<Rightarrow> Value (Inl BadKey)
      | Panic \<Rightarrow> Panic
      | Value None \<Rightarrow> Panic
      | Value (Some priv) \<Rightarrow>
        (case get (Address_Hex (PubkeyToAddress cl (Some (PublicKey priv)))) of
           None \<Rightarrow> Value (Inl FetchNonce)
         | Some body \<Rightarrow>
             (case Option.bind (json_Decode body) (\<lambda>j. dec_struct nonce_fields j 0) of
                None \<Rightarrow> Value (Inl DecodeAccount)
              | Some nonce \<Rightarrow> Value (Inr (priv, nonce)))))"

text \<open>The whole program, run against a node with these events. A channel of negative capacity, or of one that the
  runtime cannot allocate (more than \<open>maxChan\<close>), is a panic.\<close>

definition loadgen_workers :: "u64 \<Rightarrow> u64 list" where
  "loadgen_workers concurrency = map of_nat [0..<nat (sint concurrency)]"

definition loadgen ::
  "crypto_lib \<Rightarrow> nat \<Rightarrow> int \<Rightarrow> disk \<Rightarrow> string \<Rightarrow> u64 \<Rightarrow> u64 \<Rightarrow> (string \<Rightarrow> string option) \<Rightarrow> (string \<Rightarrow> 's \<Rightarrow> 's \<times> nat option) \<Rightarrow>
   load_event list \<Rightarrow> 's \<Rightarrow> (send_error + 's Load) go_call option" where
  "loadgen cl seed maxChan d keyFile n concurrency get post evs s = (case loadgen_start cl d keyFile get of
     Panic \<Rightarrow> Some Panic
   | Error \<Rightarrow> Some Error
   | Value (Inl e) \<Rightarrow> Some (Value (Inl e))
   | Value (Inr (priv, nonce)) \<Rightarrow>
       if sint n < 0 \<or> maxChan < sint n then Some Panic
       else map_option (map_go_call Inr) (loadgen_loop (loadgen_request cl seed priv nonce post) n concurrency evs
         \<lparr>lg_node = s, lg_next = loadgen_workers concurrency, lg_sent = [], lg_done = 0, lg_accepted = 0\<rparr>))"

end
