(* ===== verification/Node_Laws.thy ===== *)
theory Node_Laws
  imports Commands
begin

text \<open>
  Properties of the running node: the invariant every handler keeps, what a peer's block can change,
  the effect of a producer tick, and the state in which the node no longer makes progress.
\<close>

section \<open>The invariant\<close>

definition node_ok :: "crypto_lib \<Rightarrow> 'db Node \<Rightarrow> bool" where
  "node_ok cl n \<longleftrightarrow> mempool_ok cl (nd_pool n) \<and> list_all wf_tx (mp_txs (nd_pool n)) \<and> peers_ok (nd_peers n)"

lemma and_then_inv:
  "P (final_state r) \<Longrightarrow> (\<And>s a. P s \<Longrightarrow> P (final_state (f s a))) \<Longrightarrow> P (final_state (and_then r f))"
  by (cases r) auto

lemma on_chain_final: "\<exists>c. final_state (on_chain n r) = n\<lparr>nd_chain := c\<rparr>"
  by (cases r) (auto simp: on_chain_def)

lemma node_ok_on_chain: "node_ok cl n \<Longrightarrow> node_ok cl (final_state (on_chain n r))"
  using on_chain_final [of n r] by (auto simp: node_ok_def)

lemma node_ok_LastBlock: "node_ok cl n \<Longrightarrow> node_ok cl (final_state (node_LastBlock n))"
  unfolding node_LastBlock_def by (rule and_then_inv) (simp_all add: node_ok_on_chain)

lemma node_ok_lock: "node_ok cl n \<Longrightarrow> node_ok cl (final_state (lock_blockMu n))"
  by (simp add: lock_blockMu_def node_ok_def)

lemma node_ok_updates [simp]:
  "node_ok cl (n\<lparr>nd_state := s\<rparr>) = node_ok cl n" "node_ok cl (n\<lparr>nd_net := nt\<rparr>) = node_ok cl n"
  "node_ok cl (n\<lparr>nd_doubleSign := t\<rparr>) = node_ok cl n" "node_ok cl (n\<lparr>nd_chain := c\<rparr>) = node_ok cl n"
  "node_ok cl (n\<lparr>nd_blockMu := b\<rparr>) = node_ok cl n"
  by (simp_all add: node_ok_def)

lemma node_ok_small [simp]:
  "node_ok cl (unlock_blockMu n) = node_ok cl n" "node_ok cl (node_Slash L n a) = node_ok cl n"
  "node_ok cl (node_Broadcast n k p) = node_ok cl n"
  by (simp_all add: unlock_blockMu_def node_Slash_def node_Broadcast_def)

lemma node_ok_Remove: "node_ok cl n \<Longrightarrow> node_ok cl (node_Remove cl n txs)"
  using mempool_ok_Remove [of cl "nd_pool n" txs]
  by (auto simp: node_ok_def node_Remove_def Mempool_Remove_def list_all_iff)

lemma node_ok_ApplyBlock: "node_ApplyBlock L n b = (n', e) \<Longrightarrow> node_ok cl n' \<longleftrightarrow> node_ok cl n"
  by (auto simp: node_ApplyBlock_def split: prod.splits)

lemma node_ok_double_sign: "double_sign n b = (n', x) \<Longrightarrow> node_ok cl n' \<longleftrightarrow> node_ok cl n"
  by (auto simp: double_sign_def Let_def split: option.splits if_splits)

lemma node_ok_TryConnect: "node_ok cl n \<Longrightarrow> node_ok cl (node_TryConnect n addr)"
  using peers_ok_TryConnect [of "nd_peers n" "nd_net n" addr]
  by (auto simp: node_ok_def node_TryConnect_def split: prod.splits)

lemmas node_ok_steps = and_then_inv [of "node_ok _"] node_ok_on_chain node_ok_LastBlock node_ok_lock node_ok_Remove

lemmas node_ok_calls = node_ok_double_sign node_ok_ApplyBlock

lemma node_ok_extend_loop: "node_ok cl n \<Longrightarrow> node_ok cl (final_state (extend_loop cl L vset bs n))"
proof (induction bs arbitrary: n vset)
  case (Cons b bs)
  then show ?case
    by (cases b) (auto intro!: node_ok_steps Cons.IH dest!: node_ok_calls [where cl = cl]
        split: prod.split bool.split option.split)
qed simp

lemma node_ok_sync_loop: "node_ok cl n \<Longrightarrow> node_ok cl (final_state (sync_loop cl L env bs n))"
proof (induction bs arbitrary: n)
  case (Cons b bs)
  then show ?case
    by (cases b) (auto simp: Let_def intro!: node_ok_steps Cons.IH dest!: node_ok_calls [where cl = cl]
        split: prod.split bool.split option.split)
qed simp

lemma node_ok_write_blocks: "node_ok cl n \<Longrightarrow> node_ok cl (final_state (write_blocks bs n))"
  by (induction bs arbitrary: n) (auto intro!: node_ok_steps)

lemma node_ok_fold_Remove: "node_ok cl n \<Longrightarrow> node_ok cl (fold (\<lambda>b n. node_Remove cl n (blk_Transactions b)) bs n)"
  by (induction bs arbitrary: n) (auto intro: node_ok_Remove)

lemma node_ok_reorg: "node_ok cl n \<Longrightarrow> node_ok cl (final_state (reorg cl L env bs n))"
  unfolding reorg_def
  by (auto intro!: node_ok_steps node_ok_write_blocks node_ok_fold_Remove split: prod.split option.split)

lemma node_ok_other_chain: "node_ok cl n \<Longrightarrow> node_ok cl (final_state (other_chain cl L env c l body n))"
  unfolding other_chain_def
  by (auto simp: Let_def intro!: node_ok_reorg split: go_call.split bool.split option.split)

lemma node_ok_handle_blocks: "node_ok cl n \<Longrightarrow> node_ok cl (final_state (handle_blocks cl L env c body n))"
  unfolding handle_blocks_def
  by (auto intro!: node_ok_steps node_ok_extend_loop node_ok_sync_loop node_ok_other_chain split: option.split)

lemma node_ok_accept_block: "node_ok cl n \<Longrightarrow> node_ok cl (final_state (accept_block cl L b n))"
  unfolding accept_block_def
  by (auto intro!: node_ok_steps dest!: node_ok_calls [where cl = cl] split: prod.split option.split)

lemma node_ok_handle_new_block: "node_ok cl n \<Longrightarrow> node_ok cl (final_state (handle_new_block cl L b n))"
  unfolding handle_new_block_def Let_def
  by (auto intro!: node_ok_steps node_ok_accept_block dest!: node_ok_calls [where cl = cl]
      split: prod.split bool.split option.split)

lemma node_ok_handle_new_tx: "node_ok cl n \<Longrightarrow> wf_tx tx \<Longrightarrow> node_ok cl (handle_new_tx cl L tx n)"
proof -
  assume ok: "node_ok cl n" and wf: "wf_tx tx"
  obtain m err where add: "Mempool_Add cl L (Some (nd_state n)) (nd_pool n) tx = (m, err)"
    by (cases "Mempool_Add cl L (Some (nd_state n)) (nd_pool n) tx")
  then have "mempool_ok cl m" using mempool_ok_Add [of cl "nd_pool n" L "Some (nd_state n)" tx] ok by (simp add: node_ok_def)
  moreover from add have "list_all wf_tx (mp_txs m)"
    by (rule Mempool_Add_cases) (use ok wf in \<open>auto simp: node_ok_def\<close>)
  ultimately show ?thesis using add ok by (auto simp: handle_new_tx_def node_ok_def node_Broadcast_def split: option.split)
qed

lemma unmarshal_tx_wf: "unmarshal p dec_tx zero_tx = Some tx \<Longrightarrow> wf_tx tx"
  by (auto simp: unmarshal_def bind_eq_Some_conv intro: dec_tx_wf [OF wf_zero(1)])

lemma node_ok_get_blocks: "node_ok cl n \<Longrightarrow> node_ok cl (final_state (handle_get_blocks c req n))"
  unfolding handle_get_blocks_def Let_def by (auto intro!: node_ok_steps)

lemma node_ok_connect_all:
  "node_ok cl n \<Longrightarrow>
   node_ok cl (fold (\<lambda>addr n. if addr \<noteq> l \<and> addr \<noteq> [] then node_TryConnect n addr else n) addrs n)"
  by (induction addrs arbitrary: n) (auto intro: node_ok_TryConnect)

lemma node_ok_handle_message: "node_ok cl n \<Longrightarrow> node_ok cl (final_state (handle_message cl L env c kind payload n))"
  unfolding handle_message_def
  by (auto intro!: node_ok_TryConnect node_ok_get_blocks node_ok_handle_blocks node_ok_handle_new_block
      node_ok_handle_new_tx node_ok_connect_all dest: unmarshal_tx_wf split: option.split)

lemma node_ok_message_loop: "node_ok cl n \<Longrightarrow> node_ok cl (final_state (message_loop cl L env c ms n))"
  by (induction ms arbitrary: n) (auto intro!: and_then_inv [of "node_ok cl"] node_ok_handle_message)

lemma node_ok_peers: "node_ok cl n \<Longrightarrow> peers_ok p \<Longrightarrow> node_ok cl (n\<lparr>nd_peers := p, nd_net := nt\<rparr>)"
  by (simp add: node_ok_def)

lemma node_ok_onConn: "node_ok cl n \<Longrightarrow> node_ok cl (final_state (onConn cl L env c remote inp n))"
proof -
  assume ok: "node_ok cl n"
  obtain p nt b where add: "AddPeer (nd_peers n) (nd_net n) c remote False = (p, nt, b)"
    by (cases "AddPeer (nd_peers n) (nd_net n) c remote False")
  then have "peers_ok p" using ok peers_ok_addPeer by (auto simp: AddPeer_def node_ok_def)
  with ok have ok1: "node_ok cl (n\<lparr>nd_peers := p, nd_net := nt\<rparr>)" by (rule node_ok_peers)
  have rem: "node_ok cl (m\<lparr>nd_peers := q, nd_net := nt'\<rparr>)"
    if "node_ok cl m" and "RemovePeer (nd_peers m) (nd_net m) remote = (q, nt')" for m q nt'
    using that peers_ok_RemovePeer [of "nd_peers m" "nd_net m" remote] by (auto simp: node_ok_def)
  show ?thesis
    unfolding onConn_def using ok1 add rem
    by (auto simp: Let_def intro!: and_then_inv [of "node_ok cl"] node_ok_message_loop split: prod.split)
qed

lemma node_ok_produce: "node_ok cl n \<Longrightarrow> node_ok cl (final_state (produce cl L env now seed n))"
  unfolding produce_def Let_def
  by (auto intro!: node_ok_steps dest!: node_ok_calls [where cl = cl]
      split: prod.split sum.split option.split go_call.split)

lemma node_ok_http_tx: "node_ok cl n \<Longrightarrow> node_ok cl (fst (http_tx cl L rq n))"
proof -
  assume ok: "node_ok cl n"
  have "fst (http_tx cl L rq n) = (if rq_Method rq \<noteq> ''POST'' then n
      else case Option.bind (json_Decode (rq_Body rq)) (\<lambda>j. dec_tx j zero_tx) of
        None \<Rightarrow> n | Some tx \<Rightarrow> handle_new_tx cl L tx n)"
    by (auto simp: http_tx_def handle_new_tx_def split: option.split prod.split)
  moreover have "wf_tx tx" if "Option.bind (json_Decode (rq_Body rq)) (\<lambda>j. dec_tx j zero_tx) = Some tx" for tx
    using that by (auto simp: bind_eq_Some_conv intro: dec_tx_wf [OF wf_zero(1)])
  ultimately show ?thesis using ok by (auto intro: node_ok_handle_new_tx split: option.split)
qed

text \<open>Everything that can happen to a running node, in any order.\<close>

datatype node_event = EvConn nat string string | EvMessage nat Kind "json option" | EvAccept nat string
  | EvSync | EvTick u64 nat | EvTx Request | EvStatus | EvBlocks Request | EvBlock Request

definition forget :: "('s, 'a) outcome \<Rightarrow> ('s, unit) outcome" where
  "forget r = and_then r (\<lambda>s _. Returns s ())"

fun handle_event :: "crypto_lib \<Rightarrow> 'db leveldb \<Rightarrow> Env \<Rightarrow> node_event \<Rightarrow> 'db Node \<Rightarrow> ('db Node, unit) outcome" where
  "handle_event cl L env (EvConn c remote inp) n = onConn cl L env c remote inp n"
| "handle_event cl L env (EvMessage c kind payload) n = handle_message cl L env c kind payload n"
| "handle_event cl L env (EvAccept c remote) n = acceptLoop env c remote n"
| "handle_event cl L env EvSync n = initial_sync n"
| "handle_event cl L env (EvTick now seed) n = produce cl L env now seed n"
| "handle_event cl L env (EvTx rq) n = Returns (fst (http_tx cl L rq n)) ()"
| "handle_event cl L env (EvStatus) n = forget (http_status n)"
| "handle_event cl L env (EvBlocks rq) n = forget (http_blocks rq n)"
| "handle_event cl L env (EvBlock rq) n = forget (http_block rq n)"

text \<open>The life of a node: the process runs or is down, with its directory and database. An event whose
  handler returns leaves the process running, and so does one whose handler waits for ever (its
  goroutine is lost, with the locks it holds); a panic ends the process, which may be started again, as may
  a process that was killed between two events.\<close>

datatype 'db process = Running Env "'db Node" | Down disk 'db

datatype life_event = Event node_event | Kill | Start bool Net string "string list"

inductive life :: "crypto_lib \<Rightarrow> 'db leveldb \<Rightarrow> 'db process \<Rightarrow> life_event \<Rightarrow> 'db process \<Rightarrow> bool" for cl L where
  returned: "handle_event cl L env ev n = Returns n' () \<Longrightarrow> life cl L (Running env n) (Event ev) (Running env n')"
| waits: "handle_event cl L env ev n = Blocks n' \<Longrightarrow> life cl L (Running env n) (Event ev) (Running env n')"
| panicked: "handle_event cl L env ev n = Panics n' \<Longrightarrow>
    life cl L (Running env n) (Event ev) (Down (ch_disk (nd_chain n')) (st_db (nd_state n')))"
| killed: "life cl L (Running env n) Kill (Down (ch_disk (nd_chain n)) (st_db (nd_state n)))"
| started: "runNodeLoop cl L bound net (Some db) d listen seeds = Some (Returns (c, Some db') (Inr (env, n))) \<Longrightarrow>
    life cl L (Down d db) (Start bound net listen seeds) (Running env n)"
| not_started: "runNodeLoop cl L bound net (Some db) d listen seeds = Some (Returns (c, Some db') (Inl e)) \<Longrightarrow>
    life cl L (Down d db) (Start bound net listen seeds) (Down (ch_disk c) db')"
| start_panicked: "runNodeLoop cl L bound net (Some db) d listen seeds = Some (Panics (c, Some db')) \<Longrightarrow>
    life cl L (Down d db) (Start bound net listen seeds) (Down (ch_disk c) db')"
| no_metadata: "runNodeLoop cl L bound net (Some db) d listen seeds = None \<Longrightarrow>
    life cl L (Down d db) (Start bound net listen seeds) (Down d db)"

inductive_cases life_EventE: "life cl L p (Event ev) p'"
inductive_cases life_RunningE: "life cl L (Running env n) e p'"
inductive_cases life_DownE: "life cl L (Down d db) e p'"

lemma final_forget [simp]: "final_state (forget r) = final_state r"
  by (cases r) (simp_all add: forget_def)

lemma node_ok_pages:
  "node_ok cl n \<Longrightarrow> node_ok cl (final_state (http_status n))" "node_ok cl n \<Longrightarrow> node_ok cl (final_state (http_blocks rq n))"
  "node_ok cl n \<Longrightarrow> node_ok cl (final_state (http_block rq n))"
  by (auto simp: http_status_def getHeight_def http_blocks_def http_block_def Let_def intro!: node_ok_steps split: option.split)

lemma node_ok_handle_event: "node_ok cl n \<Longrightarrow> node_ok cl (final_state (handle_event cl L env ev n))"
  by (cases ev) (auto simp: acceptLoop_def getHeight_def initial_sync_def node_ok_onConn node_ok_handle_message
      node_ok_produce node_ok_http_tx node_ok_pages intro!: node_ok_steps split: option.split)

lemma start_services_ok:
  assumes "start_services cl bound net listen seeds g s = Returns s' (Inr (env, n))"
  shows "node_ok cl n"
proof -
  obtain ps where "nd_peers n = fst (ConnectToSeeds (NewPeerSet 50 seeds listen) net)"
      "nd_pool n = Mempool_New (cfg_MaxBlockSize DefaultChainConfig div 500)"
    using assms
    by (auto simp: start_services_def split: prod.splits option.splits go_call.splits sum.splits bool.splits)
  then show ?thesis
    using mempool_ok_New peers_ok_connect_seeds [OF peers_ok_New]
    by (auto simp: node_ok_def ConnectToSeeds_def) (simp add: Mempool_New_def)
qed

lemma runNodeLoop_ok: "runNodeLoop cl L bound net opened d listen seeds = Some (Returns s (Inr (env, n))) \<Longrightarrow> node_ok cl n"
  by (auto simp: runNodeLoop_def and_then_Returns_iff dest: start_services_ok split: sum.splits option.splits)

text \<open>The invariant of a process.\<close>

definition process_ok :: "crypto_lib \<Rightarrow> 'db process \<Rightarrow> bool" where
  "process_ok cl p \<longleftrightarrow> (case p of Running env n \<Rightarrow> node_ok cl n | Down d db \<Rightarrow> True)"

interpretation process: transitions "life cl L" "process_ok cl" "\<lambda>_. True" for cl L
proof
  show "process_ok cl p'" if "process_ok cl p" and "life cl L p e p'" for p e p'
    using that(2,1)
  proof (cases rule: life.cases)
    case (returned env ev n n')
    then show ?thesis using that(1) node_ok_handle_event [of cl n L env ev] by (simp add: process_ok_def)
  next
    case (waits env ev n n')
    then show ?thesis using that(1) node_ok_handle_event [of cl n L env ev] by (simp add: process_ok_def)
  qed (auto simp: process_ok_def dest: runNodeLoop_ok)
qed

section \<open>Blocks announced by a peer\<close>

text \<open>No goroutine holds the chain lock or the block mutex.\<close>

definition node_free :: "'db Node \<Rightarrow> bool" where
  "node_free n \<longleftrightarrow> ch_mu (nd_chain n) = Unlocked \<and> \<not> nd_blockMu n"

definition node_tip :: "'db Node \<Rightarrow> Block option" where
  "node_tip n = (case tip_block (nd_chain n) of Inl e \<Rightarrow> None | Inr b \<Rightarrow> b)"

definition known :: "'db Node \<Rightarrow> hash \<Rightarrow> bool" where
  "known n h \<longleftrightarrow> stored_block (ch_disk (nd_chain n)) h \<noteq> None"

definition scheduled :: "'db leveldb \<Rightarrow> 'db Node \<Rightarrow> Block \<Rightarrow> bool" where
  "scheduled L n b \<longleftrightarrow> (case getValidatorSet L n of None \<Rightarrow> True | Some vs \<Rightarrow> VerifyBlockValidator vs b)"

definition extends :: "'db Node \<Rightarrow> Block \<Rightarrow> bool" where
  "extends n b \<longleftrightarrow> (\<exists>l. node_tip n = Some l \<and> blk_PreviousHash b = blk_Hash l)"

lemma chain_same [simp]: "nd_chain n = c \<Longrightarrow> n\<lparr>nd_chain := c\<rparr> = n"
  by (cases n) simp

lemma node_LastBlock_free: "ch_mu (nd_chain n) = Unlocked \<Longrightarrow> node_LastBlock n = Returns n (node_tip n)"
  by (simp add: node_LastBlock_def on_chain_def LastBlock_free node_tip_def)

lemma node_HasBlock_free:
  "ch_mu (nd_chain n) = Unlocked \<Longrightarrow> on_chain n (HasBlock (nd_chain n) h) = Returns n (known n h)"
  by (auto simp: on_chain_def HasBlock_free known_def stored_block_def split: sum.split)

lemma getValidatorSet_locks [simp]:
  "getValidatorSet L (n\<lparr>nd_blockMu := x\<rparr>) = getValidatorSet L n"
  "getValidatorSet L (n\<lparr>nd_doubleSign := t\<rparr>) = getValidatorSet L n"
  "getValidatorSet L (n\<lparr>nd_chain := c\<rparr>) = getValidatorSet L n"
  by (simp_all add: getValidatorSet_def)

lemma view_locks [simp]:
  "known (n\<lparr>nd_blockMu := x\<rparr>) h = known n h" "node_tip (n\<lparr>nd_blockMu := x\<rparr>) = node_tip n"
  "known (n\<lparr>nd_doubleSign := t\<rparr>) h = known n h" "node_tip (n\<lparr>nd_doubleSign := t\<rparr>) = node_tip n"
  "scheduled L (n\<lparr>nd_blockMu := x\<rparr>) b = scheduled L n b" "extends (n\<lparr>nd_blockMu := x\<rparr>) b = extends n b" "extends (n\<lparr>nd_doubleSign := t\<rparr>) b = extends n b"
  by (simp_all add: known_def node_tip_def extends_def scheduled_def)

text \<open>The table entry of the block and the test for another block of the same validator and height.\<close>

definition signed_before :: "'db Node \<Rightarrow> Block \<Rightarrow> string option" where
  "signed_before n b = Option.bind (map_of (nd_doubleSign n) (blk_Height b))
     (\<lambda>m. map_of m (Address_Hex (blk_ValidatorAddress b)))"

definition equivocation :: "'db Node \<Rightarrow> Block \<Rightarrow> bool" where
  "equivocation n b \<longleftrightarrow> (\<exists>p. signed_before n b = Some p \<and> p \<noteq> Hash_Hex (blk_Hash b))"

lemma double_sign_result:
  obtains t where "double_sign n b = (n\<lparr>nd_doubleSign := t\<rparr>, equivocation n b)"
    and "\<not> equivocation n b \<Longrightarrow> signed_before (n\<lparr>nd_doubleSign := t\<rparr>) b = Some (Hash_Hex (blk_Hash b))"
    and "\<And>b'. blk_Height b' \<noteq> blk_Height b \<or> blk_ValidatorAddress b' \<noteq> blk_ValidatorAddress b \<Longrightarrow>
           signed_before (n\<lparr>nd_doubleSign := t\<rparr>) b' = signed_before n b'"
proof -
  let ?h = "blk_Height b" and ?k = "Address_Hex (blk_ValidatorAddress b)" and ?v = "Hash_Hex (blk_Hash b)"
  define t0 where "t0 = (if map_of (nd_doubleSign n) ?h = None then AList.update ?h [] (nd_doubleSign n) else nd_doubleSign n)"
  define m where "m = (case map_of t0 ?h of None \<Rightarrow> [] | Some m \<Rightarrow> m)"
  define t where "t = (if equivocation n b then t0 else AList.update ?h (AList.update ?k ?v m) t0)"
  have m: "map_of m ?k = signed_before n b"
    by (auto simp: m_def t0_def signed_before_def update_conv' split: option.split)
  have "double_sign n b = (n\<lparr>nd_doubleSign := t\<rparr>, equivocation n b)"
    unfolding double_sign_def Let_def t0_def [symmetric] m_def [symmetric] using m
    by (auto simp: t_def equivocation_def split: option.split)
  moreover have "signed_before (n\<lparr>nd_doubleSign := t\<rparr>) b = Some ?v" if "\<not> equivocation n b"
    using that by (simp add: t_def signed_before_def update_conv')
  moreover have "signed_before (n\<lparr>nd_doubleSign := t\<rparr>) b' = signed_before n b'"
    if "blk_Height b' \<noteq> ?h \<or> blk_ValidatorAddress b' \<noteq> blk_ValidatorAddress b" for b'
    using that by (auto simp: t_def t0_def m_def signed_before_def update_conv' Address_Hex_def hex.enc_inject split: option.splits)
  ultimately show thesis by (rule that)
qed

lemma accept_block_free:
  assumes "ch_mu (nd_chain n) = Unlocked"
    and "os_WriteFile (ch_disk (nd_chain n)) (block_file (blk_Hash b)) (json_MarshalIndent (block_json b)) = (d, w)"
    and "ApplyBlock L (nd_state n) b = (s, err)"
  shows "accept_block cl L b n =
    (if \<not> extends n b then Returns n ()
     else case err of
       Some e \<Rightarrow> Returns (n\<lparr>nd_chain := (nd_chain n)\<lparr>ch_disk := d\<rparr>, nd_state := s\<rparr>) ()
     | None \<Rightarrow> Blocks (n\<lparr>nd_state := s, nd_chain := (nd_chain n)\<lparr>ch_disk := d, ch_mu := WriteLocked,
                 ch_Height := blk_Height b, ch_LastHash := blk_Hash b\<rparr>\<rparr>))"
proof -
  have "(case node_tip n of None \<Rightarrow> True | Some l \<Rightarrow> blk_PreviousHash b \<noteq> blk_Hash l) \<longleftrightarrow> \<not> extends n b"
    by (auto simp: extends_def split: option.split)
  then show ?thesis
    using assms
    by (cases err) (simp_all add: accept_block_def node_LastBlock_free on_chain_def WriteBlock_free node_ApplyBlock_def SetTip_blocks)
qed

lemma unlock_locked:
  assumes "node_free n"
  shows "unlock_blockMu (n\<lparr>nd_blockMu := True, nd_doubleSign := t\<rparr>) = n\<lparr>nd_doubleSign := t\<rparr>"
    and "unlock_blockMu (n\<lparr>nd_blockMu := True\<rparr>) = n"
  using assms by (cases n, simp add: unlock_blockMu_def node_free_def)+

lemma lock_free:
  assumes "node_free n"
  shows "lock_blockMu n = Returns (n\<lparr>nd_blockMu := True\<rparr>) ()"
    and "on_chain (n\<lparr>nd_blockMu := True\<rparr>) (HasBlock (nd_chain n) h) = Returns (n\<lparr>nd_blockMu := True\<rparr>) (known n h)"
  using assms node_HasBlock_free [of "n\<lparr>nd_blockMu := True\<rparr>" h] by (simp_all add: node_free_def lock_blockMu_def)

lemma scheduled_case:
  "(case getValidatorSet L n of None \<Rightarrow> False | Some vs \<Rightarrow> \<not> VerifyBlockValidator vs b) \<longleftrightarrow> \<not> scheduled L n b"
  by (auto simp: scheduled_def split: option.split)

lemma handle_new_block_rejected:
  assumes "node_free n" and "\<not> (ValidateBlock cl b \<and> \<not> known n (blk_Hash b) \<and> scheduled L n b)"
  shows "handle_new_block cl L b n = Returns n ()"
  using assms by (auto simp: handle_new_block_def Let_def lock_free unlock_locked scheduled_case)

lemma handle_new_block_checked:
  assumes "node_free n" and "ValidateBlock cl b \<and> \<not> known n (blk_Hash b) \<and> scheduled L n b"
  obtains t where "handle_new_block cl L b n =
      (if equivocation n b
       then Returns (unlock_blockMu (node_Slash L (n\<lparr>nd_blockMu := True, nd_doubleSign := t\<rparr>) (blk_ValidatorAddress b))) ()
       else and_then (accept_block cl L b (n\<lparr>nd_blockMu := True, nd_doubleSign := t\<rparr>))
              (\<lambda>n _. Returns (unlock_blockMu n) ()))"
    and "\<not> equivocation n b \<Longrightarrow> signed_before (n\<lparr>nd_doubleSign := t\<rparr>) b = Some (Hash_Hex (blk_Hash b))"
proof -
  let ?n1 = "n\<lparr>nd_blockMu := True\<rparr>"
  obtain t where t: "double_sign ?n1 b = (?n1\<lparr>nd_doubleSign := t\<rparr>, equivocation ?n1 b)"
      "\<not> equivocation ?n1 b \<Longrightarrow> signed_before (?n1\<lparr>nd_doubleSign := t\<rparr>) b = Some (Hash_Hex (blk_Hash b))"
    using double_sign_result [of ?n1 b] by metis
  moreover have "equivocation ?n1 b = equivocation n b"
    "signed_before (?n1\<lparr>nd_doubleSign := t\<rparr>) b = signed_before (n\<lparr>nd_doubleSign := t\<rparr>) b"
    by (simp_all add: equivocation_def signed_before_def)
  ultimately show thesis
    using that [of t] assms by (simp add: handle_new_block_def Let_def lock_free scheduled_case)
qed

text \<open>The five ways the handler of a new block ends.\<close>

lemma handle_new_block_cases:
  fixes L :: "'db leveldb"
  assumes free: "node_free n"
  obtains (rejected) "\<not> (ValidateBlock cl b \<and> \<not> known n (blk_Hash b) \<and> scheduled L n b)"
      and "handle_new_block cl L b n = Returns n ()"
  | (slashed) t where "ValidateBlock cl b" "\<not> known n (blk_Hash b)" "scheduled L n b" "equivocation n b"
      and "handle_new_block cl L b n = Returns (n\<lparr>nd_doubleSign := t,
             nd_state := fst (SlashValidator L (nd_state n) (blk_ValidatorAddress b))\<rparr>) ()"
  | (ignored) t where "ValidateBlock cl b" "\<not> known n (blk_Hash b)" "scheduled L n b" "\<not> equivocation n b" "\<not> extends n b"
      and "signed_before (n\<lparr>nd_doubleSign := t\<rparr>) b = Some (Hash_Hex (blk_Hash b))"
      and "handle_new_block cl L b n = Returns (n\<lparr>nd_doubleSign := t\<rparr>) ()"
  | (failed) t d w s e where "ValidateBlock cl b" "\<not> known n (blk_Hash b)" "scheduled L n b" "\<not> equivocation n b" "extends n b"
      and "signed_before (n\<lparr>nd_doubleSign := t\<rparr>) b = Some (Hash_Hex (blk_Hash b))"
      and "os_WriteFile (ch_disk (nd_chain n)) (block_file (blk_Hash b)) (json_MarshalIndent (block_json b)) = (d, w)"
      and "ApplyBlock L (nd_state n) b = (s, Some e)"
      and "handle_new_block cl L b n = Returns (n\<lparr>nd_doubleSign := t, nd_chain := (nd_chain n)\<lparr>ch_disk := d\<rparr>,
             nd_state := s\<rparr>) ()"
  | (wedged) t d w s where "ValidateBlock cl b" "\<not> known n (blk_Hash b)" "scheduled L n b" "\<not> equivocation n b" "extends n b"
      and "signed_before (n\<lparr>nd_doubleSign := t\<rparr>) b = Some (Hash_Hex (blk_Hash b))"
      and "os_WriteFile (ch_disk (nd_chain n)) (block_file (blk_Hash b)) (json_MarshalIndent (block_json b)) = (d, w)"
      and "ApplyBlock L (nd_state n) b = (s, None)"
      and "handle_new_block cl L b n = Blocks (n\<lparr>nd_blockMu := True, nd_doubleSign := t, nd_state := s,
             nd_chain := (nd_chain n)\<lparr>ch_disk := d, ch_mu := WriteLocked, ch_Height := blk_Height b,
               ch_LastHash := blk_Hash b\<rparr>\<rparr>)"
proof (cases "ValidateBlock cl b \<and> \<not> known n (blk_Hash b) \<and> scheduled L n b")
  case False
  then show thesis using rejected handle_new_block_rejected [OF free False] by simp
next
  case True
  let ?n1 = "n\<lparr>nd_blockMu := True\<rparr>"
  obtain t where h: "handle_new_block cl L b n =
      (if equivocation n b then Returns (unlock_blockMu (node_Slash L (?n1\<lparr>nd_doubleSign := t\<rparr>) (blk_ValidatorAddress b))) ()
       else and_then (accept_block cl L b (?n1\<lparr>nd_doubleSign := t\<rparr>)) (\<lambda>n _. Returns (unlock_blockMu n) ()))"
    and sb: "\<not> equivocation n b \<Longrightarrow> signed_before (n\<lparr>nd_doubleSign := t\<rparr>) b = Some (Hash_Hex (blk_Hash b))"
    using handle_new_block_checked [OF free True] by metis
  let ?n2 = "?n1\<lparr>nd_doubleSign := t\<rparr>"
  show thesis
  proof (cases "equivocation n b")
    case True
    with \<open>ValidateBlock cl b \<and> _\<close> show thesis
      using slashed [of t] h free by (cases n) (simp add: node_Slash_def unlock_blockMu_def node_free_def)
  next
    case False
    obtain d w where w: "os_WriteFile (ch_disk (nd_chain n)) (block_file (blk_Hash b)) (json_MarshalIndent (block_json b)) = (d, w)"
      by fastforce
    obtain s err where ap: "ApplyBlock L (nd_state n) b = (s, err)" by fastforce
    have ac: "accept_block cl L b ?n2 =
        (if \<not> extends n b then Returns ?n2 ()
         else case err of
           Some e \<Rightarrow> Returns (?n2\<lparr>nd_chain := (nd_chain n)\<lparr>ch_disk := d\<rparr>, nd_state := s\<rparr>) ()
         | None \<Rightarrow> Blocks (?n2\<lparr>nd_state := s, nd_chain := (nd_chain n)\<lparr>ch_disk := d, ch_mu := WriteLocked,
               ch_Height := blk_Height b, ch_LastHash := blk_Hash b\<rparr>\<rparr>))"
      using accept_block_free [of ?n2 b d w L s err cl] free w ap by (cases err) (simp_all add: node_free_def)
    show thesis
    proof (cases "extends n b")
      case False
      with \<open>ValidateBlock cl b \<and> _\<close> \<open>\<not> equivocation n b\<close> show thesis using ignored [of t] sb h ac unlock_locked(1) [OF free, of t] by simp
    next
      case True
      show thesis
      proof (cases err)
        case None
        with True \<open>ValidateBlock cl b \<and> _\<close> \<open>\<not> equivocation n b\<close> show thesis
          using wedged [OF _ _ _ _ _ _ w, of t s] sb h ac ap by simp
      next
        case (Some e)
        have "unlock_blockMu (?n2\<lparr>nd_chain := (nd_chain n)\<lparr>ch_disk := d\<rparr>, nd_state := s\<rparr>) =
            n\<lparr>nd_doubleSign := t, nd_chain := (nd_chain n)\<lparr>ch_disk := d\<rparr>, nd_state := s\<rparr>"
          using free by (cases n) (simp add: unlock_blockMu_def node_free_def)
        with Some True \<open>ValidateBlock cl b \<and> _\<close> \<open>\<not> equivocation n b\<close> show thesis
          using failed [OF _ _ _ _ _ _ w, of t s e] sb h ac ap by simp
      qed
    qed
  qed
qed

section \<open>A longer chain\<close>

lemma those_map_Some [simp]: "those (map Some bs) = Some bs"
  by (induction bs) auto

lemma check_links_Some:
  "check_links cl (map Some bs) = Value (successively (\<lambda>a b. blk_PreviousHash b = blk_Hash a \<and> ValidateBlock cl b) bs)"
proof (induction bs)
  case (Cons b bs)
  then show ?case by (cases bs) auto
qed simp

lemma write_blocks_free:
  "ch_mu (nd_chain n) = Unlocked \<Longrightarrow> write_blocks bs n =
     Returns (n\<lparr>nd_chain := (nd_chain n)\<lparr>ch_disk := fold store_block bs (ch_disk (nd_chain n))\<rparr>\<rparr>) ()"
proof (induction bs arbitrary: n)
  case (Cons b bs)
  obtain d e where w: "os_WriteFile (ch_disk (nd_chain n)) (block_file (blk_Hash b)) (json_MarshalIndent (block_json b)) = (d, e)"
    by fastforce
  then show ?case
    using Cons.prems Cons.IH [of "n\<lparr>nd_chain := (nd_chain n)\<lparr>ch_disk := d\<rparr>\<rparr>"]
    by (simp add: on_chain_def WriteBlock_free store_block_def)
qed simp

text \<open>The reorganisation of a node without held locks: no producer and no signature is looked at.\<close>

lemma reorg_outcome:
  assumes free: "node_free n" and tip: "node_tip n = Some l" and bs: "bs \<noteq> []" "blk_Height (hd bs) = 0"
      "Hash_IsZero (blk_PreviousHash (hd bs))" "blk_PreviousHash (hd bs) \<noteq> blk_Hash l"
      "successively (\<lambda>a b. blk_PreviousHash b = blk_Hash a \<and> ValidateBlock cl b) bs" "blk_Height l < blk_Height (last bs)"
    and rep: "ResetAndReplay L (nd_state n) (env_allocation env) (env_validators env) bs = (s, None)"
  shows "handle_blocks cl L env k (map Some bs) n = Blocks (n\<lparr>nd_blockMu := True, nd_state := s,
    nd_chain := (nd_chain n)\<lparr>ch_disk := fold store_block bs (ch_disk (nd_chain n)), ch_mu := WriteLocked,
      ch_Height := blk_Height (last bs), ch_LastHash := blk_Hash (last bs)\<rparr>\<rparr>)"
proof -
  let ?n1 = "n\<lparr>nd_blockMu := True\<rparr>"
  have mu: "ch_mu (nd_chain n) = Unlocked" using free by (simp add: node_free_def)
  have last: "node_LastBlock ?n1 = Returns ?n1 (Some l)" using mu tip by (simp add: node_LastBlock_free)
  have hd: "hd (map Some bs) = Some (hd bs)" using bs(1) by (simp add: hd_map)
  have "other_chain cl L env k (Some l) (map Some bs) ?n1 = reorg cl L env bs ?n1"
    using bs by (simp add: other_chain_def check_links_Some)
  moreover have "reorg cl L env bs ?n1 = Blocks (?n1\<lparr>nd_state := s,
    nd_chain := (nd_chain n)\<lparr>ch_disk := fold store_block bs (ch_disk (nd_chain n)), ch_mu := WriteLocked,
      ch_Height := blk_Height (last bs), ch_LastHash := blk_Hash (last bs)\<rparr>\<rparr>)"
    using mu rep by (simp add: reorg_def write_blocks_free on_chain_def SetTip_blocks)
  ultimately show ?thesis using bs(1,4) hd last lock_free(1) [OF free] by (simp add: handle_blocks_def)
qed

section \<open>A node that waits for its own lock\<close>

text \<open>The goroutine that called \<^verbatim>\<open>SetTip\<close> holds the chain lock and the block mutex for ever.\<close>

definition frozen :: "Chain \<Rightarrow> 'db State \<Rightarrow> 'db Node \<Rightarrow> bool" where
  "frozen c s n \<longleftrightarrow> ch_mu c = WriteLocked \<and> nd_chain n = c \<and> nd_state n = s \<and> nd_blockMu n"

lemma frozen_LastBlock: "frozen c s n \<Longrightarrow> LastBlock (nd_chain n) = Blocks c" "frozen c s n \<Longrightarrow> node_LastBlock n = Blocks n"
  by (simp_all add: frozen_def LastBlock_def node_LastBlock_def on_chain_def)

lemma frozen_GetBlocksFrom: "frozen c s n \<Longrightarrow> GetBlocksFrom (nd_chain n) h mx = Blocks c"
  by (simp add: frozen_def GetBlocksFrom_def)

lemma frozen_handlers:
  assumes "frozen c s n"
  shows "handle_new_block cl L b n = Blocks n"
    and "produce cl L env now seed n = Blocks n"
    and "handle_blocks cl L env k body n = (if body = [] then Returns n () else Blocks n)"
    and "handle_get_blocks k req n = Blocks n"
    and "http_status n = Blocks n"
    and "acceptLoop env k remote n = Blocks n"
    and "initial_sync n = Blocks n"
  using assms frozen_LastBlock [OF assms] frozen_GetBlocksFrom [OF assms]
  by (simp_all add: handle_new_block_def produce_def handle_blocks_def handle_get_blocks_def http_status_def
      acceptLoop_def initial_sync_def getHeight_def lock_blockMu_def frozen_def on_chain_def)

lemma frozen_updates:
  "frozen c s (n\<lparr>nd_pool := m\<rparr>) = frozen c s n" "frozen c s (n\<lparr>nd_net := nt\<rparr>) = frozen c s n"
  "frozen c s (n\<lparr>nd_peers := p\<rparr>) = frozen c s n"
  "frozen c s (node_Broadcast n k p') = frozen c s n" "frozen c s (node_TryConnect n addr) = frozen c s n"
  "frozen c s (handle_new_tx cl L tx n) = frozen c s n" "frozen c s (fst (http_tx cl L rq n)) = frozen c s n"
  by (auto simp: frozen_def node_Broadcast_def node_TryConnect_def handle_new_tx_def http_tx_def
      split: prod.split option.split)

lemma frozen_connect_all:
  "frozen c s n \<Longrightarrow>
   frozen c s (fold (\<lambda>addr n. if addr \<noteq> l \<and> addr \<noteq> [] then node_TryConnect n addr else n) addrs n)"
  by (induction addrs arbitrary: n) (simp_all add: frozen_updates)

text \<open>No handler gets past the lock, and none panics.\<close>

definition stays_frozen :: "Chain \<Rightarrow> 'db State \<Rightarrow> ('db Node, 'a) outcome \<Rightarrow> bool" where
  "stays_frozen c s r \<longleftrightarrow> (\<forall>m. r \<noteq> Panics m) \<and> frozen c s (final_state r)"

lemma stays_frozen_simps [simp]:
  "stays_frozen c s (Returns n a) \<longleftrightarrow> frozen c s n" "stays_frozen c s (Blocks n) \<longleftrightarrow> frozen c s n" "\<not> stays_frozen c s (Panics n)"
  by (simp_all add: stays_frozen_def)

lemma stays_frozen_and_then:
  "stays_frozen c s r \<Longrightarrow> (\<And>n a. frozen c s n \<Longrightarrow> stays_frozen c s (f n a)) \<Longrightarrow> stays_frozen c s (and_then r f)"
  by (cases r) auto

lemma frozen_handle_message: "frozen c s n \<Longrightarrow> stays_frozen c s (handle_message cl L env k kind payload n)"
  unfolding handle_message_def
  by (auto simp: frozen_handlers frozen_updates frozen_connect_all split: option.split)

lemma frozen_message_loop: "frozen c s n \<Longrightarrow> stays_frozen c s (message_loop cl L env k ms n)"
  by (induction ms arbitrary: n) (auto intro!: stays_frozen_and_then frozen_handle_message)

lemma frozen_onConn: "frozen c s n \<Longrightarrow> stays_frozen c s (onConn cl L env k remote inp n)"
  unfolding onConn_def
  by (auto simp: Let_def frozen_updates intro!: stays_frozen_and_then frozen_message_loop split: prod.split)

lemma frozen_pages:
  assumes "frozen c s n"
  shows "stays_frozen c s (http_status n)" and "stays_frozen c s (http_blocks rq n)" and "stays_frozen c s (http_block rq n)"
proof -
  have "GetBlock (nd_chain n) h = Blocks c" for h using assms by (simp add: frozen_def GetBlock_def)
  then show "stays_frozen c s (http_status n)" "stays_frozen c s (http_blocks rq n)" "stays_frozen c s (http_block rq n)"
    using assms frozen_LastBlock [OF assms] frozen_handlers(5) [OF assms]
    by (auto simp: http_blocks_def http_block_def Let_def on_chain_def frozen_def split: option.split)
qed

lemma frozen_handle_event: "frozen c s n \<Longrightarrow> stays_frozen c s (handle_event cl L env ev n)"
  by (cases ev) (auto simp: frozen_onConn frozen_handle_message frozen_handlers frozen_updates frozen_pages forget_def
      intro!: stays_frozen_and_then)

text \<open>As long as nobody kills the process.\<close>

definition process_frozen :: "Chain \<Rightarrow> 'db State \<Rightarrow> 'db process \<Rightarrow> bool" where
  "process_frozen c s p \<longleftrightarrow> (\<exists>env n. p = Running env n \<and> frozen c s n)"

interpretation frozen_process: transitions "life cl L" "process_frozen c s" "\<lambda>e. e \<noteq> Kill" for cl L c s
proof
  show "process_frozen c s p'" if "process_frozen c s p" and "e \<noteq> Kill" and "life cl L p e p'" for p e p'
    using that(3)
  proof (cases rule: life.cases)
    case (returned env ev n n')
    then show ?thesis using that(1) frozen_handle_event [of c s n cl L env ev] by (simp add: process_frozen_def)
  next
    case (waits env ev n n')
    then show ?thesis using that(1) frozen_handle_event [of c s n cl L env ev] by (simp add: process_frozen_def)
  next
    case (panicked env ev n n')
    then show ?thesis using that(1) frozen_handle_event [of c s n cl L env ev] by (simp add: process_frozen_def)
  qed (use that(1,2) in \<open>auto simp: process_frozen_def\<close>)
qed

section \<open>The producer\<close>

definition produced :: "crypto_lib \<Rightarrow> Env \<Rightarrow> u64 \<Rightarrow> Block \<Rightarrow> Transaction list \<Rightarrow> byte list \<Rightarrow> Block" where
  "produced cl env now l txs sig =
     (NewBlock cl now (blk_Height l + 1) (blk_Hash l) (env_validatorAddr env) txs)\<lparr>blk_Signature := sig\<rparr>"

text \<open>The turn of this node: no validator set, or the round-robin choice of the next height.\<close>

definition my_turn :: "'db leveldb \<Rightarrow> Env \<Rightarrow> 'db Node \<Rightarrow> Block \<Rightarrow> bool" where
  "my_turn L env n l \<longleftrightarrow> (case getValidatorSet L n of None \<Rightarrow> True
     | Some vs \<Rightarrow> ValidatorForHeight vs (blk_Height l + 1) = env_validatorAddr env)"

lemma produce_eval:
  assumes free: "node_free n" and tip: "tip_block (nd_chain n) = Inr (Some l)" and turn: "my_turn L env n l"
    and txs: "Mempool_Pending (nd_pool n) 100 = txs" "txs \<noteq> []"
    and sig: "Sign cl seed (env_priv env)
      (blk_Hash (NewBlock cl now (blk_Height l + 1) (blk_Hash l) (env_validatorAddr env) txs)) = Value sig"
    and ap: "ApplyBlock L (nd_state n) (produced cl env now l txs sig) = (s, None)"
    and app: "AppendBlock (nd_chain n) (produced cl env now l txs sig) = Returns c err"
  shows "produce cl L env now seed n =
    (case err of
       Some e \<Rightarrow> Returns (n\<lparr>nd_chain := c, nd_state := s\<rparr>) ()
     | None \<Rightarrow> Returns (node_Broadcast (node_Remove cl (n\<lparr>nd_chain := c, nd_state := s\<rparr>) txs) KindNewBlock
         (block_json (produced cl env now l txs sig))) ())"
proof -
  let ?n1 = "n\<lparr>nd_blockMu := True\<rparr>"
  have last1: "on_chain ?n1 (LastBlock (nd_chain n)) = Returns ?n1 (Inr (Some l))"
    using free tip by (simp add: on_chain_def node_free_def LastBlock_free)
  have turn1: "(case getValidatorSet L n of None \<Rightarrow> False
      | Some vs \<Rightarrow> ValidatorForHeight vs (blk_Height l + 1) \<noteq> env_validatorAddr env) = False"
    using turn by (auto simp: my_turn_def split: option.splits)
  have ap1: "node_ApplyBlock L ?n1 (produced cl env now l txs sig) = (?n1\<lparr>nd_state := s\<rparr>, None)"
    using ap by (simp add: node_ApplyBlock_def)
  have fin: "unlock_blockMu (?n1\<lparr>nd_state := s, nd_chain := c\<rparr>) = n\<lparr>nd_chain := c, nd_state := s\<rparr>"
    "unlock_blockMu (node_Remove cl (?n1\<lparr>nd_state := s, nd_chain := c\<rparr>) txs) =
       node_Remove cl (n\<lparr>nd_chain := c, nd_state := s\<rparr>) txs"
    using free by (cases n, simp add: unlock_blockMu_def node_free_def node_Remove_def)+
  show ?thesis
    unfolding produce_def
    using lock_free(1) [OF free] last1 turn1 txs sig ap1 app fin
    by (cases err) (simp_all add: Let_def produced_def [symmetric] on_chain_def)
qed

lemma NewBlock_fields [simp]:
  "blk_Height (NewBlock cl now h prev v txs) = h" "blk_PreviousHash (NewBlock cl now h prev v txs) = prev"
  "blk_ValidatorAddress (NewBlock cl now h prev v txs) = v" "blk_Transactions (NewBlock cl now h prev v txs) = txs"
  by (simp_all add: NewBlock_def SetHash_def Let_def)

lemma wf_produced:
  assumes "digest_size cl" and "wf_block l" and "length (env_validatorAddr env) = 20" and "list_all wf_tx txs"
  shows "wf_block (produced cl env now l txs sig)"
proof -
  have "wf_block (NewBlock cl now (blk_Height l + 1) (blk_Hash l) (env_validatorAddr env) txs)"
    using assms by (intro wf_NewBlock) (simp_all add: wf_block_def)
  then show ?thesis by (simp add: produced_def wf_block_def)
qed

lemma read_block_wf: "read_block d h = Inr b \<Longrightarrow> wf_block b"
  by (auto simp: read_block_def Unmarshal_block_wf split: read_result.splits option.splits)

lemma linked_height: "linked d n p bs \<Longrightarrow> bs \<noteq> [] \<Longrightarrow> blk_Height (last bs) = of_nat (n + length bs - 1)"
  by (induction bs arbitrary: n p) auto

lemma chain_tip:
  assumes "chain_on_disk c bs" and "bs \<noteq> []"
  shows "tip_block c = Inr (Some (last bs))" and "wf_block (last bs)" and "ch_LastHash c = blk_Hash (last bs)"
    and "blk_Height (last bs) + 1 = of_nat (length bs)"
proof -
  have l: "linked (ch_disk c) 0 zero_hash bs" and t: "ch_LastHash c = blk_Hash (last bs)"
    using assms by (auto simp: chain_on_disk_def tip_hash_def)
  have r: "read_block (ch_disk c) (blk_Hash (last bs)) = Inr (last bs)" "\<not> Hash_IsZero (blk_Hash (last bs))"
    using linked_read [OF l, of "last bs"] assms(2) by auto
  then show "tip_block c = Inr (Some (last bs))" and "wf_block (last bs)" using t read_block_wf by (auto simp: tip_block_def)
  have "0 < length bs" using assms(2) by simp
  then have "length bs = Suc (length bs - 1)" by simp
  then show "blk_Height (last bs) + 1 = of_nat (length bs)"
    using linked_height [OF l assms(2)] by (metis add.commute add_0 of_nat_Suc diff_Suc_1)
  show "ch_LastHash c = blk_Hash (last bs)" by (rule t)
qed

lemma produce_extends_chain:
  fixes n :: "'db Node" and L :: "'db leveldb"
  assumes free: "node_free n" and chain: "chain_on_disk (nd_chain n) bs" "bs \<noteq> []" "length bs + 1 < 2 ^ 64"
    and disk: "healthy (ch_disk (nd_chain n))" and cl: "digest_size cl" "length (env_validatorAddr env) = 20"
    and ok: "node_ok cl n" and db: "leveldb_ok L" and turn: "my_turn L env n (last bs)"
    and txs: "txs = Mempool_Pending (nd_pool n) 100" "txs \<noteq> []"
    and sig: "Sign cl seed (env_priv env) (blk_Hash (produced cl env now (last bs) txs [])) = Value sig"
    and b: "b = produced cl env now (last bs) txs sig" "\<not> Hash_IsZero (blk_Hash b)" "blk_Hash b \<notin> blk_Hash ` set bs"
    and ap: "ApplyBlock L (nd_state n) b = (s, None)"
  obtains n' where "produce cl L env now seed n = Returns n' ()" and "node_free n'"
    and "chain_on_disk (nd_chain n') (bs @ [b])"
    and "NewChain (ch_disk (nd_chain n')) (Some (ch_cfg (nd_chain n))) = Inr (nd_chain n')"
    and "balance_of L (st_db (nd_state n')) = spec_block (balance_of L (st_db (nd_state n))) b"
    and "nonce_of L (st_db (nd_state n')) =
           spec_nonce (balance_of L (st_db (nd_state n))) (nonce_of L (st_db (nd_state n))) txs"
    and "mp_txs (nd_pool n') = drop (length txs) (mp_txs (nd_pool n))"
proof -
  note tip = chain_tip [OF chain(1,2)]
  have "set txs \<subseteq> set (mp_txs (nd_pool n))"
    using Mempool_Pending_prefix [of "nd_pool n" 100] txs(1) by (metis set_take_subset)
  then have wtx: "list_all wf_tx txs" using ok by (auto simp: node_ok_def list_all_iff)
  have wf: "wf_block b" unfolding b(1) by (rule wf_produced [OF cl(1) tip(2) cl(2) wtx])
  have f: "blk_Height b = of_nat (length bs)" "blk_PreviousHash b = ch_LastHash (nd_chain n)" "blk_Transactions b = txs"
    using tip(3,4) by (simp_all add: b(1) produced_def)
  obtain c' where c': "AppendBlock (nd_chain n) b = Returns c' None" "chain_on_disk c' (bs @ [b])"
      "NewChain (ch_disk c') (Some (ch_cfg (nd_chain n))) = Inr c'"
    using AppendBlock_extends [OF chain(1) disk wf chain(3) f(1,2) b(2,3)] by metis
  have sig': "Sign cl seed (env_priv env) (blk_Hash (NewBlock cl now (blk_Height (last bs) + 1) (blk_Hash (last bs))
      (env_validatorAddr env) txs)) = Value sig"
    using sig by (simp add: produced_def)
  let ?n = "node_Broadcast (node_Remove cl (n\<lparr>nd_chain := c', nd_state := s\<rparr>) txs) KindNewBlock (block_json b)"
  have pr: "produce cl L env now seed n = Returns ?n ()"
    using produce_eval [OF free tip(1) turn txs(1) [symmetric] txs(2) sig'] ap c'(1) unfolding b(1) by simp
  have "node_free ?n" using free c'(2) by (simp add: node_free_def node_Broadcast_def node_Remove_def chain_on_disk_def)
  moreover have "mp_txs (nd_pool ?n) = drop (length txs) (mp_txs (nd_pool n))"
    using Remove_Pending [of cl "nd_pool n" 100] ok txs(1) by (simp add: node_ok_def node_Broadcast_def node_Remove_def)
  moreover obtain db' where "applyBlockLocked L (st_db (nd_state n)) b = (db', None)" and "st_db s = db'"
    using ap by (auto simp: ApplyBlock_locked split: prod.splits)
  ultimately show thesis
    using that [OF pr] c' applyBlockLocked_accounts [OF db, of "st_db (nd_state n)" b db'] f(3)
    by (simp add: node_Broadcast_def node_Remove_def)
qed

end
