(* ===== verification/Startup_Laws.thy ===== *)
theory Startup_Laws
  imports Node_Laws
begin

text \<open>
  Properties of the commands: initialising a directory and starting a node on it, sending a
  transaction to the API of a node, and the requests of the load generator.
\<close>

section \<open>The default genesis\<close>

definition treasury :: address where "treasury = replicate 19 0 @ [1]"
definition staking :: address where "staking = replicate 19 0 @ [2]"
definition distribution :: address where "distribution = replicate 19 0 @ [3]"

lemma default_genesis_sorted: "sort_key fst (cfg_Genesis DefaultChainConfig) = cfg_Genesis DefaultChainConfig"
  by code_simp

lemma default_genesis_decoded:
  "decoded (cfg_Genesis DefaultChainConfig) =
     [(treasury, 10000000000 * 1000000), (staking, 5000000000 * 1000000), (distribution, 6000000000 * 1000000)]"
  by code_simp

lemma genesis_addresses_distinct: "distinct [treasury, staking, distribution]"
  by code_simp

lemma default_genesis_keys: "distinct (map fst (cfg_Genesis DefaultChainConfig))"
  by code_simp

lemma default_supply: "supply_of {treasury, staking, distribution} (genesis_balances (cfg_Genesis DefaultChainConfig)) = unat TotalSupply"
  using genesis_addresses_distinct
  by (simp add: supply_of_def genesis_balances_def default_genesis_decoded TotalSupply_def)

lemma default_elsewhere:
  "a \<notin> {treasury, staking, distribution} \<Longrightarrow> genesis_balances (cfg_Genesis DefaultChainConfig) a = 0"
  by (simp add: genesis_balances_def default_genesis_decoded)

lemma default_unambiguous: "unambiguous (cfg_Genesis DefaultChainConfig)"
  by code_simp

text \<open>So the balances of the default genesis do not depend on the order in which Go visits the allocation.\<close>

lemma default_genesis_order:
  "mset al = mset (cfg_Genesis DefaultChainConfig) \<Longrightarrow> genesis_balances al = genesis_balances (cfg_Genesis DefaultChainConfig)"
  by (rule genesis_balances_order [OF default_unambiguous])

section \<open>Initialisation\<close>

text \<open>A directory as \<^verbatim>\<open>runInit\<close> leaves it, for the key \<open>priv\<close>.\<close>

definition initialised :: "crypto_lib \<Rightarrow> 'db leveldb \<Rightarrow> privkey \<Rightarrow> disk \<Rightarrow> 'db \<Rightarrow> Chain \<Rightarrow> bool" where
  "initialised cl L priv d db c \<longleftrightarrow>
     (let addr = PubkeyToAddress cl (Some (PublicKey priv));
          vs = [\<lparr>vg_Address = Address_Hex addr, vg_Stake = MinStake\<rparr>] in
      healthy d \<and> NewChain d (Some DefaultChainConfig) = Inr c \<and> ch_disk c = d \<and>
      chain_on_disk c [GenesisBlock cl addr] \<and> LoadKey d validatorKeyFile = Value (Some priv) \<and>
      LoadGenesisFromFile d = Inr \<lparr>gf_Block = Some (GenesisBlock cl addr),
        gf_Allocation = cfg_Genesis DefaultChainConfig, gf_Validators = vs\<rparr> \<and>
      balance_of L db = genesis_balances (cfg_Genesis DefaultChainConfig) \<and> nonce_of L db = (\<lambda>_. 0) \<and>
      GetValidatorSet L \<lparr>st_db = db, st_cfg = DefaultChainConfig\<rparr> =
        ([\<lparr>val_Address = addr, val_Stake = MinStake\<rparr>], None))"

lemma key_file_name: "validatorKeyFile \<noteq> ''genesis.json''" "validatorKeyFile \<noteq> ''chain.json''"
    "validatorKeyFile \<noteq> block_file h" "validatorKeyFile \<noteq> tmp_file h" "''genesis.json'' \<noteq> block_file h"
    "''genesis.json'' \<noteq> tmp_file h"
  by (simp_all add: validatorKeyFile_def block_file_def tmp_file_def)

lemma NewChain_fresh:
  "healthy d \<Longrightarrow> os_ReadFile d ''chain.json'' = NotExist \<Longrightarrow> NewChain d (Some cfg) =
     Inr \<lparr>ch_mu = Unlocked, ch_disk = d, ch_cfg = cfg, ch_Height = 0, ch_LastHash = zero_hash\<rparr>"
  by (simp add: NewChain_def os_MkdirAll_def healthy_def)

lemma LoadGenesis_cong:
  "os_ReadFile d ''genesis.json'' = os_ReadFile d' ''genesis.json'' \<Longrightarrow> LoadGenesisFromFile d = LoadGenesisFromFile d'"
  by (simp add: LoadGenesisFromFile_def)

lemma LoadKey_cong: "os_ReadFile d p = os_ReadFile d' p \<Longrightarrow> LoadKey d p = LoadKey d' p"
  by (simp add: LoadKey_def)

lemma own_validator_set:
  assumes "leveldb_ok L" and "length addr = 20"
    and "applyGenesisLocked L DefaultChainConfig db al [\<lparr>vg_Address = Address_Hex addr, vg_Stake = MinStake\<rparr>] = (db', None)"
  shows "GetValidatorSet L \<lparr>st_db = db', st_cfg = DefaultChainConfig\<rparr> =
    ([\<lparr>val_Address = addr, val_Stake = MinStake\<rparr>], None)"
proof -
  let ?v = "\<lparr>vg_Address = Address_Hex addr, vg_Stake = MinStake\<rparr>" and ?s = "\<lparr>st_db = db, st_cfg = DefaultChainConfig\<rparr>"
  have a: "AddressFromHex (Address_Hex addr) = Some addr"
    using assms(2) by (simp add: AddressFromHex_Hex AddressSize_def)
  have acc: "accepted DefaultChainConfig [?v] = [?v]"
    using a by (simp add: accepted_def DefaultChainConfig_def)
  have "ApplyGenesis L ?s al [?v] = (?s\<lparr>st_db := db'\<rparr>, None)" using assms(3) by (simp add: ApplyGenesis_locked)
  moreover have "0 < MinStake" by (simp add: MinStake_def)
  ultimately show ?thesis
    using genesis_validator_set [OF assms(1), of ?s al "[?v]" "?s\<lparr>st_db := db'\<rparr>"] acc a
    by (simp add: parsed_def DefaultChainConfig_def)
qed

lemma append_first_block:
  assumes "healthy d" and "os_ReadFile d ''chain.json'' = NotExist" and "wf_block g" and "\<not> Hash_IsZero (blk_Hash g)"
    and "blk_Height g = 0" and "blk_PreviousHash g = zero_hash"
  obtains c where "append_genesis d db (Some g) = Returns (ch_disk c, db) None" and "chain_on_disk c [g]"
    and "healthy (ch_disk c)" and "NewChain (ch_disk c) (Some DefaultChainConfig) = Inr c"
    and "os_ReadFile (ch_disk c) validatorKeyFile = os_ReadFile d validatorKeyFile"
    and "os_ReadFile (ch_disk c) ''genesis.json'' = os_ReadFile d ''genesis.json''"
proof -
  let ?c0 = "\<lparr>ch_mu = Unlocked, ch_disk = d, ch_cfg = DefaultChainConfig, ch_Height = 0, ch_LastHash = zero_hash\<rparr>"
  have c0: "chain_on_disk ?c0 []" by (simp add: chain_on_disk_def tip_hash_def)
  obtain c where c: "AppendBlock ?c0 g = Returns c None" "chain_on_disk c [g]" "healthy (ch_disk c)"
      "NewChain (ch_disk c) (Some DefaultChainConfig) = Inr c"
      "\<And>p. p \<notin> {block_file (blk_Hash g), tmp_file (blk_Hash g), ''chain.json''} \<Longrightarrow> os_ReadFile (ch_disk c) p = os_ReadFile d p"
    using AppendBlock_extends [OF c0, of g] assms by auto
  have "append_genesis d db (Some g) = Returns (ch_disk c, db) None"
    using NewChain_fresh [OF assms(1,2)] c(1) by (simp add: append_genesis_def)
  then show thesis
    using that c by (auto simp: key_file_name)
qed

lemma runInit_initialises:
  fixes L :: "'db leveldb"
  assumes disk: "healthy d" "os_ReadFile d ''chain.json'' = NotExist"
    and key: "GenerateKey cl seed = Some priv" "0 < key_D priv" and cl: "digest_size cl"
    and db: "leveldb_ok L" "writes_ok L" "db_empty L db"
    and nz: "\<not> Hash_IsZero (blk_Hash (GenesisBlock cl (PubkeyToAddress cl (Some (PublicKey priv)))))"
  obtains d' db' c where "runInit cl L seed (Some db) d = Returns (d', Some db') None" and "initialised cl L priv d' db' c"
proof -
  define addr where "addr = PubkeyToAddress cl (Some (PublicKey priv))"
  let ?vs = "[\<lparr>vg_Address = Address_Hex addr, vg_Stake = MinStake\<rparr>]" and ?cfg = DefaultChainConfig
  let ?g = "\<lparr>gf_Block = Some (GenesisBlock cl addr), gf_Allocation = cfg_Genesis ?cfg, gf_Validators = ?vs\<rparr>"
  have len: "length addr = 20" using cl by (simp add: addr_def length_PubkeyToAddress)
  then have wf: "wf_block (GenesisBlock cl addr)" using cl by (simp add: wf_GenesisBlock)
  define d1 where "d1 = d\<lparr>dk_files := AList.update validatorKeyFile (key_text priv) (dk_files d)\<rparr>"
  have save: "SaveKey d validatorKeyFile (Some priv) = (d1, None)" "healthy d1"
    using disk(1) by (simp_all add: SaveKey_def os_WriteFile_healthy d1_def)
  obtain d2 where d2: "WriteGenesisFile cl d1 ?cfg addr ?vs = (d2, None)" "healthy d2"
      "\<And>n. n \<noteq> ''genesis.json'' \<Longrightarrow> os_ReadFile d2 n = os_ReadFile d1 n" "LoadGenesisFromFile d2 = Inr ?g"
    using LoadGenesis_after_write [OF save(2) default_genesis_keys len wf] by (metis default_genesis_sorted)
  obtain db' where db': "applyGenesisLocked L ?cfg db (cfg_Genesis ?cfg) ?vs = (db', None)"
    using applyGenesisLocked_ok [OF db(2)] by metis
  have chain2: "os_ReadFile d2 ''chain.json'' = NotExist" using d2(3) disk(2) by (simp add: d1_def key_file_name(2) [symmetric])
  have g0: "blk_Height (GenesisBlock cl addr) = 0" "blk_PreviousHash (GenesisBlock cl addr) = zero_hash"
    by (simp_all add: GenesisBlock_def SetHash_def)
  obtain c where c: "append_genesis d2 (Some db') (Some (GenesisBlock cl addr)) = Returns (ch_disk c, Some db') None"
      "chain_on_disk c [GenesisBlock cl addr]" "healthy (ch_disk c)" "NewChain (ch_disk c) (Some ?cfg) = Inr c"
      "os_ReadFile (ch_disk c) validatorKeyFile = os_ReadFile d2 validatorKeyFile"
      "os_ReadFile (ch_disk c) ''genesis.json'' = os_ReadFile d2 ''genesis.json''"
    using append_first_block [OF d2(2) chain2 wf nz [folded addr_def] g0] by metis
  have mk: "os_MkdirAll d [] = None" using disk(1) by (simp add: os_MkdirAll_def healthy_def)
  have run: "runInit cl L seed (Some db) d = Returns (ch_disk c, Some db') None"
    using mk key(1) save(1) d2(1,4) db' c(1)
    by (simp add: runInit_def Let_def addr_def [symmetric] Open_def State_Close_def ApplyGenesis_locked)
  have "os_ReadFile (ch_disk c) validatorKeyFile = Content (key_text priv)"
    using c(5) d2(3) [of validatorKeyFile] disk(1) by (simp add: key_file_name d1_def healthy_def)
  then have "LoadKey (ch_disk c) validatorKeyFile = Value (Some priv)" using key(2) by (rule LoadKey_text)
  moreover have "LoadGenesisFromFile (ch_disk c) = Inr ?g" using LoadGenesis_cong [OF c(6)] d2(4) by simp
  ultimately have "initialised cl L priv (ch_disk c) db' c"
    using c own_validator_set [OF db(1) len db'] genesis_on_empty [OF db(1,3) db']
    by (simp add: initialised_def Let_def addr_def [symmetric])
  with run show thesis by (rule that)
qed

text \<open>Starting on an initialised directory gives a node that holds the genesis chain and ledger and
  whose turn it is at every height.\<close>

lemma runNodeLoop_starts:
  assumes init: "initialised cl L priv d db c" and seeds: "peers_ok (fst (ConnectToSeeds (NewPeerSet 50 seeds listen) net))"
  obtains env n where "runNodeLoop cl L True net (Some db) d listen seeds = Some (Returns (c, Some db) (Inr (env, n)))"
    and "nd_chain n = c" and "nd_state n = \<lparr>st_db = db, st_cfg = DefaultChainConfig\<rparr>" and "node_free n" and "node_ok cl n"
    and "env_validatorAddr env = PubkeyToAddress cl (Some (PublicKey priv))" and "env_priv env = priv"
    and "\<And>l. my_turn L env n l"
proof -
  define addr where "addr = PubkeyToAddress cl (Some (PublicKey priv))"
  let ?vs = "[\<lparr>vg_Address = Address_Hex addr, vg_Stake = MinStake\<rparr>]"
  let ?g = "\<lparr>gf_Block = Some (GenesisBlock cl addr), gf_Allocation = cfg_Genesis DefaultChainConfig, gf_Validators = ?vs\<rparr>"
  have i: "NewChain d (Some DefaultChainConfig) = Inr c" "ch_disk c = d" "chain_on_disk c [GenesisBlock cl addr]"
      "LoadKey d validatorKeyFile = Value (Some priv)" "LoadGenesisFromFile d = Inr ?g"
      "GetValidatorSet L \<lparr>st_db = db, st_cfg = DefaultChainConfig\<rparr> = ([\<lparr>val_Address = addr, val_Stake = MinStake\<rparr>], None)"
    using init by (simp_all add: initialised_def Let_def addr_def)
  obtain ps nt where ps: "ConnectToSeeds (NewPeerSet 50 seeds listen) net = (ps, nt)" "peers_ok ps"
    using seeds by (cases "ConnectToSeeds (NewPeerSet 50 seeds listen) net") auto
  have nz: "\<not> Hash_IsZero (ch_LastHash c)"
    using i(3) by (auto simp: chain_on_disk_def tip_hash_def)
  let ?srv = "(Server_OnConn (NewServer listen (blk_Hash (GenesisBlock cl addr))))\<lparr>srv_lis := True\<rparr>"
  let ?env = "\<lparr>env_allocation = cfg_Genesis DefaultChainConfig, env_validators = ?vs, env_p2pListen = listen,
      env_priv = priv, env_validatorAddr = addr, env_server = ?srv\<rparr>"
  let ?n = "\<lparr>nd_chain = c, nd_state = \<lparr>st_db = db, st_cfg = DefaultChainConfig\<rparr>,
      nd_pool = Mempool_New (cfg_MaxBlockSize DefaultChainConfig div 500), nd_peers = ps, nd_net = nt,
      nd_blockMu = False, nd_doubleSign = []\<rparr>"
  have run: "runNodeLoop cl L True net (Some db) d listen seeds = Some (Returns (c, Some db) (Inr (?env, ?n)))"
    using i(1,2,4,5) nz ps(1)
    by (simp add: runNodeLoop_def ensure_genesis_def start_services_def Open_def Server_Listen_def addr_def [symmetric])
  have "my_turn L ?env ?n l" for l
    using i(6) by (simp add: my_turn_def getValidatorSet_def NewSetFromValidators_def ValidatorForHeight_def)
  moreover have "node_ok cl ?n" using ps(2) mempool_ok_New by (simp add: node_ok_def) (simp add: Mempool_New_def)
  moreover have "node_free ?n" using i(3) by (simp add: node_free_def chain_on_disk_def)
  ultimately show thesis using that [OF run] by (simp add: addr_def)
qed

text \<open>Joining: a new directory made from the genesis file of an initialised one.\<close>

lemma runInitJoin_joins:
  fixes L :: "'db leveldb"
  assumes join: "initialised cl L priv j dbj cj" and disk: "healthy d" "os_ReadFile d ''chain.json'' = NotExist"
    and key: "GenerateKey cl seed = Some priv2" "0 < key_D priv2" and db: "leveldb_ok L" "writes_ok L" "db_empty L db"
    and len: "length (PubkeyToAddress cl (Some (PublicKey priv))) = 20"
  obtains d' db' c where "runInitJoin cl L seed (Some db) j d = Returns (d', Some db') None"
    and "NewChain d' (Some DefaultChainConfig) = Inr c" and "ch_disk c = d'"
    and "chain_on_disk c [GenesisBlock cl (PubkeyToAddress cl (Some (PublicKey priv)))]"
    and "LoadKey d' validatorKeyFile = Value (Some priv2)" and "LoadGenesisFromFile d' = LoadGenesisFromFile j"
    and "balance_of L db' = balance_of L dbj" and "nonce_of L db' = nonce_of L dbj"
    and "GetValidatorSet L \<lparr>st_db = db', st_cfg = DefaultChainConfig\<rparr> = GetValidatorSet L \<lparr>st_db = dbj, st_cfg = DefaultChainConfig\<rparr>"
proof -
  define addr where "addr = PubkeyToAddress cl (Some (PublicKey priv))"
  let ?vs = "[\<lparr>vg_Address = Address_Hex addr, vg_Stake = MinStake\<rparr>]" and ?cfg = DefaultChainConfig and ?b = "GenesisBlock cl addr"
  let ?g = "\<lparr>gf_Block = Some ?b, gf_Allocation = cfg_Genesis ?cfg, gf_Validators = ?vs\<rparr>"
  have j: "chain_on_disk cj [?b]" "LoadGenesisFromFile j = Inr ?g" "balance_of L dbj = genesis_balances (cfg_Genesis ?cfg)"
      "nonce_of L dbj = (\<lambda>_. 0)"
      "GetValidatorSet L \<lparr>st_db = dbj, st_cfg = ?cfg\<rparr> = ([\<lparr>val_Address = addr, val_Stake = MinStake\<rparr>], None)"
    using join by (simp_all add: initialised_def Let_def addr_def)
  obtain data where data: "os_ReadFile j ''genesis.json'' = Content data"
    using j(2) by (auto simp: LoadGenesisFromFile_def split: read_result.splits)
  have b: "wf_block ?b" "\<not> Hash_IsZero (blk_Hash ?b)" "blk_Height ?b = 0" "blk_PreviousHash ?b = zero_hash"
    using j(1) read_block_wf [of "ch_disk cj" "blk_Hash ?b" ?b] by (auto simp: chain_on_disk_def GenesisBlock_def SetHash_def)
  define d1 where "d1 = d\<lparr>dk_files := AList.update ''genesis.json'' data (dk_files d)\<rparr>"
  define d2 where "d2 = d1\<lparr>dk_files := AList.update validatorKeyFile (key_text priv2) (dk_files d1)\<rparr>"
  have w1: "os_WriteFile d ''genesis.json'' data = (d1, None)" "healthy d1" "os_ReadFile d1 ''genesis.json'' = Content data"
      "os_ReadFile d1 ''chain.json'' = NotExist"
    using disk os_WriteFile_healthy by (simp_all add: d1_def) (simp add: healthy_def)
  have w2: "SaveKey d1 validatorKeyFile (Some priv2) = (d2, None)" "healthy d2"
    using w1(2) by (simp_all add: SaveKey_def os_WriteFile_healthy d2_def)
  have r2: "os_ReadFile d2 ''genesis.json'' = Content data" "os_ReadFile d2 ''chain.json'' = NotExist"
      "os_ReadFile d2 validatorKeyFile = Content (key_text priv2)"
    using w1(2-) disk(2) key_file_name(1,2) by (simp_all add: d2_def healthy_def)
  have lg: "LoadGenesisFromFile d1 = Inr ?g" "LoadGenesisFromFile d2 = Inr ?g"
    using j(2) data w1(3) r2(1) LoadGenesis_cong by metis+
  obtain db' where db': "applyGenesisLocked L ?cfg db (cfg_Genesis ?cfg) ?vs = (db', None)"
    using applyGenesisLocked_ok [OF db(2)] by metis
  obtain c where c: "append_genesis d2 (Some db') (Some ?b) = Returns (ch_disk c, Some db') None" "chain_on_disk c [?b]"
      "healthy (ch_disk c)" "NewChain (ch_disk c) (Some ?cfg) = Inr c"
      "os_ReadFile (ch_disk c) validatorKeyFile = os_ReadFile d2 validatorKeyFile"
      "os_ReadFile (ch_disk c) ''genesis.json'' = os_ReadFile d2 ''genesis.json''"
    using append_first_block [OF w2(2) r2(2) b] by metis
  have mk: "os_MkdirAll d [] = None" using disk(1) by (simp add: os_MkdirAll_def healthy_def)
  have run: "runInitJoin cl L seed (Some db) j d = Returns (ch_disk c, Some db') None"
    using mk data w1(1) lg key(1) w2(1) db' c(1)
    by (simp add: runInitJoin_def Open_def State_Close_def ApplyGenesis_locked)
  have "LoadKey (ch_disk c) validatorKeyFile = Value (Some priv2)"
    using LoadKey_text [OF _ key(2)] c(5) r2(3) by simp
  moreover have "LoadGenesisFromFile (ch_disk c) = LoadGenesisFromFile j" using LoadGenesis_cong [OF c(6)] lg(2) j(2) by simp
  ultimately show thesis
    using that [OF run c(4) refl] c(2) genesis_on_empty [OF db(1,3) db'] own_validator_set [OF db(1) _ db'] len j
    by (simp add: addr_def [symmetric])
qed

section \<open>Sending a transaction\<close>

text \<open>What is assumed of the signature scheme: it accepts its own signatures, and a compressed public
  key decodes to itself.\<close>

definition signatures_ok :: "crypto_lib \<Rightarrow> privkey \<Rightarrow> bool" where
  "signatures_ok cl priv \<longleftrightarrow>
     (\<forall>seed h r s. ecdsa_Sign cl seed priv h = Some (r, s) \<longrightarrow> ecdsa_Verify cl (PublicKey priv) h (r, s)) \<and>
     length (elliptic_MarshalCompressed cl (PublicKey priv)) = 33 \<and>
     elliptic_UnmarshalCompressed cl (elliptic_MarshalCompressed cl (PublicKey priv)) = Some (PublicKey priv)"

lemma TxHash_signature [simp]: "TxHash cl (t\<lparr>tx_Signature := s\<rparr>) = TxHash cl t"
  by (simp add: TxHash_def tx_payload_def)

lemma signed_tx_verifies:
  assumes "signatures_ok cl priv" and "signed_tx cl seed priv to amount fee nonce = Value tx"
  shows "VerifySignature cl tx" and "tx_From tx = PubkeyToAddress cl (Some (PublicKey priv))" and "tx_To tx = to"
    and "tx_Amount tx = amount" and "tx_Fee tx = fee" and "tx_Nonce tx = nonce"
proof -
  define t0 where "t0 = \<lparr>tx_From = PubkeyToAddress cl (Some (PublicKey priv)), tx_To = to, tx_Amount = amount,
      tx_Fee = fee, tx_Nonce = nonce, tx_SenderPubkey = MarshalPubkey cl (Some (PublicKey priv)), tx_Signature = []\<rparr>"
  obtain sig where sig: "Sign cl seed priv (TxHash cl t0) = Value sig" and tx: "tx = t0\<lparr>tx_Signature := sig\<rparr>"
    using assms(2) by (auto simp: signed_tx_def Let_def t0_def [symmetric] split: go_call.splits)
  have "length sig = 64 \<and> Verify cl (Some (PublicKey priv)) (TxHash cl t0) sig"
    using assms(1) by (intro Verify_Sign [OF sig]) (auto simp: signatures_ok_def)
  then show "VerifySignature cl tx"
    using assms(1) unfolding tx
    by (simp add: VerifySignature_def signatures_ok_def UnmarshalPubkey_def)
      (simp add: t0_def MarshalPubkey_def)
  show "tx_From tx = PubkeyToAddress cl (Some (PublicKey priv))" "tx_To tx = to" "tx_Amount tx = amount"
    "tx_Fee tx = fee" "tx_Nonce tx = nonce"
    by (simp_all add: tx t0_def)
qed

lemma json_Decode_Marshal:
  "wf_json v \<Longrightarrow> json_Decode (json_Marshal v) = Some v" "wf_json v \<Longrightarrow> json_Decode (json_Marshal v @ [newline]) = Some v"
  using parse_render(1) [where nl = "\<lambda>_. []" and sp = "[]" and r = "[]" and d = 0 and v = v]
    parse_render(1) [where nl = "\<lambda>_. []" and sp = "[]" and r = "[newline]" and d = 0 and v = v]
  by (simp_all add: json_Decode_def json_Marshal_def num_end_def newline_def is_digit_def is_ws_def)

text \<open>The API of a node as the client sees it: the account page, and the status of a post to
  \<^verbatim>\<open>/tx\<close>.\<close>

definition get_account :: "'db leveldb \<Rightarrow> 'db Node \<Rightarrow> string \<Rightarrow> string option" where
  "get_account L n addrHex =
     (case rs_Body (http_account L \<lparr>rq_Method = ''GET'', rq_Query = [(''address'', addrHex)], rq_Body = []\<rparr> n) of
        BodyJSON j \<Rightarrow> Some (json_Marshal j @ [newline]) | BodyText t \<Rightarrow> Some (t @ [newline]) | _ \<Rightarrow> None)"

definition post_request :: "string \<Rightarrow> Request" where
  "post_request body = \<lparr>rq_Method = ''POST'', rq_Query = [], rq_Body = body\<rparr>"

definition post_tx :: "crypto_lib \<Rightarrow> 'db leveldb \<Rightarrow> 'db Node \<Rightarrow> string \<Rightarrow> nat option" where
  "post_tx cl L n body = Some (rs_Status (snd (http_tx cl L (post_request body) n)))"

lemma get_account_nonce:
  assumes "leveldb_ok L" and "length a = 20"
  shows "\<exists>body. get_account L n (Address_Hex a) = Some body \<and>
    Option.bind (json_Decode body) (\<lambda>j. dec_struct nonce_fields j 0) = Some (nonce_of L (st_db (nd_state n)) a)"
proof -
  have "Address_Hex a \<noteq> []" using assms(2) by (cases a) (auto simp: Address_Hex_def hex_EncodeToString_def)
  moreover have "AddressFromHex (Address_Hex a) = Some a" using assms(2) by (simp add: AddressFromHex_Hex AddressSize_def)
  moreover have "wf_json (account_json x y)" for x y by (simp add: account_json_def)
  moreover have "dec_struct nonce_fields (account_json x y) 0 = Some y" for x y
    by (simp add: account_json_def dec_struct_def nonce_fields_def find_field_def fold_key.simps)
  ultimately show ?thesis
    using assms(1)
    by (simp add: get_account_def http_account_def query_Get_def Let_def ok_json_def json_Decode_Marshal GetNonce_eq)
qed

lemma http_tx_accepts:
  assumes "Mempool_Add cl L (Some (nd_state n)) (nd_pool n) tx = (m, None)" and "wf_tx tx"
  shows "http_tx cl L (post_request (json_Marshal (tx_json tx))) n =
    (node_Broadcast (n\<lparr>nd_pool := m\<rparr>) KindNewTx (tx_json tx),
     \<lparr>rs_Status = 202, rs_Body = BodyText (''tx hash: '' @ Hash_Hex (TxHash cl tx) @ [newline])\<rparr>)"
  using assms by (simp add: http_tx_def post_request_def json_Decode_Marshal dec_tx_json)

lemma runSend_accepted:
  fixes L :: "'db leveldb"
  assumes db: "leveldb_ok L" and cl: "digest_size cl" "signatures_ok cl priv"
    and key: "LoadKey d keyFile = Value (Some priv)" and to: "AddressFromHex toHex = Some to"
    and amt: "amount \<noteq> 0" "MinFee \<le> fee"
    and bal: "amount + fee \<le> balance_of L (st_db (nd_state n)) (PubkeyToAddress cl (Some (PublicKey priv)))"
    and room: "int (length (mp_txs (nd_pool n))) < mp_max (nd_pool n)"
    and sig: "signed_tx cl seed priv to amount fee
      (nonce_of L (st_db (nd_state n)) (PubkeyToAddress cl (Some (PublicKey priv)))) = Value tx"
    and fresh: "TxHash cl tx \<notin> TxHash cl ` set (mp_txs (nd_pool n))"
  shows "runSend cl seed d keyFile toHex amount fee 0 (get_account L n) (post_tx cl L n) = Value (Inr (Hash_Hex (TxHash cl tx)))"
    and "mp_txs (nd_pool (fst (http_tx cl L (post_request (json_Marshal (tx_json tx))) n))) = mp_txs (nd_pool n) @ [tx]"
proof -
  let ?a = "PubkeyToAddress cl (Some (PublicKey priv))"
  have len: "length ?a = 20" using cl(1) by (rule length_PubkeyToAddress)
  note tx = signed_tx_verifies [OF cl(2) sig]
  have wf: "wf_tx tx" using len tx(2,3) AddressFromHex_length [OF to] by (simp add: wf_tx_def AddressSize_def)
  have chk: "state_check L (Some (nd_state n)) tx = None"
    using bal tx by (auto simp: state_check_None_iff [OF db] funded_def)
  have add: "Mempool_Add cl L (Some (nd_state n)) (nd_pool n) tx =
      ((nd_pool n)\<lparr>mp_txs := mp_txs (nd_pool n) @ [tx]\<rparr>, None)"
    using room tx(1,5) amt(2) chk fresh by (auto simp: Mempool_Add_def SatisfiesMinFee_def has_hash_iff)
  note acc = http_tx_accepts [OF add wf]
  obtain body where "get_account L n (Address_Hex ?a) = Some body"
      "Option.bind (json_Decode body) (\<lambda>j. dec_struct nonce_fields j 0) = Some (nonce_of L (st_db (nd_state n)) ?a)"
    using get_account_nonce [OF db len] by metis
  then show "runSend cl seed d keyFile toHex amount fee 0 (get_account L n) (post_tx cl L n) = Value (Inr (Hash_Hex (TxHash cl tx)))"
    using key to amt(1) sig acc by (simp add: runSend_def post_tx_def)
  show "mp_txs (nd_pool (fst (http_tx cl L (post_request (json_Marshal (tx_json tx))) n))) = mp_txs (nd_pool n) @ [tx]"
    using acc by (simp add: node_Broadcast_def)
qed

section \<open>The load generator\<close>

text \<open>Requests posted to a node between two blocks.\<close>

definition post_to :: "crypto_lib \<Rightarrow> 'db leveldb \<Rightarrow> string \<Rightarrow> 'db Node \<Rightarrow> 'db Node \<times> nat option" where
  "post_to cl L body n = (case http_tx cl L (post_request body) n of (n', r) \<Rightarrow> (n', Some (rs_Status r)))"

lemma post_to_state: "nd_state (fst (post_to cl L body n)) = nd_state n"
  by (auto simp: post_to_def http_tx_def node_Broadcast_def split: prod.split option.split)

lemma wrong_nonce_rejected:
  assumes "leveldb_ok L" and "wf_tx tx" and "tx_Nonce tx \<noteq> nonce_of L (st_db (nd_state n)) (tx_From tx)"
  shows "snd (post_to cl L (json_Marshal (tx_json tx)) n) \<noteq> Some 202"
proof -
  have "state_check L (Some (nd_state n)) tx \<noteq> None" using assms by (simp add: state_check_None_iff)
  then obtain m e where "Mempool_Add cl L (Some (nd_state n)) (nd_pool n) tx = (m, Some e)"
    by (cases "Mempool_Add cl L (Some (nd_state n)) (nd_pool n) tx" rule: prod.exhaust)
      (auto simp: Mempool_Add_def split: if_splits option.splits)
  then show ?thesis
    using assms(2) by (simp add: post_to_def http_tx_def post_request_def json_Decode_Marshal dec_tx_json)
qed

lemma request_accepted:
  fixes L :: "'db leveldb"
  assumes "leveldb_ok L" and "digest_size cl" and "signatures_ok cl priv"
    and "nonce = nonce_of L (st_db (nd_state n)) (PubkeyToAddress cl (Some (PublicKey priv)))"
    and "loadgen_request cl seed priv nonce (post_to cl L) i n = Value (n', ok)"
  shows "nd_state n' = nd_state n" and "ok \<Longrightarrow> i = 0"
proof -
  have burn: "length burn_address = 20" by (simp add: burn_address_def zero_address_def)
  have "nd_state n' = nd_state n \<and> (ok \<longrightarrow> i = 0)"
  proof (cases "loadgen_tx cl seed priv nonce i")
    case (Value tx)
    note tx = signed_tx_verifies [OF assms(3) Value [unfolded loadgen_tx_def]]
    have wf: "wf_tx tx" using tx(2,3) burn assms(2) by (simp add: wf_tx_def length_PubkeyToAddress)
    obtain st where p: "post_to cl L (json_Marshal (tx_json tx)) n = (n', st)" and ok: "ok \<longleftrightarrow> st = Some 202"
      using assms(5) Value by (auto simp: loadgen_request_def split: prod.splits)
    have "st \<noteq> Some 202" if "i \<noteq> 0"
      using that wrong_nonce_rejected [OF assms(1) wf, of n cl] tx(2,6) assms(4) p by simp
    then show ?thesis using post_to_state [of cl L "json_Marshal (tx_json tx)" n] p ok by auto
  qed (use assms(5) in \<open>auto simp: loadgen_request_def\<close>)
  then show "nd_state n' = nd_state n" and "ok \<Longrightarrow> i = 0" by simp_all
qed

text \<open>A Go \<^verbatim>\<open>int\<close> below \<open>2 ^ 63\<close> read with and without its sign.\<close>

lemma sint_small: "unat (w :: u64) < 2 ^ 63 \<Longrightarrow> sint w = int (unat w)"
proof -
  assume w: "unat w < 2 ^ 63"
  have "int (unat w) < int (2 ^ 63)" using w by (rule of_nat_less_iff [THEN iffD2])
  then have "uint w < 2 ^ 63" unfolding uint_nat by (simp only: of_nat_power of_nat_numeral)
  then have "signed_take_bit 63 (uint w) = uint w" using uint_ge_0 [of w] by (intro signed_take_bit_int_eq_self) linarith+
  then show ?thesis by (simp add: sint_uint)
qed

text \<open>The workers between two requests, \<open>t\<close> transactions and \<open>k\<close> workers: worker \<open>c\<close> is at a number \<open>nx ! c\<close> congruent to
  \<open>c\<close>, and the numbers \<open>xs\<close> sent are those below the position of their worker, each once.\<close>

definition spread :: "nat \<Rightarrow> nat \<Rightarrow> u64 list \<Rightarrow> u64 list \<Rightarrow> bool" where
  "spread t k nx xs \<longleftrightarrow> length nx = k \<and> (\<forall>c < k. unat (nx ! c) mod k = c \<and> unat (nx ! c) < t + k) \<and>
     distinct xs \<and> (\<forall>i \<in> set xs. unat i < t) \<and>
     (0 < k \<longrightarrow> (\<forall>i. unat i < t \<longrightarrow> (i \<in> set xs \<longleftrightarrow> unat i < unat (nx ! (unat i mod k)))))"

lemma spread_start:
  assumes "t + k < 2 ^ 63"
  shows "spread t k (map of_nat [0..<k]) []"
proof -
  have "unat (of_nat c :: u64) = c" if "c < k" for c using that assms by (simp add: unat_of_nat)
  moreover have "m mod k \<le> m" for m by simp
  ultimately show ?thesis by (auto simp: spread_def not_less)
qed

lemma same_residue:
  assumes "(j :: nat) mod k = i mod k" and "i \<le> j" and "j < i + k"
  shows "j = i"
proof -
  obtain q where "j = i + k * q" using mod_eq_nat2E [OF assms(1) [symmetric] assms(2)] by blast
  then show ?thesis using assms(3) by (cases q) auto
qed

lemma spread_post:
  assumes sp: "spread t k nx xs" and small: "t + k < 2 ^ 63" and c: "c < k" "unat (nx ! c) < t" and kw: "unat kw = k"
  shows "spread t k (nx[c := nx ! c + kw]) (nx ! c # xs)"
proof -
  let ?i = "nx ! c"
  have i: "unat ?i mod k = c" and k: "0 < k" and l: "length nx = k" using sp c(1) by (auto simp: spread_def)
  have add: "unat (?i + kw) = unat ?i + k" using c(2) small kw by (intro unat_add_lem [THEN iffD1, THEN trans]) auto
  have new: "?i \<notin> set xs" using sp c(2) k i by (auto simp: spread_def)
  have "j \<in> insert ?i (set xs) \<longleftrightarrow> unat j < unat (nx[c := ?i + kw] ! (unat j mod k))" if "unat j < t" for j
  proof (cases "unat j mod k = c")
    case True
    then have "j \<in> set xs \<longleftrightarrow> unat j < unat ?i" using sp that k by (auto simp: spread_def)
    moreover have "unat j = unat ?i" if "unat ?i \<le> unat j" "unat j < unat ?i + k"
      using same_residue [OF _ that] True i by simp
    ultimately show ?thesis using True c(1) l k by (auto simp: add not_less simp flip: word_unat_eq_iff)
  next
    case False
    then have "j \<noteq> ?i" using i by auto
    then show ?thesis using sp that k False by (auto simp: spread_def)
  qed
  then show ?thesis
    using sp c l k new add i unfolding spread_def by (auto simp: nth_list_update)
qed

lemma spread_finished:
  assumes "spread t k nx xs" and "0 < k" and "\<forall>i \<in> set nx. t \<le> unat i" and "t + k < 2 ^ 63"
  shows "unat ` set xs = {0..<t}"
proof -
  have "j \<in> unat ` set xs" if "j < t" for j
  proof -
    have u: "unat (of_nat j :: u64) = j" using that assms(4) by (simp add: unat_of_nat)
    have "nx ! (j mod k) \<in> set nx" using assms(1,2) by (simp add: spread_def)
    then have "j < unat (nx ! (j mod k))" using assms(3) that by fastforce
    then have "of_nat j \<in> set xs" using assms(1,2) that u by (simp add: spread_def)
    then show ?thesis using u by force
  qed
  then show ?thesis using assms(1) by (auto simp: spread_def)
qed

lemma sint_positive:
  fixes w :: u64
  assumes "0 < sint w"
  shows "unat w = nat (sint w)"
proof -
  have "sint w < 2 ^ 63" using sint_lt [of w] by simp
  then have "uint (word_of_int (sint w) :: u64) = sint w"
    using assms by (simp only: uint_word_of_int) simp
  then show ?thesis by (simp add: unat_eq_nat_uint)
qed

text \<open>The state of the generator: the workers are spread, and each token in the channel and each count of the
  collector is the request with number 0, the only one with the stored nonce.\<close>

definition load_ok :: "nat \<Rightarrow> nat \<Rightarrow> 'db State \<Rightarrow> 'db Node Load \<Rightarrow> bool" where
  "load_ok t k st ld \<longleftrightarrow> spread t k (lg_next ld) (lg_sent ld) \<and> nd_state (lg_node ld) = st \<and>
     lg_done ld + lg_accepted ld \<le> (if 0 \<in> set (lg_sent ld) then 1 else 0)"

lemma load_ok_post:
  fixes L :: "'db leveldb"
  assumes lib: "leveldb_ok L" "digest_size cl" "signatures_ok cl priv"
    and nonce: "nonce = nonce_of L (st_db st) (PubkeyToAddress cl (Some (PublicKey priv)))"
    and t: "int t = sint n" and k: "unat kw = k" and small: "t + k < 2 ^ 63"
    and ok: "load_ok t k st ld" and c: "c < length (lg_next ld)" "sint (lg_next ld ! c) < sint n"
    and r: "loadgen_request cl seed priv nonce (post_to cl L) (lg_next ld ! c) (lg_node ld) = Value (n', acc)"
  shows "load_ok t k st (ld\<lparr>lg_node := n', lg_next := (lg_next ld)[c := lg_next ld ! c + kw],
    lg_sent := lg_next ld ! c # lg_sent ld, lg_done := lg_done ld + (if acc then 1 else 0)\<rparr>)"
proof -
  let ?i = "lg_next ld ! c"
  have sp: "spread t k (lg_next ld) (lg_sent ld)" and st: "nd_state (lg_node ld) = st"
    using ok by (simp_all add: load_ok_def)
  have "c < k" "unat ?i < t + k" using sp c(1) by (auto simp: spread_def)
  then have "sint ?i = int (unat ?i)" using small by (intro sint_small) linarith
  then have "int (unat ?i) < int t" using c(2) t by (simp only:)
  then have i: "unat ?i < t" by (simp only: of_nat_less_iff)
  note req = request_accepted [OF lib nonce [folded st] r]
  have "?i \<notin> set (lg_sent ld)"
    using sp i \<open>c < k\<close> by (auto simp: spread_def)
  then show ?thesis
    using spread_post [OF sp small \<open>c < k\<close> i k] req ok by (auto simp: load_ok_def split: if_splits)
qed

lemma loadgen_loop_ok:
  fixes L :: "'db leveldb"
  assumes lib: "leveldb_ok L" "digest_size cl" "signatures_ok cl priv"
    and nonce: "nonce = nonce_of L (st_db st) (PubkeyToAddress cl (Some (PublicKey priv)))"
    and t: "int t = sint n" and k: "0 < k \<longrightarrow> unat kw = k" and small: "t + k < 2 ^ 63"
    and "load_ok t k st ld"
    and "loadgen_loop (loadgen_request cl seed priv nonce (post_to cl L)) n kw evs ld = Some (Value ld')"
  shows "load_ok t k st ld' \<and> (Timeout \<in> set evs \<or> t \<le> lg_accepted ld')"
  using assms(8,9)
proof (induction evs arbitrary: ld)
  case Nil
  then show ?case using t by (auto split: if_splits)
next
  case (Cons ev evs)
  show ?case
  proof (cases "int (lg_accepted ld) < sint n")
    case go: True
    show ?thesis
    proof (cases ev)
      case (Post c)
      obtain n' acc where c: "c < length (lg_next ld)" "sint (lg_next ld ! c) < sint n"
          "loadgen_request cl seed priv nonce (post_to cl L) (lg_next ld ! c) (lg_node ld) = Value (n', acc)"
        using Cons.prems(2) go Post by (auto simp: Let_def split: if_splits go_call.splits)
      have "0 < k" using c(1) Cons.prems(1) by (auto simp: load_ok_def spread_def)
      let ?l = "ld\<lparr>lg_node := n', lg_next := (lg_next ld)[c := lg_next ld ! c + kw],
          lg_sent := lg_next ld ! c # lg_sent ld, lg_done := lg_done ld + (if acc then 1 else 0)\<rparr>"
      have "loadgen_loop (loadgen_request cl seed priv nonce (post_to cl L)) n kw evs ?l = Some (Value ld')"
        using Cons.prems(2) go Post c by (cases acc) (auto simp: Let_def split: if_splits)
      then show ?thesis
        using Cons.IH [OF load_ok_post [OF lib nonce t _ small Cons.prems(1) c]] k \<open>0 < k\<close> by auto
    next
      case Receive
      let ?l = "ld\<lparr>lg_done := lg_done ld - 1, lg_accepted := lg_accepted ld + 1\<rparr>"
      have "lg_done ld \<noteq> 0" and run: "loadgen_loop (loadgen_request cl seed priv nonce (post_to cl L)) n kw evs ?l = Some (Value ld')"
        using Cons.prems(2) go Receive by (auto split: if_splits)
      then have "load_ok t k st ?l" using Cons.prems(1) by (simp add: load_ok_def)
      from Cons.IH [OF this run] show ?thesis by auto
    qed (use Cons.prems go in auto)
  qed (use Cons.prems t in auto)
qed

end
