(* ===== verification/Chain_Properties.thy ===== *)
theory Chain_Properties
  imports Format_Properties Startup_Laws
begin

text \<open>
  The properties of the block store: appending is atomic and survives a restart, the requested
  segment of a chain is what is served, and serving ends.
\<close>

section \<open>Data of the witnesses\<close>

definition demo_genesis :: Block where
  "demo_genesis = GenesisBlock demo_crypto demo_sender"

lemma length_demo_sender: "length demo_sender = 20"
  by (simp add: demo_sender_def length_PubkeyToAddress demo_digest_size)

lemma demo_genesis_wf: "wf_block demo_genesis"
  by (simp add: demo_genesis_def wf_GenesisBlock demo_digest_size length_demo_sender)

lemma demo_genesis_hash: "\<not> Hash_IsZero (blk_Hash demo_genesis)"
  by code_simp

lemma demo_genesis_fields: "blk_Height demo_genesis = 0" "blk_PreviousHash demo_genesis = zero_hash"
  by (simp_all add: demo_genesis_def GenesisBlock_def SetHash_def)

definition empty_chain :: "disk \<Rightarrow> Chain" where
  "empty_chain d = \<lparr>ch_mu = Unlocked, ch_disk = d, ch_cfg = DefaultChainConfig, ch_Height = 0, ch_LastHash = zero_hash\<rparr>"

lemma empty_chain_ok: "chain_on_disk (empty_chain d) []"
  by (simp add: chain_on_disk_def tip_hash_def empty_chain_def)

section \<open>Appending\<close>

text \<open>C9: whatever system calls fail, \<^verbatim>\<open>AppendBlock\<close> returns with its locks released and leaves every other
  stored block as it was. Either it reports an error and the tip in memory, the tip file and the block's own
  file are unchanged, or the tip in memory is the new block, its file holds the whole block and, unless an error is
  reported, the tip file names it. So no block file is ever half written. (The temporary file and
  the tip file, which is overwritten in place, may be left torn by a failed write.)\<close>

theorem AppendBlock_atomic:
  assumes "ch_mu c = Unlocked" and "wf_block b"
  shows "\<exists>c' err. AppendBlock c b = Returns c' err \<and> ch_mu c' = Unlocked \<and> ch_cfg c' = ch_cfg c \<and>
    (\<forall>h. h \<noteq> blk_Hash b \<longrightarrow> read_block (ch_disk c') h = read_block (ch_disk c) h) \<and>
    (err \<noteq> None \<and> ch_Height c' = ch_Height c \<and> ch_LastHash c' = ch_LastHash c \<and>
       read_block (ch_disk c') (blk_Hash b) = read_block (ch_disk c) (blk_Hash b) \<and>
       os_ReadFile (ch_disk c') ''chain.json'' = os_ReadFile (ch_disk c) ''chain.json'' \<or>
     ch_Height c' = blk_Height b \<and> ch_LastHash c' = blk_Hash b \<and>
       (\<not> dk_fault (ch_disk c) (OpRead (block_file (blk_Hash b))) \<longrightarrow> read_block (ch_disk c') (blk_Hash b) = Inr b) \<and>
       (err = None \<and> \<not> dk_fault (ch_disk c) (OpRead ''chain.json'') \<longrightarrow>
          os_ReadFile (ch_disk c') ''chain.json'' = Content (json_MarshalIndent (meta_json
            \<lparr>cm_Height = blk_Height b, cm_LastHash = blk_Hash b\<rparr>))))"
  by (rule AppendBlock_atomic_lemma [OF assms]) blast

text \<open>A disk on which the write of the temporary file fails half way.\<close>

definition torn_disk :: disk where
  "torn_disk = empty_disk\<lparr>dk_fault := (\<lambda>op. op = OpWrite (tmp_file (blk_Hash demo_genesis))),
     dk_torn := (\<lambda>p. Some ''{'')\<rparr>"

theorem AppendBlock_atomic_witness:
  "\<exists>c' e. AppendBlock (empty_chain torn_disk) demo_genesis = Returns c' (Some e) \<and> ch_LastHash c' = zero_hash \<and>
     read_block (ch_disk c') (blk_Hash demo_genesis) = Inl NotExistError"
proof -
  let ?c = "empty_chain torn_disk"
  have "ch_mu ?c = Unlocked" by (simp add: empty_chain_def)
  then obtain c' err where c': "AppendBlock ?c demo_genesis = Returns c' err"
    and alt: "err \<noteq> None \<and> ch_LastHash c' = ch_LastHash ?c \<and>
       read_block (ch_disk c') (blk_Hash demo_genesis) = read_block (ch_disk ?c) (blk_Hash demo_genesis) \<or>
       ch_LastHash c' = blk_Hash demo_genesis"
    using AppendBlock_atomic [of ?c demo_genesis] demo_genesis_wf by auto
  have "\<exists>d e. AppendBlock ?c demo_genesis = Returns (?c\<lparr>ch_disk := d\<rparr>) (Some e)"
    by (simp add: AppendBlock_def empty_chain_def torn_disk_def os_WriteFile_def chain_Unlock_def)
  then have "ch_LastHash c' = zero_hash" using c' by (auto simp: empty_chain_def)
  moreover have "blk_Hash demo_genesis \<noteq> zero_hash" using demo_genesis_hash by auto
  moreover have "read_block (ch_disk ?c) h = Inl NotExistError" for h
    by (simp add: read_block_def os_ReadFile_def empty_chain_def torn_disk_def empty_disk_def)
  ultimately show ?thesis using c' alt by auto
qed

text \<open>C10: on a working disk, appending a block that names the tip and has the next height extends the
  stored chain by that block, and a node started again on the directory finds exactly this chain.\<close>

theorem AppendBlock_durable:
  assumes "chain_on_disk c bs" and "healthy (ch_disk c)" and "wf_block b" and "length bs + 1 < 2 ^ 64"
    and "blk_Height b = of_nat (length bs)" and "blk_PreviousHash b = ch_LastHash c" and "\<not> Hash_IsZero (blk_Hash b)"
    and "blk_Hash b \<notin> blk_Hash ` set bs"
  shows "\<exists>c'. AppendBlock c b = Returns c' None \<and> chain_on_disk c' (bs @ [b]) \<and> healthy (ch_disk c') \<and>
    NewChain (ch_disk c') (Some (ch_cfg c)) = Inr c'"
  by (rule AppendBlock_extends [OF assms]) blast

lemma demo_chain_lemma:
  obtains c where "AppendBlock (empty_chain empty_disk) demo_genesis = Returns c None" and "chain_on_disk c [demo_genesis]"
    and "healthy (ch_disk c)" and "NewChain (ch_disk c) (Some DefaultChainConfig) = Inr c"
  using AppendBlock_extends [OF empty_chain_ok [of empty_disk], of demo_genesis] demo_genesis_wf demo_genesis_hash
    demo_genesis_fields
  by (auto simp: empty_chain_def)

theorem AppendBlock_durable_witness:
  "\<exists>c'. AppendBlock (empty_chain empty_disk) demo_genesis = Returns c' None \<and>
     NewChain (ch_disk c') (Some DefaultChainConfig) = Inr c'"
  using AppendBlock_durable [OF empty_chain_ok [of empty_disk], of demo_genesis] demo_genesis_wf demo_genesis_hash
    demo_genesis_fields
  by (auto simp: empty_chain_def)

section \<open>Serving blocks\<close>

text \<open>C11: on a stored chain \<^verbatim>\<open>GetBlocksFrom\<close> ends and returns the blocks from the requested height
  upwards, oldest first, at most the requested number (10000 when none is given).\<close>

theorem GetBlocksFrom_segment:
  assumes "chain_on_disk c bs" and "n < 2 ^ 64"
  shows "GetBlocksFrom c (of_nat n) mx = Returns c (Inr (take (if mx \<le> 0 then 10000 else nat mx) (drop n bs)))"
  using GetBlocksFrom_chain [OF assms] .

theorem GetBlocksFrom_segment_witness:
  "\<exists>c. chain_on_disk c [demo_genesis] \<and> GetBlocksFrom c (of_nat 0) 10 = Returns c (Inr [demo_genesis]) \<and>
     GetBlocksFrom c (of_nat 1) 10 = Returns c (Inr [])"
proof -
  obtain c where c: "chain_on_disk c [demo_genesis]" using demo_chain_lemma by metis
  show ?thesis using GetBlocksFrom_segment [OF c, of 0 10] GetBlocksFrom_segment [OF c, of 1 10] c by auto
qed

text \<open>C34: serving blocks ends on every disk on which each stored block has a greater height than its stored
  predecessor, even when files are missing or damaged, and never serves more blocks than asked for
  (10000 when no number is given). From a tip that is its own predecessor and lies above the requested
  height it never returns.\<close>

theorem GetBlocksFrom_terminates:
  assumes "ch_mu c = Unlocked"
  shows "(heights_descend (ch_disk c) \<longrightarrow>
      (\<exists>r. GetBlocksFrom c f mx = Returns c r \<and>
         (\<forall>bs. r = Inr bs \<longrightarrow> int (length bs) \<le> (if mx \<le> 0 then 10000 else mx)))) \<and>
    (read_block (ch_disk c) (ch_LastHash c) = Inr b \<longrightarrow> blk_PreviousHash b = ch_LastHash c \<longrightarrow>
     \<not> Hash_IsZero (ch_LastHash c) \<longrightarrow> f < blk_Height b \<longrightarrow> f \<le> ch_Height c \<longrightarrow>
      GetBlocksFrom c f mx = Blocks c)"
  using GetBlocksFrom_ends GetBlocksFrom_loops assms by blast

text \<open>A store that holds the genesis block only.\<close>

definition one_block_disk :: disk where
  "one_block_disk = store_block demo_genesis empty_disk"

lemma one_block_disk_read:
  "read_block one_block_disk h = (if h = blk_Hash demo_genesis then Inr demo_genesis else Inl NotExistError)"
  using demo_genesis_wf unfolding one_block_disk_def store_block_def
  by (simp add: os_WriteFile_def empty_disk_def) (simp add: read_block_def os_ReadFile_def Unmarshal_block_Marshal)

theorem GetBlocksFrom_terminates_witness:
  "\<exists>r. GetBlocksFrom ((empty_chain one_block_disk)\<lparr>ch_LastHash := blk_Hash demo_genesis\<rparr>) 0 0 =
     Returns ((empty_chain one_block_disk)\<lparr>ch_LastHash := blk_Hash demo_genesis\<rparr>) r"
proof -
  have "blk_Hash demo_genesis \<noteq> zero_hash" using demo_genesis_hash by auto
  then have "heights_descend one_block_disk"
    by (auto simp: heights_descend_def one_block_disk_read demo_genesis_fields split: if_splits)
  then show ?thesis
    using GetBlocksFrom_terminates [of "(empty_chain one_block_disk)\<lparr>ch_LastHash := blk_Hash demo_genesis\<rparr>" 0 0]
    by (auto simp: empty_chain_def)
qed

end
