(* ===== verification/Node_Properties.thy ===== *)
theory Node_Properties
  imports Chain_Properties
begin

text \<open>
  The properties of the running node: what a producer tick, a block of a peer and a message do to the
  chain, the ledger, the pool and the peer set.
\<close>

section \<open>Data of the witnesses\<close>

definition demo_key :: privkey where
  "demo_key = \<lparr>key_D = 5, key_X = 5, key_Y = 0\<rparr>"

definition quiet_net :: Net where
  "quiet_net = \<lparr>nt_next = 0, nt_dial = (\<lambda>n a. Some a), nt_broken = (\<lambda>c. False), nt_closed = [], nt_sent = [],
     nt_started = []\<rparr>"

lemma demo_key_address: "PubkeyToAddress demo_crypto (Some (PublicKey demo_key)) = demo_sender"
  by (simp add: demo_sender_def demo_key_def PublicKey_def)

lemma demo_GenerateKey: "GenerateKey demo_crypto seed = Some demo_key"
  by (simp add: GenerateKey_def demo_crypto_def demo_key_def)

lemma empty_disk_chain: "os_ReadFile empty_disk ''chain.json'' = NotExist"
  by (simp add: os_ReadFile_def empty_disk_def)

lemma mem_empty: "db_empty mem_leveldb []"
  by (simp add: db_empty_def mem_leveldb_def)

section \<open>A node for the witnesses\<close>

text \<open>A started node of the demonstration key with two pending transactions.\<close>

definition demo_env :: Env where
  "demo_env = \<lparr>env_allocation = [], env_validators = [], env_p2pListen = '':3030'', env_priv = demo_key,
     env_validatorAddr = demo_sender, env_server = NewServer '':3030'' zero_hash\<rparr>"

definition demo_node :: "Chain \<Rightarrow> memdb Node" where
  "demo_node c = \<lparr>nd_chain = c, nd_state = sender_state, nd_pool = demo_pool, nd_peers = NewPeerSet 50 [] '':3030'',
     nd_net = quiet_net, nd_blockMu = False, nd_doubleSign = []\<rparr>"

lemma demo_validator: "length (env_validatorAddr demo_env) = 20"
  by (simp add: demo_env_def length_demo_sender)

lemma wf_demo_tx: "wf_tx (demo_tx a)"
  using length_demo_sender by (simp add: wf_tx_def demo_tx_def pay_def bob_def)

lemma demo_node_ok: "node_ok demo_crypto (demo_node c)"
  using demo_pool_ok peers_ok_New wf_demo_tx by (simp add: node_ok_def demo_node_def) (simp add: demo_pool_def)

lemma demo_node_free: "chain_on_disk c bs \<Longrightarrow> node_free (demo_node c)"
  by (simp add: node_free_def demo_node_def chain_on_disk_def)

lemma demo_no_set: "getValidatorSet mem_leveldb (demo_node c) = None"
  by (simp add: getValidatorSet_def demo_node_def sender_state_def GetValidatorSet_def mem_leveldb_def)

lemma demo_turn: "my_turn mem_leveldb demo_env (demo_node c) l"
  by (simp add: my_turn_def demo_no_set)

definition demo_sig :: "byte list" where
  "demo_sig = low_bytes 32 7 @ low_bytes 32 9"

lemma demo_Sign: "Sign demo_crypto seed k h = Value demo_sig"
  by (simp add: Sign_def demo_crypto_def big_FillBytes_def demo_sig_def)

definition demo_block :: Block where
  "demo_block = produced demo_crypto demo_env 1 demo_genesis [demo_tx 5, demo_tx 50] demo_sig"

text \<open>The demonstration digest is the end of its input read backwards, so it tells a block with
  transactions from one without by the closing brackets of the hashed text.\<close>

lemma render_elems_arrays:
  "vs \<noteq> [] \<Longrightarrow> \<exists>p. render_elems nl sp d (map enc_array vs) = p @ '']''"
proof (induction vs)
  case (Cons v vs)
  then show ?case by (cases "vs = []") (auto simp: enc_array_def)
qed simp

lemma block_payload_end:
  "\<exists>p. json_Marshal (block_payload cl b) = p @ (if blk_Transactions b = [] then ''[]}'' else '']]}'')"
proof (cases "blk_Transactions b = []")
  case False
  then obtain p where "render_elems (\<lambda>_. []) [] 2 (map enc_array (txHashes cl (blk_Transactions b))) = p @ '']''"
    using render_elems_arrays [of "txHashes cl (blk_Transactions b)" "\<lambda>_. []" "[]" 2] by (auto simp: txHashes_def)
  with False show ?thesis by (auto simp: json_Marshal_def block_payload_def txHashes_def numeral_2_eq_2)
qed (auto simp: json_Marshal_def block_payload_def txHashes_def)

lemma demo_BlockHash:
  "BlockHash demo_crypto b ! 0 = 125" "BlockHash demo_crypto b ! 2 = (if blk_Transactions b = [] then 91 else 93)"
proof -
  obtain p where p: "json_Marshal (block_payload demo_crypto b) = p @ (if blk_Transactions b = [] then ''[]}'' else '']]}'')"
    using block_payload_end by metis
  show "BlockHash demo_crypto b ! 0 = 125" "BlockHash demo_crypto b ! 2 = (if blk_Transactions b = [] then 91 else 93)"
    unfolding BlockHash_def p by (simp_all add: HashBytes_def demo_crypto_def bytes_def)
qed

lemma demo_block_hash: "\<not> Hash_IsZero (blk_Hash demo_block)" "blk_Hash demo_block \<noteq> blk_Hash demo_genesis"
proof -
  have h: "blk_Hash demo_block = BlockHash demo_crypto demo_block"
    by (simp add: demo_block_def produced_def NewBlock_def SetHash_def Let_def)
  have g: "blk_Hash demo_genesis = BlockHash demo_crypto demo_genesis"
    by (simp add: demo_genesis_def GenesisBlock_def SetHash_def Let_def)
  show "\<not> Hash_IsZero (blk_Hash demo_block)"
    using demo_BlockHash(1) [of demo_block] Hash_IsZero_zero [of "BlockHash demo_crypto demo_block"] demo_digest_size
    unfolding h by (auto simp: zero_hash_def BlockHash_def HashBytes_def digest_size_def)
  have "blk_Transactions demo_block = [demo_tx 5, demo_tx 50]" "blk_Transactions demo_genesis = []"
    by (simp_all add: demo_block_def produced_def demo_genesis_def GenesisBlock_def SetHash_def)
  then show "blk_Hash demo_block \<noteq> blk_Hash demo_genesis"
    unfolding h g using demo_BlockHash(2) [of demo_block] demo_BlockHash(2) [of demo_genesis] by auto
qed

lemma demo_block_wf: "wf_block demo_block"
  unfolding demo_block_def using length_demo_sender wf_demo_tx
  by (intro wf_produced demo_digest_size demo_genesis_wf) (simp_all add: demo_env_def)

lemma demo_block_valid: "ValidateBlock demo_crypto demo_block"
  by (simp add: demo_block_def produced_def ValidateBlock_New)

section \<open>The producer\<close>

text \<open>C4: when it is this node's turn and transactions are pending, a tick of the producer with a working
  disk and database builds one block of the oldest transactions on the tip, signs it, applies it to
  the ledger as the specification says, appends it to the stored chain (found again after a restart),
  takes exactly its transactions out of the pool and releases all locks; provided that signing succeeds and the
  hash of the block is neither zero nor that of a block of the chain.\<close>

theorem producer_tick:
  fixes n :: "'db Node" and L :: "'db leveldb"
  assumes "node_free n" and "chain_on_disk (nd_chain n) bs" and "bs \<noteq> []" and "length bs + 1 < 2 ^ 64"
    and "healthy (ch_disk (nd_chain n))" and "digest_size cl" and "length (env_validatorAddr env) = 20"
    and "node_ok cl n" and "leveldb_ok L" and "my_turn L env n (last bs)"
    and "txs = Mempool_Pending (nd_pool n) 100" and "txs \<noteq> []"
    and "Sign cl seed (env_priv env) (blk_Hash (produced cl env now (last bs) txs [])) = Value sig"
    and "b = produced cl env now (last bs) txs sig" and "\<not> Hash_IsZero (blk_Hash b)" and "blk_Hash b \<notin> blk_Hash ` set bs"
    and "ApplyBlock L (nd_state n) b = (s, None)"
  shows "\<exists>n'. produce cl L env now seed n = Returns n' () \<and> node_free n' \<and>
    chain_on_disk (nd_chain n') (bs @ [b]) \<and>
    NewChain (ch_disk (nd_chain n')) (Some (ch_cfg (nd_chain n))) = Inr (nd_chain n') \<and>
    balance_of L (st_db (nd_state n')) = spec_block (balance_of L (st_db (nd_state n))) b \<and>
    nonce_of L (st_db (nd_state n')) =
      spec_nonce (balance_of L (st_db (nd_state n))) (nonce_of L (st_db (nd_state n))) txs \<and>
    mp_txs (nd_pool n') = drop (length txs) (mp_txs (nd_pool n))"
  by (rule produce_extends_chain [OF assms]) blast

theorem producer_tick_witness:
  "\<exists>c n'. chain_on_disk c [demo_genesis] \<and> produce demo_crypto mem_leveldb demo_env 1 0 (demo_node c) = Returns n' () \<and>
     chain_on_disk (nd_chain n') [demo_genesis, demo_block] \<and> mp_txs (nd_pool n') = []"
proof -
  obtain c where c: "chain_on_disk c [demo_genesis]" "healthy (ch_disk c)" using demo_chain_lemma by metis
  let ?n = "demo_node c" and ?txs = "[demo_tx 5, demo_tx 50]"
  have txs: "?txs = Mempool_Pending (nd_pool ?n) 100"
    by (simp add: demo_node_def demo_pool_def Mempool_Pending_def Let_def)
  obtain s where s: "ApplyBlock mem_leveldb (nd_state ?n) demo_block = (s, None)"
    using ApplyBlock_ok [OF mem_writes_ok] by blast
  have ch: "chain_on_disk (nd_chain ?n) [demo_genesis]" "healthy (ch_disk (nd_chain ?n))"
    using c by (simp_all add: demo_node_def)
  have "\<exists>n'. produce demo_crypto mem_leveldb demo_env 1 0 ?n = Returns n' () \<and>
      chain_on_disk (nd_chain n') ([demo_genesis] @ [demo_block]) \<and> mp_txs (nd_pool n') = drop (length ?txs) (mp_txs (nd_pool ?n))"
    using producer_tick [OF demo_node_free [OF c(1)] ch(1) _ _ ch(2) demo_digest_size _ demo_node_ok mem_leveldb_ok demo_turn
        txs _ demo_Sign _ demo_block_hash(1) _ s, where now = 1 and seed = 0] demo_validator demo_block_hash(2)
    by (simp add: demo_block_def) blast
  then show ?thesis using c(1) by (auto simp: demo_node_def demo_pool_def)
qed

section \<open>Blocks of peers\<close>

text \<open>C5: what the handler of a new block does on every branch, for a node on which no lock is held. A block
  that fails its checks (hashes, already stored, not the turn of its producer) changes nothing. A second
  block of one validator for one height slashes the validator. Otherwise the block enters the
  double-sign table, and is dropped when it does not name the tip. A block that names the tip is
  written to disk and applied to the ledger; when the ledger reports an error the handler returns, and
  when it does not the handler never returns from \<^verbatim>\<open>SetTip\<close>.\<close>

theorem new_block_outcome:
  fixes L :: "'db leveldb"
  assumes "node_free n"
  shows "\<exists>t d w s err.
    os_WriteFile (ch_disk (nd_chain n)) (block_file (blk_Hash b)) (json_MarshalIndent (block_json b)) = (d, w) \<and>
    ApplyBlock L (nd_state n) b = (s, err) \<and>
    handle_new_block cl L b n =
      (if \<not> (ValidateBlock cl b \<and> \<not> known n (blk_Hash b) \<and> scheduled L n b) then Returns n ()
       else if equivocation n b
       then Returns (n\<lparr>nd_doubleSign := t, nd_state := fst (SlashValidator L (nd_state n) (blk_ValidatorAddress b))\<rparr>) ()
       else if \<not> extends n b then Returns (n\<lparr>nd_doubleSign := t\<rparr>) ()
       else if err \<noteq> None
       then Returns (n\<lparr>nd_doubleSign := t, nd_chain := (nd_chain n)\<lparr>ch_disk := d\<rparr>, nd_state := s\<rparr>) ()
       else Blocks (n\<lparr>nd_blockMu := True, nd_doubleSign := t, nd_state := s,
         nd_chain := (nd_chain n)\<lparr>ch_disk := d, ch_mu := WriteLocked, ch_Height := blk_Height b,
           ch_LastHash := blk_Hash b\<rparr>\<rparr>)) \<and>
    (ValidateBlock cl b \<and> \<not> known n (blk_Hash b) \<and> scheduled L n b \<and> \<not> equivocation n b \<longrightarrow>
       signed_before (n\<lparr>nd_doubleSign := t\<rparr>) b = Some (Hash_Hex (blk_Hash b)))"
proof -
  obtain d w where w: "os_WriteFile (ch_disk (nd_chain n)) (block_file (blk_Hash b)) (json_MarshalIndent (block_json b)) = (d, w)"
    by fastforce
  obtain s err where ap: "ApplyBlock L (nd_state n) b = (s, err)" by fastforce
  show ?thesis using assms
  proof (cases rule: handle_new_block_cases [where cl = cl and L = L and b = b])
    case rejected
    then show ?thesis using w ap by (intro exI conjI) auto
  next
    case (slashed t)
    then show ?thesis using w ap by (intro exI [of _ t] exI [of _ d] exI [of _ w] exI [of _ s] exI [of _ err]) simp
  next
    case (ignored t)
    then show ?thesis using w ap by (intro exI [of _ t] exI [of _ d] exI [of _ w] exI [of _ s] exI [of _ err]) simp
  next
    case (failed t d' w' s' e)
    then show ?thesis using w ap by (intro exI [of _ t] exI [of _ d] exI [of _ w] exI [of _ s] exI [of _ err]) simp
  next
    case (wedged t d' w' s')
    then show ?thesis using w ap by (intro exI [of _ t] exI [of _ d] exI [of _ w] exI [of _ s] exI [of _ err]) simp
  qed
qed

text \<open>The demonstration chain holds the genesis block and no other.\<close>

lemma demo_chain_only:
  obtains c where "chain_on_disk c [demo_genesis]" and "healthy (ch_disk c)" and "ch_cfg c = DefaultChainConfig"
    and "NewChain (ch_disk c) (Some DefaultChainConfig) = Inr c"
    and "\<And>h. h \<noteq> blk_Hash demo_genesis \<Longrightarrow> read_block (ch_disk c) h = Inl NotExistError"
proof -
  obtain c where c: "AppendBlock (empty_chain empty_disk) demo_genesis = Returns c None" "chain_on_disk c [demo_genesis]"
      "healthy (ch_disk c)" "NewChain (ch_disk c) (Some DefaultChainConfig) = Inr c"
    by (rule demo_chain_lemma)
  have mu: "ch_mu (empty_chain empty_disk) = Unlocked" by (simp add: empty_chain_def)
  have rd: "read_block (ch_disk c) h = read_block (ch_disk (empty_chain empty_disk)) h" if "h \<noteq> blk_Hash demo_genesis" for h
    by (rule AppendBlock_atomic_lemma [OF mu demo_genesis_wf]) (use c(1) that in auto)
  have cfg: "ch_cfg c = DefaultChainConfig"
    by (rule AppendBlock_atomic_lemma [OF mu demo_genesis_wf]) (use c(1) in \<open>auto simp: empty_chain_def\<close>)
  show thesis
    by (rule that [OF c(2,3) cfg c(4)])
      (simp add: rd, simp add: empty_chain_def read_block_def os_ReadFile_def empty_disk_def)
qed

lemma demo_block_offer:
  assumes "chain_on_disk c [demo_genesis]" and "\<And>h. h \<noteq> blk_Hash demo_genesis \<Longrightarrow> read_block (ch_disk c) h = Inl NotExistError"
  shows "\<not> known (demo_node c) (blk_Hash demo_block)" and "scheduled mem_leveldb (demo_node c) demo_block"
    and "\<not> equivocation (demo_node c) b" and "extends (demo_node c) demo_block"
proof -
  show "\<not> known (demo_node c) (blk_Hash demo_block)"
    using assms(2) demo_block_hash(2) by (simp add: known_def demo_node_def stored_block_def)
  show "scheduled mem_leveldb (demo_node c) demo_block" by (simp add: scheduled_def demo_no_set)
  show "\<not> equivocation (demo_node c) b" by (simp add: equivocation_def signed_before_def demo_node_def)
  have "tip_block c = Inr (Some demo_genesis)" using chain_tip(1) [OF assms(1)] by simp
  then show "extends (demo_node c) demo_block"
    by (simp add: extends_def node_tip_def demo_node_def) (simp add: demo_block_def produced_def)
qed

theorem new_block_outcome_witness:
  "\<exists>c n'. chain_on_disk c [demo_genesis] \<and> handle_new_block demo_crypto mem_leveldb demo_block (demo_node c) = Blocks n' \<and>
     handle_new_block demo_crypto mem_leveldb demo_genesis (demo_node c) = Returns (demo_node c) ()"
proof -
  obtain c where c: "chain_on_disk c [demo_genesis]" "\<And>h. h \<noteq> blk_Hash demo_genesis \<Longrightarrow> read_block (ch_disk c) h = Inl NotExistError"
    by (rule demo_chain_only) blast
  obtain s where s: "ApplyBlock mem_leveldb (nd_state (demo_node c)) demo_block = (s, None)"
    using ApplyBlock_ok [OF mem_writes_ok] by blast
  have "linked (ch_disk c) 0 zero_hash [demo_genesis]" using c(1) unfolding chain_on_disk_def by blast
  from linked_read [OF this, of demo_genesis]
  have "read_block (ch_disk c) (blk_Hash demo_genesis) = Inr demo_genesis" by (simp only: list.set_intros)
  then have k: "known (demo_node c) (blk_Hash demo_genesis)" by (simp add: known_def demo_node_def stored_block_def)
  have "\<exists>n'. handle_new_block demo_crypto mem_leveldb demo_block (demo_node c) = Blocks n'"
    using new_block_outcome [OF demo_node_free [OF c(1)], of demo_block mem_leveldb demo_crypto] s
      demo_block_offer [OF c] demo_block_valid by (elim exE conjE) simp
  moreover have "handle_new_block demo_crypto mem_leveldb demo_genesis (demo_node c) = Returns (demo_node c) ()"
    using new_block_outcome [OF demo_node_free [OF c(1)], of demo_genesis mem_leveldb demo_crypto] k
    by (elim exE conjE) simp
  ultimately show ?thesis using c(1) by blast
qed

text \<open>C14: accepting a block of a peer is the last thing a node does. The handler of a valid new block that the
  ledger accepts never returns, and whatever happens to the process afterwards (connections, messages,
  ticks of the producer, requests), until somebody kills it, it keeps running without crashing, its chain
  and its ledger stay as they are, and the producer, the handlers of blocks and of block requests, the
  accept loop and the status page wait for ever.\<close>

theorem accepted_block_freezes:
  fixes L :: "'db leveldb"
  assumes "node_free n" and "ValidateBlock cl b" and "\<not> known n (blk_Hash b)" and "scheduled L n b"
    and "\<not> equivocation n b" and "extends n b" and "ApplyBlock L (nd_state n) b = (s, None)"
  shows "\<exists>n'. handle_new_block cl L b n = Blocks n' \<and> ch_LastHash (nd_chain n') = blk_Hash b \<and>
    (\<forall>es p. run (life cl L) (Running env n') es p \<and> list_all (\<lambda>e. e \<noteq> Kill) es \<longrightarrow>
      (\<exists>env' m. p = Running env' m \<and> nd_chain m = nd_chain n' \<and> nd_state m = s \<and>
        produce cl L env' now seed m = Blocks m \<and> handle_new_block cl L b' m = Blocks m \<and>
        handle_blocks cl L env' k (x # xs) m = Blocks m \<and> handle_get_blocks k req m = Blocks m \<and>
        acceptLoop env' k remote m = Blocks m \<and> http_status m = Blocks m))"
  using assms(1)
proof (cases rule: handle_new_block_cases [where cl = cl and L = L and b = b])
  case (wedged t d w s')
  let ?c = "(nd_chain n)\<lparr>ch_disk := d, ch_mu := WriteLocked, ch_Height := blk_Height b, ch_LastHash := blk_Hash b\<rparr>"
  let ?n = "n\<lparr>nd_blockMu := True, nd_doubleSign := t, nd_state := s', nd_chain := ?c\<rparr>"
  have "s' = s" using wedged(8) assms(7) by simp
  have "process_frozen ?c s' p" if "run (life cl L) (Running env ?n) es p" "list_all (\<lambda>e. e \<noteq> Kill) es" for es p
    using that by (rule frozen_process.run_keeps) (simp add: process_frozen_def frozen_def)
  then have fr: "\<exists>env' m. p = Running env' m \<and> frozen ?c s m"
    if "run (life cl L) (Running env ?n) es p \<and> list_all (\<lambda>e. e \<noteq> Kill) es" for es p
    using that \<open>s' = s\<close> unfolding process_frozen_def by blast
  have "\<exists>env' m. p = Running env' m \<and> nd_chain m = nd_chain ?n \<and> nd_state m = s \<and>
        produce cl L env' now seed m = Blocks m \<and> handle_new_block cl L b' m = Blocks m \<and>
        handle_blocks cl L env' k (x # xs) m = Blocks m \<and> handle_get_blocks k req m = Blocks m \<and>
        acceptLoop env' k remote m = Blocks m \<and> http_status m = Blocks m"
    if r: "run (life cl L) (Running env ?n) es p \<and> list_all (\<lambda>e. e \<noteq> Kill) es" for es p
  proof -
    obtain env' m where m: "p = Running env' m" "frozen ?c s m" using fr [OF r] by blast
    show ?thesis
      using m(1) frozen_handlers [OF m(2)] m(2) by (intro exI [of _ env'] exI [of _ m]) (simp add: frozen_def)
  qed
  then show ?thesis using wedged(9) by (intro exI [of _ ?n]) simp
qed (use assms in simp_all)

theorem accepted_block_freezes_witness:
  "\<exists>c n' m. chain_on_disk c [demo_genesis] \<and> handle_new_block demo_crypto mem_leveldb demo_block (demo_node c) = Blocks n' \<and>
     run (life demo_crypto mem_leveldb) (Running demo_env n') [Event (EvTick 2 0)] (Running demo_env m) \<and> http_status m = Blocks m"
proof -
  obtain c where c: "chain_on_disk c [demo_genesis]" "\<And>h. h \<noteq> blk_Hash demo_genesis \<Longrightarrow> read_block (ch_disk c) h = Inl NotExistError"
    by (rule demo_chain_only) blast
  obtain s where s: "ApplyBlock mem_leveldb (nd_state (demo_node c)) demo_block = (s, None)"
    using ApplyBlock_ok [OF mem_writes_ok] by blast
  obtain n' where n': "handle_new_block demo_crypto mem_leveldb demo_block (demo_node c) = Blocks n'"
      "\<And>es p. run (life demo_crypto mem_leveldb) (Running demo_env n') es p \<and> list_all (\<lambda>e. e \<noteq> Kill) es \<Longrightarrow>
        \<exists>env' m. p = Running env' m \<and> produce demo_crypto mem_leveldb env' 2 0 m = Blocks m \<and> http_status m = Blocks m"
    using accepted_block_freezes [OF demo_node_free [OF c(1)] demo_block_valid demo_block_offer(1-2) [OF c]
        demo_block_offer(3) [OF c] demo_block_offer(4) [OF c] s, where env = demo_env and now = 2 and seed = 0 and b' = demo_block
        and k = 0 and x = None and xs = "[]" and req = zero_get_blocks and remote = "[]"] by meson
  have here: "produce demo_crypto mem_leveldb demo_env 2 0 n' = Blocks n'" "http_status n' = Blocks n'"
    using n'(2) [of "[]" "Running demo_env n'"] by (simp_all add: run_Nil)
  have "run (life demo_crypto mem_leveldb) (Running demo_env n') [Event (EvTick 2 0)] (Running demo_env n')"
    by (rule run_Cons, rule life.waits, simp add: here, rule run_Nil)
  then show ?thesis using c(1) n'(1) here(2) by blast
qed

text \<open>A block file does not change what \<^verbatim>\<open>NewChain\<close> reads.\<close>

lemma NewChain_block_file:
  assumes "NewChain d cfg = Inr c" and "p \<noteq> ''chain.json''" and "d' = d\<lparr>dk_files := AList.update p t (dk_files d)\<rparr>"
  shows "NewChain d' cfg = Inr (c\<lparr>ch_disk := d'\<rparr>)"
  using assms(1,2) unfolding assms(3)
  by (auto simp: NewChain_def os_MkdirAll_def Let_def split: if_splits read_result.splits option.splits)

text \<open>C15: restarting does not repair such a node. The directory then holds the old tip, while the
  ledger holds the accounts with the block applied; the block is on disk, so the restarted node drops it
  when a peer sends it again.\<close>

theorem restart_after_freeze:
  fixes L :: "'db leveldb"
  assumes "node_free n" and "healthy (ch_disk (nd_chain n))" and "NewChain (ch_disk (nd_chain n)) (Some cfg) = Inr (nd_chain n)"
    and "wf_block b" and "ValidateBlock cl b" and "\<not> known n (blk_Hash b)" and "scheduled L n b"
    and "\<not> equivocation n b" and "extends n b" and "ApplyBlock L (nd_state n) b = (s, None)" and "leveldb_ok L"
  shows "\<exists>n' c. handle_new_block cl L b n = Blocks n' \<and> NewChain (ch_disk (nd_chain n')) (Some cfg) = Inr c \<and>
    ch_LastHash c = ch_LastHash (nd_chain n) \<and> ch_Height c = ch_Height (nd_chain n) \<and>
    balance_of L (st_db (nd_state n')) = spec_block (balance_of L (st_db (nd_state n))) b \<and>
    (\<forall>m. nd_chain m = c \<and> nd_state m = nd_state n' \<and> node_free m \<longrightarrow> handle_new_block cl L b m = Returns m ())"
  using assms(1)
proof (cases rule: handle_new_block_cases [where cl = cl and L = L and b = b])
  case (wedged t d w s')
  have d: "d = (ch_disk (nd_chain n))\<lparr>dk_files := AList.update (block_file (blk_Hash b)) (json_MarshalIndent (block_json b))
      (dk_files (ch_disk (nd_chain n)))\<rparr>"
    using wedged(7) os_WriteFile_healthy [OF assms(2)] by simp
  let ?c = "(nd_chain n)\<lparr>ch_disk := d\<rparr>"
  have new: "NewChain d (Some cfg) = Inr ?c"
    by (rule NewChain_block_file [OF assms(3) _ d]) simp
  have "read_block d (blk_Hash b) = Inr b" unfolding d using read_block_update [OF assms(2,4)] by simp
  then have again: "handle_new_block cl L b m = Returns m ()" if "nd_chain m = ?c" and "node_free m" for m
    using that by (intro handle_new_block_rejected) (auto simp: known_def stored_block_def)
  obtain db' where "applyBlockLocked L (st_db (nd_state n)) b = (db', None)" and "st_db s = db'"
    using assms(10) by (auto simp: ApplyBlock_locked split: prod.splits)
  then have "balance_of L (st_db s') = spec_block (balance_of L (st_db (nd_state n))) b"
    using applyBlockLocked_accounts [OF assms(11)] wedged(8) assms(10) by auto
  then show ?thesis using wedged(9) new again by (intro exI [of _ ?c] exI conjI) auto
qed (use assms in simp_all)

theorem restart_after_freeze_witness:
  "\<exists>c n' c'. handle_new_block demo_crypto mem_leveldb demo_block (demo_node c) = Blocks n' \<and>
     NewChain (ch_disk (nd_chain n')) (Some DefaultChainConfig) = Inr c' \<and> ch_LastHash c' = blk_Hash demo_genesis"
proof -
  obtain c where c: "chain_on_disk c [demo_genesis]" "\<And>h. h \<noteq> blk_Hash demo_genesis \<Longrightarrow> read_block (ch_disk c) h = Inl NotExistError"
      and d: "healthy (ch_disk c)" "NewChain (ch_disk c) (Some DefaultChainConfig) = Inr c"
    by (rule demo_chain_only) blast
  obtain s where s: "ApplyBlock mem_leveldb (nd_state (demo_node c)) demo_block = (s, None)"
    using ApplyBlock_ok [OF mem_writes_ok] by blast
  have nd: "nd_chain (demo_node c) = c" by (simp add: demo_node_def)
  have "ch_LastHash c = blk_Hash demo_genesis" using chain_tip(3) [OF c(1)] by simp
  then show ?thesis
    using restart_after_freeze [OF demo_node_free [OF c(1)] _ _ demo_block_wf demo_block_valid demo_block_offer(1,2) [OF c]
        demo_block_offer(3,4) [OF c] s mem_leveldb_ok, unfolded nd, OF d] by metis
qed

section \<open>Every event\<close>

text \<open>C6: in every life of a node that begins with a directory and a database (whatever they hold) and consists
  of starts, connections, messages, requests, ticks, crashes and kills in any order, with any failing
  database, disk or network, whenever the node runs its pool does not exceed its limit and holds only
  correctly signed, sufficiently paying transactions with pairwise different hashes, and its peer set does
  not exceed its limit and lists no address twice.\<close>

theorem node_invariant:
  assumes "run (life cl L) (Down d db) es (Running env m)"
  shows "int (length (mp_txs (nd_pool m))) \<le> mp_max (nd_pool m) \<and> distinct (map (TxHash cl) (mp_txs (nd_pool m))) \<and>
    list_all (\<lambda>t. VerifySignature cl t \<and> SatisfiesMinFee t \<and> wf_tx t) (mp_txs (nd_pool m)) \<and>
    int (PeerCount (nd_peers m)) \<le> max 0 (ps_maxPeers (nd_peers m)) \<and> distinct (map fst (ps_peers (nd_peers m)))"
proof -
  have "process_ok cl (Running env m)"
    by (rule process.run_keeps [OF assms]) (simp_all add: process_ok_def list_all_iff)
  then show ?thesis by (auto simp: process_ok_def node_ok_def mempool_ok_def peers_ok_def PeerCount_def list_all_iff)
qed

lemma demo_initialised: obtains d db c where "initialised demo_crypto mem_leveldb demo_key d db c"
proof -
  have nz: "\<not> Hash_IsZero (blk_Hash (GenesisBlock demo_crypto (PubkeyToAddress demo_crypto (Some (PublicKey demo_key)))))"
    using demo_genesis_hash by (simp add: demo_genesis_def demo_key_address)
  have "0 < key_D demo_key" by (simp add: demo_key_def)
  then show thesis
    using runInit_initialises [OF healthy_empty empty_disk_chain demo_GenerateKey [of 0] _ demo_digest_size mem_leveldb_ok
        mem_writes_ok mem_empty nz] that by metis
qed

theorem node_invariant_witness:
  "\<exists>d db env m. run (life demo_crypto mem_leveldb) (Down d db) [Start True quiet_net '':3030'' []] (Running env m) \<and>
     int (length (mp_txs (nd_pool m))) \<le> mp_max (nd_pool m)"
proof -
  obtain d db c where i: "initialised demo_crypto mem_leveldb demo_key d db c" by (rule demo_initialised)
  have "peers_ok (fst (ConnectToSeeds (NewPeerSet 50 [] '':3030'') quiet_net))"
    by (simp add: ConnectToSeeds_def peers_ok_connect_seeds peers_ok_New)
  then obtain env m where s: "runNodeLoop demo_crypto mem_leveldb True quiet_net (Some db) d '':3030'' [] = Some (Returns (c, Some db) (Inr (env, m)))"
    using runNodeLoop_starts [OF i] by metis
  have r: "run (life demo_crypto mem_leveldb) (Down d db) [Start True quiet_net '':3030'' []] (Running env m)"
    by (rule run_Cons [where step = "life demo_crypto mem_leveldb", OF life.started [OF s] run_Nil])
  then show ?thesis using node_invariant [OF r] by blast
qed

section \<open>Double signing\<close>

text \<open>C22: two headers for one height that name the scheduled validator and have different hashes remove this
  validator from the set, although neither extends the chain and no signature of the validator is
  looked at: the hypotheses say nothing about the signatures of the two blocks.\<close>

theorem unsigned_double_sign_slashes:
  fixes L :: "'db leveldb"
  assumes "node_free n" and "leveldb_ok L"
    and "ValidateBlock cl b1" and "\<not> known n (blk_Hash b1)" and "scheduled L n b1" and "\<not> extends n b1" and "signed_before n b1 = None"
    and "ValidateBlock cl b2" and "\<not> known n (blk_Hash b2)" and "blk_Height b2 = blk_Height b1"
    and "blk_ValidatorAddress b2 = blk_ValidatorAddress b1" and "blk_Hash b2 \<noteq> blk_Hash b1"
    and "length (blk_ValidatorAddress b1) = AddressSize" and "SlashValidator L (nd_state n) (blk_ValidatorAddress b1) = (s, None)"
  shows "\<exists>n1 n2. handle_new_block cl L b1 n = Returns n1 () \<and> handle_new_block cl L b2 n1 = Returns n2 () \<and>
    nd_chain n2 = nd_chain n \<and> balance_of L (st_db (nd_state n2)) = balance_of L (st_db (nd_state n)) \<and>
    fst (GetValidatorSet L (nd_state n2)) =
      filter (\<lambda>v. val_Address v \<noteq> blk_ValidatorAddress b1) (fst (GetValidatorSet L (nd_state n)))"
proof -
  have "\<not> equivocation n b1" using assms(7) by (simp add: equivocation_def)
  then obtain t where h1: "handle_new_block cl L b1 n = Returns (n\<lparr>nd_doubleSign := t\<rparr>) ()"
      and sb: "signed_before (n\<lparr>nd_doubleSign := t\<rparr>) b1 = Some (Hash_Hex (blk_Hash b1))"
    using assms(3-6) by (cases rule: handle_new_block_cases [OF assms(1), where cl = cl and L = L and b = b1]) blast+
  let ?n1 = "n\<lparr>nd_doubleSign := t\<rparr>"
  have free: "node_free ?n1" using assms(1) by (simp add: node_free_def)
  have eq: "equivocation ?n1 b2"
    using sb assms(10-12) by (simp add: equivocation_def signed_before_def Hash_Hex_def hex.enc_inject)
  have "scheduled L ?n1 b2" using assms(5,10,11) by (auto simp: scheduled_def VerifyBlockValidator_def split: option.splits)
  moreover have "\<not> known ?n1 (blk_Hash b2)" using assms(9) by simp
  ultimately obtain t2 where "handle_new_block cl L b2 ?n1 =
      Returns (?n1\<lparr>nd_doubleSign := t2, nd_state := fst (SlashValidator L (nd_state ?n1) (blk_ValidatorAddress b2))\<rparr>) ()"
    using eq assms(8) by (cases rule: handle_new_block_cases [OF free, where cl = cl and L = L and b = b2]) blast+
  then show ?thesis
    using h1 assms(11,14) SlashValidator_set [OF assms(2,14,13)] SlashValidator_accounts(1) [OF assms(2,14)]
    by (intro exI [of _ ?n1] exI [of _ "?n1\<lparr>nd_doubleSign := t2, nd_state := s\<rparr>"]) simp
qed

definition forged :: "Transaction list \<Rightarrow> Block" where
  "forged txs = NewBlock demo_crypto 1 2 zero_hash alice txs"

lemma forged_hashes: "blk_Hash (forged [demo_tx 5]) \<noteq> blk_Hash (forged [])"
proof -
  have "blk_Hash (forged txs) = BlockHash demo_crypto (forged txs)" "blk_Transactions (forged txs) = txs" for txs
    by (simp_all add: forged_def NewBlock_def SetHash_def Let_def)
  then have "blk_Hash (forged txs) ! 2 = (if txs = [] then 91 else 93)" for txs using demo_BlockHash(2) [of "forged txs"] by simp
  from this [of "[]"] this [of "[demo_tx 5]"] show ?thesis by auto
qed

theorem unsigned_double_sign_slashes_witness:
  "\<exists>n n1 n2. handle_new_block demo_crypto mem_leveldb (forged []) n = Returns n1 () \<and>
     handle_new_block demo_crypto mem_leveldb (forged [demo_tx 5]) n1 = Returns n2 () \<and> blk_Signature (forged []) = [] \<and>
     map val_Address (fst (GetValidatorSet mem_leveldb (nd_state n))) = [alice, bob] \<and>
     map val_Address (fst (GetValidatorSet mem_leveldb (nd_state n2))) = [bob]"
proof -
  obtain s1 where s1: "GetValidatorSet mem_leveldb s1 = ([\<lparr>val_Address = alice, val_Stake = MinStake\<rparr>,
      \<lparr>val_Address = bob, val_Stake = MinStake + 1\<rparr>], None)"
    "\<exists>xs. ldb_Get mem_leveldb (st_db s1) keyValidatorList = Found (stored_list xs)"
    using two_validators_state by metis
  let ?n = "(demo_node (empty_chain empty_disk))\<lparr>nd_state := s1\<rparr>"
  obtain s' where sl: "SlashValidator mem_leveldb s1 alice = (s', None)"
    using SlashValidator_listed_ok [OF mem_writes_ok] s1(2) by blast
  have free: "node_free ?n" by (simp add: node_free_def demo_node_def empty_chain_def)
  have unknown: "\<not> known ?n h" for h
    by (simp add: known_def demo_node_def empty_chain_def stored_block_def read_block_def os_ReadFile_def empty_disk_def)
  have f: "blk_ValidatorAddress (forged txs) = alice" "blk_Height (forged txs) = 2" "ValidateBlock demo_crypto (forged txs)" for txs
    by (simp_all add: forged_def ValidateBlock_New)
  have "(2 :: nat) mod Suc (Suc 0) = 0" by (simp add: numeral_2_eq_2)
  then have sch: "scheduled mem_leveldb ?n (forged [])"
    using s1(1) f by (simp add: scheduled_def getValidatorSet_def VerifyBlockValidator_def ValidatorForHeight_def NewSetFromValidators_def)
  have ext: "\<not> extends ?n (forged [])" by (simp add: extends_def node_tip_def demo_node_def tip_block_def empty_chain_def)
  have sb: "signed_before ?n (forged []) = None" by (simp add: signed_before_def demo_node_def)
  have sl': "SlashValidator mem_leveldb (nd_state ?n) (blk_ValidatorAddress (forged [])) = (s', None)" using sl f by simp
  obtain n1 n2 where n2: "handle_new_block demo_crypto mem_leveldb (forged []) ?n = Returns n1 ()"
      "handle_new_block demo_crypto mem_leveldb (forged [demo_tx 5]) n1 = Returns n2 ()"
      "fst (GetValidatorSet mem_leveldb (nd_state n2)) =
        filter (\<lambda>v. val_Address v \<noteq> alice) (fst (GetValidatorSet mem_leveldb (nd_state ?n)))"
    using unsigned_double_sign_slashes [OF free mem_leveldb_ok f(3) unknown sch ext sb f(3) unknown _ _ forged_hashes _ sl']
      f by (simp only: account_lengths) blast
  have sig: "blk_Signature (forged []) = []" by (simp add: forged_def NewBlock_def SetHash_def zero_block_def Let_def)
  have "map val_Address (fst (GetValidatorSet mem_leveldb (nd_state ?n))) = [alice, bob]" using s1(1) by simp
  moreover have "map val_Address (fst (GetValidatorSet mem_leveldb (nd_state n2))) = [bob]"
    unfolding n2(3) using s1(1) accounts_distinct by auto
  ultimately show ?thesis using n2(1,2) sig by metis
qed

section \<open>Longer chains\<close>

text \<open>C33: a peer replaces the whole ledger with a chain of its own making. A batch of blocks that starts at height
  0 without predecessor, whose later blocks name their predecessors and have correct hashes, and whose last
  block states a greater height than the tip, is stored, and the accounts become those of replaying it from the
  genesis allocation. Nothing is assumed of the producers, of any signature, of the heights in between, or
  of the first block. The handler then waits for ever, as after every accepted block.\<close>

theorem longer_chain_replaces_ledger:
  fixes L :: "'db leveldb"
  assumes "node_free n" and "node_tip n = Some l" and "bs \<noteq> []" and "blk_Height (hd bs) = 0"
    and "Hash_IsZero (blk_PreviousHash (hd bs))" and "blk_PreviousHash (hd bs) \<noteq> blk_Hash l"
    and "successively (\<lambda>a b. blk_PreviousHash b = blk_Hash a \<and> ValidateBlock cl b) bs" and "blk_Height l < blk_Height (last bs)"
    and "leveldb_ok L" and "writes_ok L" and "healthy (ch_disk (nd_chain n))" and "list_all wf_block bs" and "inj_on blk_Hash (set bs)"
  shows "\<exists>n'. handle_blocks cl L env k (map Some bs) n = Blocks n' \<and> ch_LastHash (nd_chain n') = blk_Hash (last bs) \<and>
    list_all (\<lambda>b. stored_block (ch_disk (nd_chain n')) (blk_Hash b) = Some b) bs \<and>
    (balance_of L (st_db (nd_state n')), nonce_of L (st_db (nd_state n'))) =
      spec_replay (genesis_balances (env_allocation env), \<lambda>_. 0) bs"
proof -
  obtain s where s: "ResetAndReplay L (nd_state n) (env_allocation env) (env_validators env) bs = (s, None)"
    using ResetAndReplay_ok [OF assms(10)] by blast
  have "stored_block (fold store_block bs (ch_disk (nd_chain n))) (blk_Hash b) = Some b" if "b \<in> set bs" for b
    by (rule disk_store.get_put_member [OF assms(11,12) that assms(13)])
  then show ?thesis
    using reorg_outcome [OF assms(1-8) s, of k] ResetAndReplay_ledger(1) [OF assms(9) s] by (simp add: list_all_iff)
qed

text \<open>A chain with a genesis block and a second block of nobody's turn.\<close>

definition foreign_chain :: "Block list" where
  "foreign_chain = (let g = GenesisBlock demo_crypto alice in [g, NewBlock demo_crypto 1 5 (blk_Hash g) bob [demo_tx 5]])"

theorem longer_chain_replaces_ledger_witness:
  "\<exists>c n'. chain_on_disk c [demo_genesis] \<and> handle_blocks demo_crypto mem_leveldb demo_env 0 (map Some foreign_chain) (demo_node c) = Blocks n' \<and>
     ch_LastHash (nd_chain n') = blk_Hash (last foreign_chain) \<and> balance_of mem_leveldb (st_db (nd_state n')) demo_sender = 0"
proof -
  obtain c where c: "chain_on_disk c [demo_genesis]" "healthy (ch_disk c)" using demo_chain_lemma by metis
  let ?g = "GenesisBlock demo_crypto alice" and ?n = "demo_node c"
  let ?b = "NewBlock demo_crypto 1 5 (blk_Hash ?g) bob [demo_tx 5]"
  have fc: "foreign_chain = [?g, ?b]" by (simp add: foreign_chain_def Let_def)
  have g: "blk_Height ?g = 0" "blk_PreviousHash ?g = zero_hash" "blk_Transactions ?g = []" "blk_Hash ?g = BlockHash demo_crypto ?g"
    by (simp_all add: GenesisBlock_def SetHash_def)
  have "blk_Hash ?b = BlockHash demo_crypto ?b" by (simp add: NewBlock_def SetHash_def Let_def)
  then have ne: "blk_Hash ?g \<noteq> blk_Hash ?b" using demo_BlockHash(2) [of ?g] demo_BlockHash(2) [of ?b] g(3,4) by auto
  have wfg: "wf_block ?g" by (rule wf_GenesisBlock [OF demo_digest_size]) (simp add: alice_def)
  have wfb: "wf_block ?b"
    using wfg by (intro wf_NewBlock demo_digest_size) (simp_all add: wf_block_def bob_def wf_demo_tx)
  have tip: "node_tip ?n = Some demo_genesis" using chain_tip(1) [OF c(1)] by (simp add: node_tip_def demo_node_def)
  have z: "zero_hash \<noteq> blk_Hash demo_genesis" using demo_genesis_hash by auto
  have links: "successively (\<lambda>a b. blk_PreviousHash b = blk_Hash a \<and> ValidateBlock demo_crypto b) [?g, ?b]"
    by (simp add: ValidateBlock_New)
  obtain n' where n': "handle_blocks demo_crypto mem_leveldb demo_env 0 (map Some [?g, ?b]) ?n = Blocks n'"
      "ch_LastHash (nd_chain n') = blk_Hash (last [?g, ?b])"
      "(balance_of mem_leveldb (st_db (nd_state n')), nonce_of mem_leveldb (st_db (nd_state n'))) =
        spec_replay (genesis_balances (env_allocation demo_env), \<lambda>_. 0) [?g, ?b]"
    using longer_chain_replaces_ledger [OF demo_node_free [OF c(1)] tip _ _ _ _ links, of mem_leveldb demo_env 0]
      g(1,2) z demo_genesis_fields(1) mem_leveldb_ok mem_writes_ok c(2) wfg wfb ne by (auto simp: demo_node_def)
  have "genesis_balances (env_allocation demo_env) = (\<lambda>_. 0)" by (simp add: demo_env_def genesis_balances_def decoded_def fun_eq_iff)
  moreover have "demo_sender \<noteq> bob" "demo_sender \<noteq> blk_ValidatorAddress ?g"
    by code_simp (simp add: GenesisBlock_def SetHash_def, code_simp)
  ultimately have "balance_of mem_leveldb (st_db (nd_state n')) demo_sender = 0"
    using n'(3) by (simp add: g(3) spec_block_def spec_tx_def funded_def demo_tx_def pay_def fees_def Let_def)
  then show ?thesis using c(1) n'(1,2) fc by auto
qed

section \<open>Messages\<close>

text \<open>C35: what a producer broadcasts is what its peers handle: the bytes sent for a list of new blocks,
  read from the connection, run the handler of a new block on exactly these blocks in their order, until
  one of the handlers does not return.\<close>

theorem gossip_delivers_blocks:
  assumes "list_all wf_block bs"
  shows "message_loop cl L env k
      (read_messages (concat (map (\<lambda>b. Send_text KindNewBlock (Some (block_json b))) bs))) n =
    fold (\<lambda>b r. and_then r (\<lambda>n _. handle_new_block cl L b n)) bs (Returns n ())"
proof -
  let ?ms = "map (\<lambda>b. (KindNewBlock, Some (block_json b))) bs"
  have "list_all (\<lambda>(k, p). wf_payload p) ?ms" using assms by (auto simp: list_all_iff wf_payload_def)
  from read_messages_Send [OF this]
  have rd: "read_messages (concat (map (\<lambda>b. Send_text KindNewBlock (Some (block_json b))) bs)) = ?ms"
    by (simp add: comp_def)
  have one: "handle_message cl L env k KindNewBlock (Some (block_json b)) n = handle_new_block cl L b n" if "wf_block b" for b n
    using that by (simp add: handle_message_def kind_defs unmarshal_def dec_block_json)
  have stuck: "fold (\<lambda>b r. and_then r (\<lambda>n _. handle_new_block cl L b n)) cs r = r" if "\<not> returns r" for cs r
    using that by (induction cs) (cases r; simp)+
  have "message_loop cl L env k (map (\<lambda>b. (KindNewBlock, Some (block_json b))) cs) n =
      fold (\<lambda>b r. and_then r (\<lambda>n _. handle_new_block cl L b n)) cs (Returns n ())" if "list_all wf_block cs" for cs n
    using that
  proof (induction cs arbitrary: n)
    case (Cons b cs)
    then show ?case
      by (cases "handle_new_block cl L b n") (simp_all add: one stuck)
  qed simp
  then show ?thesis using assms rd by simp
qed

theorem gossip_delivers_blocks_witness:
  "message_loop demo_crypto mem_leveldb demo_env 0
     (read_messages (Send_text KindNewBlock (Some (block_json demo_genesis)))) (demo_node (empty_chain empty_disk)) =
   handle_new_block demo_crypto mem_leveldb demo_genesis (demo_node (empty_chain empty_disk))"
  using gossip_delivers_blocks [of "[demo_genesis]" demo_crypto mem_leveldb demo_env 0 "demo_node (empty_chain empty_disk)"] demo_genesis_wf by simp

text \<open>C39: one message ends the process of a node: a peer that connects and sends a batch of blocks whose first
  element is \<^verbatim>\<open>null\<close> makes the handler panic, whatever it sends after it.\<close>

theorem null_block_panics:
  assumes "node_free n" and "list_all wf_block_ptr bs" and "int (PeerCount (nd_peers n)) < ps_maxPeers (nd_peers n)"
    and "\<not> map_has (ps_peers (nd_peers n)) remote"
  shows "\<exists>d db. life cl L (Running env n) (Event (EvConn k remote
    (Send_text KindBlocks (Some (blocks_json \<lparr>bp_Blocks = None # bs\<rparr>)) @ rest))) (Down d db)"
proof -
  have "wf_payload (Some (blocks_json \<lparr>bp_Blocks = None # bs\<rparr>))" by (simp add: wf_payload_def)
  from ReadMessage_Send [OF this, of KindBlocks rest]
  have ms: "read_messages (Send_text KindBlocks (Some (blocks_json \<lparr>bp_Blocks = None # bs\<rparr>)) @ rest) =
      (KindBlocks, Some (blocks_json \<lparr>bp_Blocks = None # bs\<rparr>)) # read_messages rest"
    by (subst read_messages.simps) simp
  obtain p where add: "AddPeer (nd_peers n) (nd_net n) k remote False = (p, nd_net n, True)"
    using assms(3,4) by (simp add: AddPeer_def addPeer_def PeerCount_def)
  define n1 where "n1 = n\<lparr>nd_peers := p, nd_net := nd_net n\<rparr>"
  have free: "node_free n1" using assms(1) by (simp add: node_free_def n1_def)
  have "dec_blocks (blocks_json \<lparr>bp_Blocks = None # bs\<rparr>) zero_blocks = Some \<lparr>bp_Blocks = None # bs\<rparr>"
    using assms(2) by (intro dec_blocks_json) (simp add: wf_block_ptr_def)
  moreover have "node_LastBlock (n1\<lparr>nd_blockMu := True\<rparr>) = Returns (n1\<lparr>nd_blockMu := True\<rparr>) (node_tip n1)"
    using free by (simp add: node_LastBlock_free node_free_def)
  ultimately have "message_loop cl L env k (read_messages (Send_text KindBlocks (Some (blocks_json \<lparr>bp_Blocks = None # bs\<rparr>)) @ rest)) n1 =
      Panics (n1\<lparr>nd_blockMu := True\<rparr>)"
    unfolding ms by (simp add: handle_message_def kind_defs unmarshal_def handle_blocks_def lock_free(1) [OF free])
  then have "handle_event cl L env (EvConn k remote
      (Send_text KindBlocks (Some (blocks_json \<lparr>bp_Blocks = None # bs\<rparr>)) @ rest)) n = Panics (n1\<lparr>nd_blockMu := True\<rparr>)"
    by (simp add: onConn_def add Let_def n1_def)
  then show ?thesis by (blast intro: life.panicked)
qed

theorem null_block_panics_witness:
  "\<exists>d db. life demo_crypto mem_leveldb (Running demo_env (demo_node (empty_chain empty_disk))) (Event (EvConn 0 ''a:1''
     (Send_text KindBlocks (Some (blocks_json \<lparr>bp_Blocks = [None]\<rparr>))))) (Down d db)"
  using null_block_panics [OF demo_node_free [OF empty_chain_ok], of "[]" empty_disk "''a:1''" demo_crypto mem_leveldb demo_env 0 "[]"]
  by (simp add: demo_node_def NewPeerSet_def PeerCount_def)

section \<open>Peers\<close>

text \<open>After any sequence of operations on a new peer set (dialing, seeds, incoming connections, removals,
  broadcasts), whatever the network does, it holds at most the configured number of peers, each address
  once and under its own entry, and the configured limit has not changed.\<close>

lemma peer_set_bounded:
  assumes "fold peer_step ops (NewPeerSet maxPeers seeds listenAddr, nt) = (p, nt')"
  shows "int (PeerCount p) \<le> max 0 maxPeers \<and> ps_maxPeers p = maxPeers \<and> distinct (map fst (ps_peers p)) \<and>
    list_all (\<lambda>(addr, pc). pc_addr pc = addr) (ps_peers p)"
proof -
  have "case fold peer_step ops (NewPeerSet maxPeers seeds listenAddr, nt) of (p, nt) \<Rightarrow> ps_maxPeers p = maxPeers"
    by (rule peer_limit.run_inv) (simp add: NewPeerSet_def)
  moreover have "case fold peer_step ops (NewPeerSet maxPeers seeds listenAddr, nt) of (p, nt) \<Rightarrow> peers_ok p"
    by (rule peer_set.run_inv) (simp add: peers_ok_New)
  ultimately show ?thesis using assms by (auto simp: peers_ok_def PeerCount_def list_all_iff)
qed

text \<open>C36: the handler of a connection the node dials itself reads no message. \<^verbatim>\<open>TryConnect\<close>, called with a fresh
  address while there is room, enters the connection in the peer set and starts its handler. Whenever the handler then begins to run, whatever other goroutines have done to
  the node in between, as long as the entry is still in the set the handler closes the connection and returns at
  once, whatever the peer has sent: it reads nothing, sends nothing and changes nothing else, and the entry of the closed
  connection stays. (A broadcast in between may still write to the connection before it is closed.)\<close>

theorem dialed_connection_closed:
  assumes "addr \<noteq> []" and "addr \<noteq> ps_listenAddr (nd_peers n)"
    and "int (length (ps_peers (nd_peers n))) < ps_maxPeers (nd_peers n)"
    and "nt_dial (nd_net n) (nt_next (nd_net n)) addr = Some remote" and "\<not> map_has (ps_peers (nd_peers n)) remote"
  shows "let n1 = node_TryConnect n addr; c = nt_next (nd_net n) in
    (c, remote) \<in> set (nt_started (nd_net n1)) \<and>
    map_of (ps_peers (nd_peers n1)) remote = Some \<lparr>pc_conn = c, pc_addr = remote\<rparr> \<and>
    (\<forall>m. map_has (ps_peers (nd_peers m)) remote \<longrightarrow>
       onConn cl L env c remote inp m = Returns (m\<lparr>nd_net := net_Close (nd_net m) c\<rparr>) ())"
proof -
  let ?c = "nt_next (nd_net n)"
  define n1 where "n1 = node_TryConnect n addr"
  have n1: "nd_peers n1 = (nd_peers n)\<lparr>ps_peers := ps_peers (nd_peers n) @ [(remote, \<lparr>pc_conn = ?c, pc_addr = remote\<rparr>)]\<rparr>"
    "nd_net n1 = net_go ((nd_net n)\<lparr>nt_next := ?c + 1\<rparr>) ?c remote"
    by (simp_all add: n1_def node_TryConnect_def TryConnect_fresh [OF assms])
  have "map_of (ps_peers (nd_peers n1)) remote = Some \<lparr>pc_conn = ?c, pc_addr = remote\<rparr>"
    using assms(5) by (auto simp: n1 map_has_def map_add_def)
  moreover have "(?c, remote) \<in> set (nt_started (nd_net n1))" by (simp add: n1 net_go_def)
  moreover have "onConn cl L env ?c remote inp m = Returns (m\<lparr>nd_net := net_Close (nd_net m) ?c\<rparr>) ()"
    if "map_has (ps_peers (nd_peers m)) remote" for m
  proof -
    have "AddPeer (nd_peers m) (nd_net m) ?c remote False = (nd_peers m, net_Close (nd_net m) ?c, False)"
      using that by (simp add: AddPeer_def addPeer_def)
    then show ?thesis by (simp add: onConn_def Let_def)
  qed
  ultimately show ?thesis unfolding n1_def [symmetric] Let_def by blast
qed

theorem dialed_connection_closed_witness:
  "let n = demo_node (empty_chain empty_disk); n1 = node_TryConnect n ''a:1'' in
     onConn demo_crypto mem_leveldb demo_env 0 ''a:1'' [] n1 = Returns (n1\<lparr>nd_net := net_Close (nd_net n1) 0\<rparr>) ()"
proof -
  let ?n = "demo_node (empty_chain empty_disk)"
  have "nd_peers ?n = NewPeerSet 50 [] '':3030''" "nd_net ?n = quiet_net" by (simp_all add: demo_node_def)
  then have n: "ps_listenAddr (nd_peers ?n) = '':3030''" "ps_peers (nd_peers ?n) = []" "ps_maxPeers (nd_peers ?n) = 50"
      "nt_next (nd_net ?n) = 0" "nt_dial (nd_net ?n) k a = Some a" for k a
    by (simp_all add: NewPeerSet_def quiet_net_def)
  show ?thesis
    using dialed_connection_closed [of "''a:1''" ?n "''a:1''" demo_crypto mem_leveldb demo_env "[]"] n
    unfolding Let_def by (simp add: map_has_def)
qed

section \<open>The validator set of the node\<close>

text \<open>C20: after the genesis of an empty database the validator set of the node is the set \<^verbatim>\<open>consensus.NewSet\<close> builds
  from the genesis file, when no validator is listed twice and the node is configured with the minimum stake of
  \<^verbatim>\<open>config.go\<close>: both keep the entries with a readable address and at least the
  minimum stake, in the order of the file. When the file has no such entry the node has no set at all
  (nil, which accepts every producer), where \<^verbatim>\<open>NewSet\<close> gives an empty one.\<close>

theorem genesis_set_is_NewSet:
  assumes "leveldb_ok L" and "db_empty L (st_db s)" and "ApplyGenesis L s al vs = (nd_state n, None)"
    and "cfg_MinStake (st_cfg s) = MinStake" and "distinct (map fst (parsed (accepted (st_cfg s) vs)))"
  shows "getValidatorSet L n = (if accepted (st_cfg s) vs = [] then None else Some (NewSet vs)) \<and>
    (accepted (st_cfg s) vs = [] \<longrightarrow> Set_List (NewSet vs) = [])"
proof -
  let ?acc = "accepted (st_cfg s) vs"
  have set: "Set_List (NewSet vs) = map (\<lambda>(a, v). \<lparr>sv_Address = a, sv_Stake = v\<rparr>) (parsed ?acc)"
    using assms(4) by (simp add: Set_List_def NewSet_def genesis_list_eq accepted_def)
  show ?thesis
  proof (cases "?acc = []")
    case True
    obtain db where "applyGenesisLocked L (st_cfg s) (st_db s) al vs = (db, None)" and "nd_state n = s\<lparr>st_db := db\<rparr>"
      using assms(3) by (auto simp: ApplyGenesis_locked split: prod.splits)
    then have "ldb_Get L (st_db (nd_state n)) keyValidatorList = NotFound"
      using genesis_on_empty(4) [OF assms(1,2)] True by simp
    then show ?thesis using True set by (simp add: getValidatorSet_def GetValidatorSet_def parsed_def)
  next
    case False
    have "0 < MinStake" by (simp add: MinStake_def)
    then have "GetValidatorSet L (nd_state n) = (map (\<lambda>(a, v). \<lparr>val_Address = a, val_Stake = v\<rparr>) (parsed ?acc), None)"
      using genesis_validator_set [OF assms(1,3) False assms(5)] assms(4) by simp
    then show ?thesis
      using False assms(4) by (auto simp: getValidatorSet_def NewSetFromValidators_def NewSet_def genesis_list_eq accepted_def parsed_def)
  qed
qed

theorem genesis_set_is_NewSet_witness:
  "\<exists>s'. ApplyGenesis mem_leveldb empty_state [] two_validators = (s', None) \<and>
     getValidatorSet mem_leveldb ((demo_node (empty_chain empty_disk))\<lparr>nd_state := s'\<rparr>) = Some (NewSet two_validators)"
proof -
  obtain s' where s': "ApplyGenesis mem_leveldb empty_state [] two_validators = (s', None)"
    using ApplyGenesis_ok [OF mem_writes_ok] by blast
  let ?n = "(demo_node (empty_chain empty_disk))\<lparr>nd_state := s'\<rparr>"
  have n: "ApplyGenesis mem_leveldb empty_state [] two_validators = (nd_state ?n, None)" using s' by simp
  have "cfg_MinStake (st_cfg empty_state) = MinStake" by (simp add: empty_state_def DefaultChainConfig_def)
  moreover have "accepted (st_cfg empty_state) two_validators \<noteq> []"
    "distinct (map fst (parsed (accepted (st_cfg empty_state) two_validators)))"
    using two_validators_accepted two_validators_parsed accounts_distinct by (simp_all add: empty_state_def)
  ultimately show ?thesis using genesis_set_is_NewSet [OF mem_leveldb_ok empty_state_empty n] s' by auto
qed

section \<open>The block explorer\<close>

definition page_limit :: "string \<Rightarrow> nat" where
  "page_limit l = (if l = [] then 20 else case Sscanf_int l of
     None \<Rightarrow> 20 | Some v \<Rightarrow> if 1 \<le> v \<and> v \<le> 100 then nat v else 20)"

text \<open>C32: on a node with a stored chain and no lock held, the page of recent blocks answers with the last
  blocks of the chain, oldest first: as many as the limit of the request (20 when none, or one that is not
  between 1 and 100, is given), or the whole chain when it is shorter. The node does not change.\<close>

theorem explorer_shows_last_blocks:
  assumes "node_free n" and "chain_on_disk (nd_chain n) bs" and "bs \<noteq> []" and "rq_Method rq = ''GET''"
  shows "http_blocks rq n =
    Returns n (ok_json (JArr (map block_json (drop (length bs - page_limit (query_Get rq ''limit'')) bs))))"
proof -
  define k where "k = page_limit (query_Get rq ''limit'')"
  have k: "1 \<le> k" "k \<le> 100" by (auto simp: k_def page_limit_def split: option.split)
  define limit where "limit = (if query_Get rq ''limit'' = [] then 20
      else let v = (case Sscanf_int (query_Get rq ''limit'') of None \<Rightarrow> 20 | Some v \<Rightarrow> v) in if v \<le> 0 \<or> v > 100 then 20 else v)"
  have limit: "limit = int k" by (auto simp: limit_def k_def page_limit_def Let_def split: option.split)
  have len: "length bs < 2 ^ 64" "0 < length bs" using assms(2,3) by (auto simp: chain_on_disk_def)
  have h: "blk_Height (last bs) = of_nat (length bs - 1)"
    using linked_height [of "ch_disk (nd_chain n)" 0 zero_hash bs] assms(2,3) by (simp add: chain_on_disk_def)
  let ?start = "if blk_Height (last bs) \<ge> word_of_int limit then blk_Height (last bs) - word_of_int limit + 1 else 0"
  have start: "?start = of_nat (length bs - k)"
  proof (cases "k \<le> length bs - 1")
    case True
    obtain m where m: "length bs = Suc m" using len(2) by (cases "length bs") auto
    have "(of_nat (length bs - 1) :: u64) - of_nat k + 1 = of_nat (length bs - k)"
      using True unfolding m by (simp add: of_nat_diff)
    moreover have "(of_nat k :: u64) \<le> of_nat (length bs - 1)"
      using True len(1) k(2) by (simp add: word_le_nat_alt unat_of_nat)
    ultimately show ?thesis by (simp add: h limit)
  next
    case False
    then have "\<not> (of_nat k :: u64) \<le> of_nat (length bs - 1)"
      using len(1) k(2) by (simp add: word_le_nat_alt unat_of_nat)
    then show ?thesis using False by (simp add: h limit)
  qed
  have "GetBlocksFrom (nd_chain n) ?start limit = Returns (nd_chain n) (Inr (drop (length bs - k) bs))"
    unfolding start using GetBlocksFrom_chain [OF assms(2), of "length bs - k" limit] len k limit by simp
  moreover have "node_LastBlock n = Returns n (Some (last bs))"
    using chain_tip(1) [OF assms(2,3)] assms(1) by (simp add: node_LastBlock_free node_free_def node_tip_def)
  moreover have "length bs - k < length bs" using len(2) k(1) by linarith
  then have "drop (length bs - k) bs \<noteq> []" by simp
  ultimately show ?thesis
    using assms(4) unfolding k_def [symmetric]
    by (cases "word_of_int limit \<le> blk_Height (last bs)")
      (simp_all add: http_blocks_def limit_def [symmetric] Let_def on_chain_def enc_list_def)
qed

theorem explorer_shows_last_blocks_witness:
  "\<exists>c. chain_on_disk c [demo_genesis] \<and> http_blocks \<lparr>rq_Method = ''GET'', rq_Query = [], rq_Body = []\<rparr> (demo_node c) =
     Returns (demo_node c) (ok_json (JArr [block_json demo_genesis]))"
proof -
  obtain c where c: "chain_on_disk c [demo_genesis]" using demo_chain_lemma by metis
  have "page_limit [] = 20" by (simp add: page_limit_def)
  then show ?thesis
    using explorer_shows_last_blocks [OF demo_node_free [OF c], of "[demo_genesis]" "\<lparr>rq_Method = ''GET'', rq_Query = [], rq_Body = []\<rparr>"] c
    by (auto simp: demo_node_def query_Get_def)
qed

end
