(* ===== verification/Goroutines.thy ===== *)
theory Goroutines
  imports Prelude
begin

text \<open>
  Goroutines that interleave. A goroutine is a tree of atomic steps on the shared state: a step is a
  critical section or another piece of code no other goroutine can observe half done. Run alone it is a
  function with an \<open>outcome\<close>; run beside others its steps alternate with theirs in any order. The
  second part is a rely/guarantee rule for goroutines that share one mutex: what holds whenever
  the mutex is free.
\<close>

section \<open>Threads\<close>

text \<open>A step that has the outcome \<open>Blocks\<close> cannot be taken in that state.\<close>

datatype ('s, 'a) thread = Done 'a | Step "'s \<Rightarrow> ('s, ('s, 'a) thread) outcome"

text \<open>The thread run without interruption.\<close>

primrec exec :: "('s, 'a) thread \<Rightarrow> 's \<Rightarrow> ('s, 'a) outcome" where
  "exec (Done a) = (\<lambda>s. Returns s a)"
| "exec (Step f) = (\<lambda>s. and_then ((map_outcome id exec \<circ> f) s) (\<lambda>s' k. k s'))"

primrec seq :: "('s, 'a) thread \<Rightarrow> ('a \<Rightarrow> ('s, 'b) thread) \<Rightarrow> ('s, 'b) thread" where
  "seq (Done a) = (\<lambda>k. k a)"
| "seq (Step f) = (\<lambda>k. Step (map_outcome id (\<lambda>h. h k) \<circ> (map_outcome id seq \<circ> f)))"

definition atomic :: "('s \<Rightarrow> ('s, 'a) outcome) \<Rightarrow> ('s, 'a) thread" where
  "atomic f = Step (\<lambda>s. map_outcome id Done (f s))"

lemma map_outcome_id [simp]: "map_outcome id id r = r"
  by (simp add: outcome.map_id)

lemma map_outcome_ReturnsE:
  assumes "map_outcome id k r = Returns s t"
  obtains a where "r = Returns s a" and "t = k a"
  using assms by (cases r) auto

lemma seq_Step: "seq (Step f) k = Step (\<lambda>s. map_outcome id (\<lambda>t. seq t k) (f s))"
  by (simp add: comp_def outcome.map_comp id_def)

lemma seq_atomic: "seq (atomic f) k = Step (\<lambda>s. map_outcome id k (f s))"
  by (simp add: atomic_def seq_Step outcome.map_comp comp_def id_def)

declare seq.simps(2) [simp del]

lemma seq_Done_right [simp]: "seq t Done = t"
proof (induction t)
  case (Step f)
  then have "map_outcome id (\<lambda>t. seq t Done) (f s) = f s" for s
    by (intro outcome.map_ident_strong) (auto intro: rangeI)
  then show ?case by (simp add: seq_Step)
qed simp

lemma seq_assoc: "seq (seq t j) k = seq t (\<lambda>a. seq (j a) k)"
proof (induction t)
  case (Step f)
  then show ?case
    by (auto simp: seq_Step outcome.map_comp comp_def fun_eq_iff intro!: outcome.map_cong intro: rangeI)
qed simp

lemma exec_seq: "exec (seq t k) s = and_then (exec t s) (\<lambda>s a. exec (k a) s)"
proof (induction t arbitrary: s)
  case (Step f)
  have IH: "exec (seq t k) s' = and_then (exec t s') (\<lambda>s a. exec (k a) s)" if "f s = Returns s1 t" for s1 t s'
    using Step.IH [of "f s" t] that rangeI [of f s] by simp
  show ?case by (cases "f s") (simp_all add: seq_Step IH)
qed simp

lemma exec_atomic [simp]: "exec (atomic f) s = f s"
  by (cases "f s") (simp_all add: atomic_def)

section \<open>Interleaving\<close>

text \<open>The shared state and the goroutines, or nothing but the state a crash left behind. New goroutines start
  at any time.\<close>

datatype ('s, 'e) schedule = Go 'e | Sched nat

datatype 's system = Alive 's "('s, unit) thread list" | Crashed 's

inductive interleave :: "('e \<Rightarrow> ('s, unit) thread) \<Rightarrow> 's system \<Rightarrow> ('s, 'e) schedule \<Rightarrow> 's system \<Rightarrow> bool" for spawn where
  go: "interleave spawn (Alive s ts) (Go e) (Alive s (ts @ [spawn e]))"
| moves: "i < length ts \<Longrightarrow> ts ! i = Step f \<Longrightarrow> f s = Returns s' t \<Longrightarrow>
    interleave spawn (Alive s ts) (Sched i) (Alive s' (ts[i := t]))"
| crashes: "i < length ts \<Longrightarrow> ts ! i = Step f \<Longrightarrow> f s = Panics s' \<Longrightarrow>
    interleave spawn (Alive s ts) (Sched i) (Crashed s')"

inductive_cases interleave_GoE: "interleave spawn (Alive s ts) (Go e) p"
inductive_cases interleave_SchedE: "interleave spawn (Alive s ts) (Sched i) p"

section \<open>A goroutine stopped half way\<close>

text \<open>The states a thread passes through when it runs alone; a process that is killed stops in one of them.\<close>

inductive reaches :: "('s, 'a) thread \<Rightarrow> 's \<Rightarrow> 's \<Rightarrow> bool" where
  reaches_here: "reaches t s s"
| reaches_step: "f s = Returns s1 t \<Longrightarrow> reaches t s1 s' \<Longrightarrow> reaches (Step f) s s'"

inductive_simps reaches_Done [simp]: "reaches (Done a) s s'"
inductive_simps reaches_Step: "reaches (Step f) s s'"

lemma reaches_seq:
  "reaches (seq t k) s s' \<longleftrightarrow> reaches t s s' \<or> (\<exists>s1 a. exec t s = Returns s1 a \<and> reaches (k a) s1 s')"
proof (induction t arbitrary: s)
  case (Done a)
  then show ?case by (auto intro: reaches_here)
next
  case (Step f)
  have IH: "reaches (seq t k) x s' \<longleftrightarrow> reaches t x s' \<or> (\<exists>s1 a. exec t x = Returns s1 a \<and> reaches (k a) s1 s')"
    if "f s = Returns s1 t" for s1 t x
    using Step.IH [of "f s" t x] that rangeI [of f s] by simp
  show ?case by (cases "f s") (auto simp: seq_Step reaches_Step IH)
qed

lemma reaches_atomic: "reaches (atomic f) s s' \<longleftrightarrow> s' = s \<or> (\<exists>a. f s = Returns s' a)"
  by (cases "f s") (auto simp: atomic_def reaches_Step)

lemma reaches_run:
  assumes "run (interleave spawn) (Alive s [t]) (replicate m (Sched 0)) (Alive s' ts)"
  shows "reaches t s s'"
  using assms
proof (induction m arbitrary: s t)
  case 0
  then show ?case by (auto elim: run_NilE intro: reaches_here)
next
  case (Suc m)
  from Suc.prems obtain p where p: "interleave spawn (Alive s [t]) (Sched 0) p" "run (interleave spawn) p (replicate m (Sched 0)) (Alive s' ts)"
    by (auto elim: run_ConsE)
  from p(1) show ?case
  proof (cases rule: interleave.cases)
    case (moves f s1 t1)
    then show ?thesis using Suc.IH [of s1 t1] p(2) by (auto intro: reaches_step)
  next
    case (crashes f s1)
    have False if "run (interleave spawn) (Crashed s1) ls (Alive s' ts)" for ls
      using that by (cases rule: run.cases) (auto elim: interleave.cases)
    then show ?thesis using crashes p(2) by blast
  qed
qed

lemma run_reaches: "reaches t s s' \<Longrightarrow> \<exists>m ts. run (interleave spawn) (Alive s [t]) (replicate m (Sched 0)) (Alive s' ts)"
proof (induction rule: reaches.induct)
  case (reaches_here t s)
  have "run (interleave spawn) (Alive s [t]) (replicate 0 (Sched 0)) (Alive s [t])" by (simp add: run_Nil)
  then show ?case by blast
next
  case (reaches_step f s s1 t s')
  then obtain m ts where "run (interleave spawn) (Alive s1 [t]) (replicate m (Sched 0)) (Alive s' ts)" by blast
  moreover have "interleave spawn (Alive s [Step f]) (Sched 0) (Alive s1 [t])"
    using moves [of 0 "[Step f]" f s s1 t spawn] reaches_step(1) by simp
  ultimately have "run (interleave spawn) (Alive s [Step f]) (replicate (Suc m) (Sched 0)) (Alive s' ts)"
    by (auto intro: run_Cons)
  then show ?case by blast
qed

section \<open>A rule for goroutines that share a mutex\<close>

text \<open>\<open>R s s'\<close> is what a goroutine that does not hold the mutex may do to the shared state; \<open>J\<close> holds
  whenever the mutex is free; \<open>ok\<close> always holds; \<open>guard\<close> restricts the steps that are looked at.
  \<open>inside s t\<close>: the goroutine holds the mutex, and whatever the others do from \<open>s\<close> on, it
  establishes \<open>J\<close> before it gives the mutex back.\<close>

inductive outside :: "('s \<Rightarrow> bool) \<Rightarrow> ('s \<Rightarrow> 's \<Rightarrow> bool) \<Rightarrow> ('s \<Rightarrow> bool) \<Rightarrow> ('s \<Rightarrow> bool) \<Rightarrow> ('s \<Rightarrow> 's \<Rightarrow> bool) \<Rightarrow> ('s, 'a) thread \<Rightarrow> bool"
  and inside :: "('s \<Rightarrow> bool) \<Rightarrow> ('s \<Rightarrow> 's \<Rightarrow> bool) \<Rightarrow> ('s \<Rightarrow> bool) \<Rightarrow> ('s \<Rightarrow> bool) \<Rightarrow> ('s \<Rightarrow> 's \<Rightarrow> bool) \<Rightarrow> 's \<Rightarrow> ('s, 'a) thread \<Rightarrow> bool"
  for held R ok J guard where
  outside_Done: "outside held R ok J guard (Done a)"
| outside_Step: "(\<And>s s' t. ok s \<Longrightarrow> guard s s' \<Longrightarrow> f s = Returns s' t \<Longrightarrow>
      ok s' \<and> (R s s' \<and> outside held R ok J guard t \<or>
        \<not> held s \<and> held s' \<and> (J s \<longrightarrow> inside held R ok J guard s' t))) \<Longrightarrow>
    outside held R ok J guard (Step f)"
| inside_Step: "(\<And>s s' t. R s0 s \<Longrightarrow> ok s \<Longrightarrow> guard s s' \<Longrightarrow> f s = Returns s' t \<Longrightarrow>
      ok s' \<and> (held s' \<and> inside held R ok J guard s' t \<or> \<not> held s' \<and> J s' \<and> outside held R ok J guard t)) \<Longrightarrow>
    inside held R ok J guard s0 (Step f)"

inductive_cases outside_StepE: "outside held R ok J guard (Step f)"
inductive_cases inside_StepE: "inside held R ok J guard s (Step f)"
inductive_cases inside_DoneE: "inside held R ok J guard s (Done a)"

lemma outside_atomic:
  assumes "\<And>s s' a. ok s \<Longrightarrow> guard s s' \<Longrightarrow> f s = Returns s' a \<Longrightarrow>
      ok s' \<and> (R s s' \<and> outside held R ok J guard (k a) \<or>
        \<not> held s \<and> held s' \<and> (J s \<longrightarrow> inside held R ok J guard s' (k a)))"
  shows "outside held R ok J guard (seq (atomic f) k)"
  unfolding seq_atomic by (rule outside_Step) (use assms in \<open>auto elim!: map_outcome_ReturnsE\<close>)

lemma inside_atomic:
  assumes "\<And>s s' a. R s0 s \<Longrightarrow> ok s \<Longrightarrow> guard s s' \<Longrightarrow> f s = Returns s' a \<Longrightarrow>
      ok s' \<and> (held s' \<and> inside held R ok J guard s' (k a) \<or> \<not> held s' \<and> J s' \<and> outside held R ok J guard (k a))"
  shows "inside held R ok J guard s0 (seq (atomic f) k)"
  unfolding seq_atomic by (rule inside_Step) (use assms in \<open>auto elim!: map_outcome_ReturnsE\<close>)

definition between :: "('s \<Rightarrow> 's \<Rightarrow> bool) \<Rightarrow> 's system \<Rightarrow> 's system \<Rightarrow> bool" where
  "between guard p p' \<longleftrightarrow> (case (p, p') of (Alive s _, Alive s' _) \<Rightarrow> guard s s' | _ \<Rightarrow> True)"

locale mutex_discipline =
  fixes held :: "'s \<Rightarrow> bool" and R :: "'s \<Rightarrow> 's \<Rightarrow> bool" and ok :: "'s \<Rightarrow> bool" and J :: "'s \<Rightarrow> bool"
    and guard :: "'s \<Rightarrow> 's \<Rightarrow> bool" and spawn :: "'e \<Rightarrow> ('s, unit) thread" and allowed :: "'e \<Rightarrow> bool"
  assumes R_refl: "R s s"
    and R_trans: "R s s' \<Longrightarrow> R s' s'' \<Longrightarrow> R s s''"
    and R_held: "R s s' \<Longrightarrow> held s' = held s"
    and R_stable: "R s s' \<Longrightarrow> J s \<Longrightarrow> ok s' \<Longrightarrow> J s'"
    and spawn_outside: "allowed e \<Longrightarrow> outside held R ok J guard (spawn e)"
begin

text \<open>The mutex is free and the invariant holds, or one goroutine holds it.\<close>

definition consistent :: "'s \<Rightarrow> ('s, unit) thread list \<Rightarrow> bool" where
  "consistent s ts \<longleftrightarrow> ok s \<and>
     (\<not> held s \<and> J s \<and> list_all (outside held R ok J guard) ts \<or>
      held s \<and> (\<exists>i < length ts. inside held R ok J guard s (ts ! i) \<and>
        (\<forall>j < length ts. j \<noteq> i \<longrightarrow> outside held R ok J guard (ts ! j))))"

lemma inside_mono:
  assumes "inside held R ok J guard s t" and "R s s'"
  shows "inside held R ok J guard s' t"
proof (cases t)
  case (Done a)
  then show ?thesis using assms(1) by (auto elim: inside_DoneE)
next
  case (Step f)
  show ?thesis unfolding Step
    by (rule inside_Step, rule inside_StepE [OF assms(1) [unfolded Step]]) (blast intro: R_trans [OF assms(2)])
qed

lemma consistent_go: "consistent s ts \<Longrightarrow> allowed e \<Longrightarrow> consistent s (ts @ [spawn e])"
  unfolding consistent_def
  by (auto simp: nth_append less_Suc_eq intro: spawn_outside intro!: exI)

lemma consistent_outsider:
  assumes c: "consistent s ts" and i: "i < length ts" "ts ! i = Step f" "f s = Returns s' t" "guard s s'"
    and o: "outside held R ok J guard (ts ! i)" and k: "held s \<Longrightarrow> \<exists>k < length ts. k \<noteq> i \<and> inside held R ok J guard s (ts ! k)
      \<and> (\<forall>j < length ts. j \<noteq> k \<longrightarrow> outside held R ok J guard (ts ! j))"
  shows "consistent s' (ts[i := t])"
proof -
  have "ok s" using c by (simp add: consistent_def)
  from o i have st: "ok s' \<and> (R s s' \<and> outside held R ok J guard t \<or>
      \<not> held s \<and> held s' \<and> (J s \<longrightarrow> inside held R ok J guard s' t))"
    using \<open>ok s\<close> by (auto elim!: outside_StepE)
  show ?thesis
  proof (cases "held s")
    case True
    then obtain k where k': "k < length ts" "k \<noteq> i" "inside held R ok J guard s (ts ! k)"
      "\<forall>j < length ts. j \<noteq> k \<longrightarrow> outside held R ok J guard (ts ! j)" using k by blast
    have r: "R s s'" "outside held R ok J guard t" using st True by auto
    have "inside held R ok J guard s' (ts[i := t] ! k)" using k'(2) inside_mono [OF k'(3) r(1)] by simp
    moreover have "outside held R ok J guard (ts[i := t] ! j)" if "j < length ts" "j \<noteq> k" for j
      using k'(4) that r(2) i(1) by (cases "j = i") auto
    ultimately show ?thesis using st True R_held [OF r(1)] k'(1) unfolding consistent_def by auto
  next
    case False
    then have J: "J s" and all: "list_all (outside held R ok J guard) ts" using c by (auto simp: consistent_def)
    then have out: "outside held R ok J guard (ts ! j)" if "j < length ts" for j using that by (simp add: list_all_length)
    show ?thesis
    proof (cases "R s s' \<and> outside held R ok J guard t")
      case True
      then have "list_all (outside held R ok J guard) (ts[i := t])"
        using out i(1) by (auto simp: list_all_length nth_list_update)
      then show ?thesis using st True False J R_stable R_held unfolding consistent_def by blast
    next
      case False
      then have "held s'" "inside held R ok J guard s' t" using st J by auto
      then show ?thesis using st i(1) out unfolding consistent_def by (auto intro!: exI [of _ i])
    qed
  qed
qed

lemma consistent_moves:
  assumes c: "consistent s ts" and i: "i < length ts" "ts ! i = Step f" "f s = Returns s' t" "guard s s'"
  shows "consistent s' (ts[i := t])"
proof (cases "held s \<and> inside held R ok J guard s (ts ! i) \<and> (\<forall>j < length ts. j \<noteq> i \<longrightarrow> outside held R ok J guard (ts ! j))")
  case False
  then show ?thesis
    using c i(1) by (intro consistent_outsider [OF c i]) (auto simp: consistent_def list_all_length)
next
  case True
  have "ok s" using c by (simp add: consistent_def)
  have "inside held R ok J guard s (Step f)" using True i(2) by simp
  then have st: "ok s' \<and> (held s' \<and> inside held R ok J guard s' t \<or> \<not> held s' \<and> J s' \<and> outside held R ok J guard t)"
    by (rule inside_StepE) (use R_refl \<open>ok s\<close> i(3,4) in blast)
  then show ?thesis
  proof (cases "held s'")
    case held: True
    then show ?thesis using st True i(1) unfolding consistent_def by (auto intro!: exI [of _ i])
  next
    case False
    then show ?thesis using st True i(1) unfolding consistent_def by (auto simp: list_all_length nth_list_update)
  qed
qed

text \<open>The invariant of every run.\<close>

definition system_ok :: "'s system \<Rightarrow> bool" where
  "system_ok p \<longleftrightarrow> (case p of Alive s ts \<Rightarrow> consistent s ts | Crashed s \<Rightarrow> True)"

definition may_run :: "('s, 'e) schedule \<Rightarrow> bool" where
  "may_run l \<longleftrightarrow> (case l of Go e \<Rightarrow> allowed e | Sched i \<Rightarrow> True)"

sublocale runs: transitions "\<lambda>p l p'. interleave spawn p l p' \<and> between guard p p'" system_ok may_run
proof
  show "system_ok p'" if "system_ok p" and "may_run l" and "interleave spawn p l p' \<and> between guard p p'" for p l p'
    using conjunct1 [OF that(3)]
  proof (cases rule: interleave.cases)
    case (go s ts e)
    then show ?thesis using that(1,2) by (auto simp: system_ok_def may_run_def intro: consistent_go)
  next
    case (moves i ts f s s' t)
    then show ?thesis using that(1,3) by (auto simp: system_ok_def between_def intro: consistent_moves)
  qed (simp add: system_ok_def)
qed

lemma free_when_released:
  assumes "run (\<lambda>p l p'. interleave spawn p l p' \<and> between guard p p') (Alive s0 []) ls (Alive s ts)"
    and "list_all may_run ls" and "ok s0" and "J s0" and "\<not> held s0"
  shows "ok s" and "\<not> held s \<Longrightarrow> J s"
  using runs.run_keeps [OF assms(1,2)] assms(3-5) by (auto simp: system_ok_def consistent_def)

end

end
