(* ===== verification/Node_Threads.thy ===== *)
theory Node_Threads
  imports Node_Laws Goroutines
begin

text \<open>
  The goroutines of \<^verbatim>\<open>runNodeLoop\<close> step by step: every event of the node as a thread whose steps are
  the critical sections of the source (a method that takes its mutex at the start and gives it
  back at the end is one step), and the proof that a thread nobody disturbs does what the handler of
  the event does.
\<close>

section \<open>The shared state\<close>

text \<open>The node, the pool mutex (taken by \<^verbatim>\<open>Add\<close> across its calls into the state), and the hashes of all
  transactions the pool has accepted so far, a history no goroutine reads.\<close>

record 'db Shared =
  sh_node :: "'db Node"
  sh_poolMu :: bool
  sh_accepted :: "hash list"

definition on_node :: "('db Node \<Rightarrow> ('db Node, 'a) outcome) \<Rightarrow> ('db Shared, 'a) thread" where
  "on_node f = atomic (\<lambda>s. map_outcome (\<lambda>n. s\<lparr>sh_node := n\<rparr>) id (f (sh_node s)))"

definition look :: "('db Node \<Rightarrow> 'a) \<Rightarrow> ('db Shared, 'a) thread" where
  "look g = on_node (\<lambda>n. Returns n (g n))"

definition change :: "('db Node \<Rightarrow> 'db Node) \<Rightarrow> ('db Shared, unit) thread" where
  "change f = on_node (\<lambda>n. Returns (f n) ())"

definition on_chain_only :: "(Chain \<Rightarrow> (Chain, 'a) outcome) \<Rightarrow> ('db Shared, 'a) thread" where
  "on_chain_only f = on_node (\<lambda>n. on_chain n (f (nd_chain n)))"

section \<open>The block store\<close>

definition tip_section :: "Chain \<Rightarrow> (Chain, hash \<times> u64) outcome" where
  "tip_section c = and_then (chain_RLock c) (\<lambda>c _. Returns (chain_RUnlock c) (ch_LastHash c, ch_Height c))"

definition go_LastBlock :: "('db Shared, io_error + Block option) thread" where
  "go_LastBlock = seq (on_chain_only tip_section) (\<lambda>(last, _).
     if Hash_IsZero last then Done (Inr None)
     else seq (on_chain_only (\<lambda>c. GetBlock c last)) (\<lambda>r. Done (case r of Inl e \<Rightarrow> Inl e | Inr b \<Rightarrow> Inr (Some b))))"

text \<open>\<^verbatim>\<open>last, _ := chain.LastBlock()\<close>\<close>

definition go_last :: "('db Shared, Block option) thread" where
  "go_last = seq go_LastBlock (\<lambda>r. Done (case r of Inl e \<Rightarrow> None | Inr b \<Rightarrow> b))"

definition append_section :: "Block \<Rightarrow> Chain \<Rightarrow> (Chain, io_error option) outcome" where
  "append_section b c = and_then (chain_Lock c) (\<lambda>c _.
     case os_WriteFile (ch_disk c) (tmp_file (blk_Hash b)) (json_Marshal (block_json b)) of
       (d, Some e) \<Rightarrow> Returns (chain_Unlock (c\<lparr>ch_disk := d\<rparr>)) (Some e)
     | (d, None) \<Rightarrow>
         (case os_Rename d (tmp_file (blk_Hash b)) (block_file (blk_Hash b)) of
            (d, Some e) \<Rightarrow>
              Returns (chain_Unlock (c\<lparr>ch_disk := os_Remove d (tmp_file (blk_Hash b))\<rparr>)) (Some e)
          | (d, None) \<Rightarrow>
              Returns (chain_Unlock (c\<lparr>ch_disk := d, ch_Height := blk_Height b, ch_LastHash := blk_Hash b\<rparr>)) None))"

definition go_AppendBlock :: "Block \<Rightarrow> ('db Shared, io_error option) thread" where
  "go_AppendBlock b = seq (on_chain_only (append_section b)) (\<lambda>err.
     case err of Some e \<Rightarrow> Done (Some e) | None \<Rightarrow> on_chain_only Chain_Save)"

definition settip_section :: "Block \<Rightarrow> Chain \<Rightarrow> (Chain, unit) outcome" where
  "settip_section b c = and_then (chain_Lock c) (\<lambda>c _.
     Returns (c\<lparr>ch_Height := blk_Height b, ch_LastHash := blk_Hash b\<rparr>) ())"

definition go_SetTip :: "Block \<Rightarrow> ('db Shared, io_error option) thread" where
  "go_SetTip b = seq (on_chain_only (settip_section b)) (\<lambda>_.
     seq (on_chain_only Chain_Save) (\<lambda>err.
       seq (on_chain_only (\<lambda>c. Returns (chain_Unlock c) ())) (\<lambda>_. Done err)))"

text \<open>The walk reads one block file after another, each under the read lock; it is one step here.\<close>

definition walk_section :: "u64 \<Rightarrow> int \<Rightarrow> hash \<Rightarrow> Chain \<Rightarrow> (Chain, io_error + Block list) outcome" where
  "walk_section fromHeight mx tipHash c = and_then (chain_RLock c) (\<lambda>c _.
     let c = chain_RUnlock c
     in case walk_back (ch_disk c) fromHeight tipHash [] of
          None \<Rightarrow> Blocks c
        | Some (Inl e) \<Rightarrow> Returns c (Inl e)
        | Some (Inr hashes) \<Rightarrow>
            (let hashes = (if int (length hashes) > mx then drop (length hashes - nat mx) hashes else hashes)
             in Returns c (load_blocks (ch_disk c) (rev hashes) [])))"

definition go_GetBlocksFrom :: "u64 \<Rightarrow> int \<Rightarrow> ('db Shared, io_error + Block list) thread" where
  "go_GetBlocksFrom fromHeight mx =
     (let mx = (if mx \<le> 0 then 10000 else mx)
      in seq (on_chain_only tip_section) (\<lambda>(tipHash, height).
        if Hash_IsZero tipHash \<or> height < fromHeight then Done (Inr [])
        else on_chain_only (walk_section fromHeight mx tipHash)))"

section \<open>The pool\<close>

text \<open>The whole of \<^verbatim>\<open>Pending\<close>, \<^verbatim>\<open>Remove\<close> and \<^verbatim>\<open>Size\<close> runs under the pool mutex.\<close>

definition on_pool :: "('db Node \<Rightarrow> 'db Node \<times> 'a) \<Rightarrow> ('db Shared, 'a) thread" where
  "on_pool f = atomic (\<lambda>s. if sh_poolMu s then Blocks s
     else case f (sh_node s) of (n, a) \<Rightarrow> Returns (s\<lparr>sh_node := n\<rparr>) a)"

definition go_Pending :: "int \<Rightarrow> ('db Shared, Transaction list) thread" where
  "go_Pending k = on_pool (\<lambda>n. (n, Mempool_Pending (nd_pool n) k))"

definition go_Remove :: "crypto_lib \<Rightarrow> Transaction list \<Rightarrow> ('db Shared, unit) thread" where
  "go_Remove cl txs = (if txs = [] then Done () else on_pool (\<lambda>n. (node_Remove cl n txs, ())))"

text \<open>\<^verbatim>\<open>Add\<close> keeps the mutex while it asks the state for the balance and then for the nonce; a block may be
  applied between the two. Unlocking a mutex that is not locked ends the process.\<close>

definition add_enter :: "crypto_lib \<Rightarrow> Transaction \<Rightarrow> 'db Shared \<Rightarrow> ('db Shared, mempool_error option) outcome" where
  "add_enter cl tx s =
     (let m = nd_pool (sh_node s) in
      if sh_poolMu s then Blocks s
      else if int (length (mp_txs m)) \<ge> mp_max m then Returns s (Some ErrMempoolFull)
      else if \<not> VerifySignature cl tx then Returns s (Some ErrInvalidSignature)
      else if \<not> SatisfiesMinFee tx then Returns s (Some ErrFeeTooLow)
      else Returns (s\<lparr>sh_poolMu := True\<rparr>) None)"

definition add_leave :: "mempool_error option \<Rightarrow> 'db Shared \<Rightarrow> ('db Shared, mempool_error option) outcome" where
  "add_leave err s = (if sh_poolMu s then Returns (s\<lparr>sh_poolMu := False\<rparr>) err else Panics s)"

definition add_append :: "crypto_lib \<Rightarrow> Transaction \<Rightarrow> 'db Shared \<Rightarrow> ('db Shared, mempool_error option) outcome" where
  "add_append cl tx s =
     (let n = sh_node s; m = nd_pool n in
      if has_hash cl (TxHash cl tx) (mp_txs m) then add_leave (Some ErrDuplicate) s
      else add_leave None (s\<lparr>sh_node := n\<lparr>nd_pool := m\<lparr>mp_txs := mp_txs m @ [tx]\<rparr>\<rparr>,
             sh_accepted := TxHash cl tx # sh_accepted s\<rparr>))"

definition go_Add :: "crypto_lib \<Rightarrow> 'db leveldb \<Rightarrow> Transaction \<Rightarrow> ('db Shared, mempool_error option) thread" where
  "go_Add cl L tx = seq (atomic (add_enter cl tx)) (\<lambda>err.
     case err of
       Some e \<Rightarrow> Done (Some e)
     | None \<Rightarrow>
         seq (look (\<lambda>n. GetBalance L (nd_state n) (tx_From tx))) (\<lambda>(bal, err).
           case err of
             Some e \<Rightarrow> atomic (add_leave (Some (ErrState e)))
           | None \<Rightarrow>
               seq (look (\<lambda>n. GetNonce L (nd_state n) (tx_From tx))) (\<lambda>(nonce, err).
                 case err of
                   Some e \<Rightarrow> atomic (add_leave (Some (ErrState e)))
                 | None \<Rightarrow>
                     if tx_Nonce tx \<noteq> nonce then atomic (add_leave (Some ErrBadNonce))
                     else if bal < tx_Amount tx + tx_Fee tx then atomic (add_leave (Some ErrInsufficientBalance))
                     else atomic (add_append cl tx))))"

section \<open>Peers\<close>

definition dial_step :: "string \<Rightarrow> 'db Node \<Rightarrow> ('db Node, (nat \<times> string) option) outcome" where
  "dial_step addr n = (case dialPeer (nd_net n) addr of (nt, r) \<Rightarrow> Returns (n\<lparr>nd_net := nt\<rparr>) r)"

definition add_dialed :: "nat \<Rightarrow> string \<Rightarrow> 'db Node \<Rightarrow> 'db Node" where
  "add_dialed c remote n = (case addPeer (nd_peers n) (nd_net n) c remote False of
     (p, nt, ok) \<Rightarrow> n\<lparr>nd_peers := p, nd_net := if ok then net_go nt c remote else nt\<rparr>)"

definition go_TryConnect :: "string \<Rightarrow> ('db Shared, unit) thread" where
  "go_TryConnect addr = seq (look nd_peers) (\<lambda>p.
     if addr = [] \<or> addr = ps_listenAddr p then Done ()
     else if int (length (ps_peers p)) \<ge> ps_maxPeers p then Done ()
     else seq (on_node (dial_step addr)) (\<lambda>r.
       case r of None \<Rightarrow> Done () | Some (c, remote) \<Rightarrow> change (add_dialed c remote)))"

definition go_Broadcast :: "Kind \<Rightarrow> json \<Rightarrow> ('db Shared, unit) thread" where
  "go_Broadcast kind payload = change (\<lambda>n. node_Broadcast n kind payload)"

definition go_Send :: "nat \<Rightarrow> Kind \<Rightarrow> json \<Rightarrow> ('db Shared, unit) thread" where
  "go_Send c kind payload = change (\<lambda>n. n\<lparr>nd_net := fst (conn_Send (nd_net n) c kind payload)\<rparr>)"

section \<open>Blocks\<close>

definition go_Lock :: "('db Shared, unit) thread" where
  "go_Lock = on_node lock_blockMu"

definition go_Unlock :: "('db Shared, unit) thread" where
  "go_Unlock = change unlock_blockMu"

definition go_panic :: "('db Shared, 'a) thread" where
  "go_panic = on_node Panics"

definition go_ApplyBlock :: "'db leveldb \<Rightarrow> Block \<Rightarrow> ('db Shared, db_error option) thread" where
  "go_ApplyBlock L b = on_node (\<lambda>n. case node_ApplyBlock L n b of (n, err) \<Rightarrow> Returns n err)"

definition go_double_sign :: "Block \<Rightarrow> ('db Shared, bool) thread" where
  "go_double_sign b = on_node (\<lambda>n. case double_sign n b of (n, dup) \<Rightarrow> Returns n dup)"

definition go_HasBlock :: "hash \<Rightarrow> ('db Shared, bool) thread" where
  "go_HasBlock h = on_chain_only (\<lambda>c. HasBlock c h)"

definition go_WriteBlock :: "Block \<Rightarrow> ('db Shared, io_error option) thread" where
  "go_WriteBlock b = on_chain_only (\<lambda>c. WriteBlock c b)"

fun go_extend :: "crypto_lib \<Rightarrow> 'db leveldb \<Rightarrow> ValidatorSet option \<Rightarrow> Block option list \<Rightarrow> ('db Shared, unit) thread" where
  "go_extend cl L vset [] = Done ()"
| "go_extend cl L vset (None # bs) = go_panic"
| "go_extend cl L vset (Some b # bs) =
     (if \<not> ValidateBlock cl b then go_extend cl L vset bs
      else seq (go_HasBlock (blk_Hash b)) (\<lambda>has.
        if has then go_extend cl L vset bs
        else if (case vset of None \<Rightarrow> False | Some vs \<Rightarrow> \<not> VerifyBlockValidator vs b) then go_extend cl L vset bs
        else seq (go_double_sign b) (\<lambda>dup.
          if dup then seq (change (\<lambda>n. node_Slash L n (blk_ValidatorAddress b))) (\<lambda>_. go_extend cl L vset bs)
          else seq go_last (\<lambda>cur.
            if (case cur of None \<Rightarrow> False | Some c \<Rightarrow> blk_PreviousHash b \<noteq> blk_Hash c) then Done ()
            else seq (go_WriteBlock b) (\<lambda>_.
              seq (go_ApplyBlock L b) (\<lambda>err.
                case err of
                  Some e \<Rightarrow> Done ()
                | None \<Rightarrow>
                    seq (go_SetTip b) (\<lambda>_.
                      seq (go_Remove cl (blk_Transactions b)) (\<lambda>_.
                        seq (go_Broadcast KindNewBlock (block_json b)) (\<lambda>_. go_extend cl L vset bs)))))))))"

fun go_sync :: "crypto_lib \<Rightarrow> 'db leveldb \<Rightarrow> Env \<Rightarrow> Block option list \<Rightarrow> ('db Shared, unit) thread" where
  "go_sync cl L env [] = Done ()"
| "go_sync cl L env (None # bs) = go_panic"
| "go_sync cl L env (Some b # bs) =
     (if \<not> ValidateBlock cl b then Done ()
      else seq go_last (\<lambda>cur.
        if (case cur of None \<Rightarrow> False | Some c \<Rightarrow> blk_PreviousHash b \<noteq> blk_Hash c) then Done ()
        else seq (if cur = None \<and> blk_Height b = 0
             then change (\<lambda>n. n\<lparr>nd_state := fst (ApplyGenesis L (nd_state n) (env_allocation env) (env_validators env))\<rparr>)
             else Done ()) (\<lambda>_.
          seq (go_WriteBlock b) (\<lambda>_.
            seq (go_ApplyBlock L b) (\<lambda>err.
              case err of
                Some e \<Rightarrow> Done ()
              | None \<Rightarrow>
                  seq (go_SetTip b) (\<lambda>_.
                    seq (go_Remove cl (blk_Transactions b)) (\<lambda>_. go_sync cl L env bs)))))))"

fun go_write_blocks :: "Block list \<Rightarrow> ('db Shared, unit) thread" where
  "go_write_blocks [] = Done ()"
| "go_write_blocks (b # bs) = seq (go_WriteBlock b) (\<lambda>_. go_write_blocks bs)"

fun go_remove_all :: "crypto_lib \<Rightarrow> Block list \<Rightarrow> ('db Shared, unit) thread" where
  "go_remove_all cl [] = Done ()"
| "go_remove_all cl (b # bs) = seq (go_Remove cl (blk_Transactions b)) (\<lambda>_. go_remove_all cl bs)"

definition replay_step :: "'db leveldb \<Rightarrow> Env \<Rightarrow> Block list \<Rightarrow> 'db Node \<Rightarrow> ('db Node, db_error option) outcome" where
  "replay_step L env blocks n = (case ResetAndReplay L (nd_state n) (env_allocation env) (env_validators env) blocks of
     (s, err) \<Rightarrow> Returns (n\<lparr>nd_state := s\<rparr>) err)"

definition go_reorg :: "crypto_lib \<Rightarrow> 'db leveldb \<Rightarrow> Env \<Rightarrow> Block list \<Rightarrow> ('db Shared, unit) thread" where
  "go_reorg cl L env blocks = seq (go_write_blocks blocks) (\<lambda>_.
     seq (on_node (replay_step L env blocks)) (\<lambda>err.
       case err of
         Some e \<Rightarrow> Done ()
       | None \<Rightarrow> seq (go_SetTip (last blocks)) (\<lambda>_. go_remove_all cl blocks)))"

definition go_other_chain ::
  "crypto_lib \<Rightarrow> 'db leveldb \<Rightarrow> Env \<Rightarrow> nat \<Rightarrow> Block option \<Rightarrow> Block option list \<Rightarrow> ('db Shared, unit) thread" where
  "go_other_chain cl L env c last_b body = (case check_links cl body of
     Panic \<Rightarrow> go_panic
   | Error \<Rightarrow> Done ()
   | Value False \<Rightarrow> Done ()
   | Value True \<Rightarrow>
       (case those body of
          None \<Rightarrow> go_panic
        | Some blocks \<Rightarrow>
            (let longer = (case last_b of None \<Rightarrow> False | Some l \<Rightarrow> blk_Height (last blocks) > blk_Height l) in
             if blk_Height (hd blocks) = 0 \<and> Hash_IsZero (blk_PreviousHash (hd blocks)) then
               (if longer then go_reorg cl L env blocks else Done ())
             else if longer then go_Send c KindGetBlocks (get_blocks_json \<lparr>gb_FromHeight = 0, gb_Max = 10000\<rparr>)
             else Done ())))"

definition go_blocks ::
  "crypto_lib \<Rightarrow> 'db leveldb \<Rightarrow> Env \<Rightarrow> nat \<Rightarrow> Block option list \<Rightarrow> ('db Shared, unit) thread" where
  "go_blocks cl L env c body =
     (if length body = 0 then Done ()
      else seq go_Lock (\<lambda>_. seq go_last (\<lambda>last_b.
        seq (case hd body of
               None \<Rightarrow> go_panic
             | Some b0 \<Rightarrow>
                 if (case last_b of None \<Rightarrow> False | Some l \<Rightarrow> blk_PreviousHash b0 = blk_Hash l)
                 then seq (look (getValidatorSet L)) (\<lambda>vset. go_extend cl L vset body)
                 else if last_b = None \<and> blk_Height b0 = 0 \<and> Hash_IsZero (blk_PreviousHash b0)
                 then go_sync cl L env body
                 else go_other_chain cl L env c last_b body) (\<lambda>_. go_Unlock))))"

definition go_new_block :: "crypto_lib \<Rightarrow> 'db leveldb \<Rightarrow> Block \<Rightarrow> ('db Shared, unit) thread" where
  "go_new_block cl L b = seq go_Lock (\<lambda>_.
     seq (look (getValidatorSet L)) (\<lambda>vset.
     if \<not> ValidateBlock cl b then go_Unlock
     else seq (go_HasBlock (blk_Hash b)) (\<lambda>has.
       if has \<or> (case vset of None \<Rightarrow> False | Some vs \<Rightarrow> \<not> VerifyBlockValidator vs b) then go_Unlock
       else seq (go_double_sign b) (\<lambda>dup.
         if dup then seq (change (\<lambda>n. node_Slash L n (blk_ValidatorAddress b))) (\<lambda>_. go_Unlock)
         else seq go_last (\<lambda>last_b.
           if (case last_b of None \<Rightarrow> True | Some l \<Rightarrow> blk_PreviousHash b \<noteq> blk_Hash l) then go_Unlock
           else seq (go_WriteBlock b) (\<lambda>_.
             seq (go_ApplyBlock L b) (\<lambda>err.
               case err of
                 Some e \<Rightarrow> go_Unlock
               | None \<Rightarrow>
                   seq (go_SetTip b) (\<lambda>_.
                     seq (go_Remove cl (blk_Transactions b)) (\<lambda>_.
                       seq (go_Broadcast KindNewBlock (block_json b)) (\<lambda>_. go_Unlock))))))))))"

definition go_produce :: "crypto_lib \<Rightarrow> 'db leveldb \<Rightarrow> Env \<Rightarrow> u64 \<Rightarrow> nat \<Rightarrow> ('db Shared, unit) thread" where
  "go_produce cl L env now seed = seq go_Lock (\<lambda>_. seq go_LastBlock (\<lambda>r.
     case r of
       Inl e \<Rightarrow> go_Unlock
     | Inr None \<Rightarrow> go_Unlock
     | Inr (Some l) \<Rightarrow>
         seq (look (getValidatorSet L)) (\<lambda>vset.
           if (case vset of None \<Rightarrow> False | Some vs \<Rightarrow> ValidatorForHeight vs (blk_Height l + 1) \<noteq> env_validatorAddr env)
           then go_Unlock
           else seq (go_Pending 100) (\<lambda>txs.
             if length txs = 0 then go_Unlock
             else
               let b = NewBlock cl now (blk_Height l + 1) (blk_Hash l) (env_validatorAddr env) txs in
               case Sign cl seed (env_priv env) (blk_Hash b) of
                 Error \<Rightarrow> go_Unlock
               | Panic \<Rightarrow> go_panic
               | Value sig \<Rightarrow>
                   (let b = b\<lparr>blk_Signature := sig\<rparr> in
                    seq (go_ApplyBlock L b) (\<lambda>err.
                      case err of
                        Some e \<Rightarrow> go_Unlock
                      | None \<Rightarrow>
                          seq (go_AppendBlock b) (\<lambda>err.
                            case err of
                              Some e \<Rightarrow> go_Unlock
                            | None \<Rightarrow>
                                seq (go_Remove cl txs) (\<lambda>_.
                                  seq go_Unlock (\<lambda>_. go_Broadcast KindNewBlock (block_json b))))))))))"

section \<open>Messages\<close>

definition go_new_tx :: "crypto_lib \<Rightarrow> 'db leveldb \<Rightarrow> Transaction \<Rightarrow> ('db Shared, unit) thread" where
  "go_new_tx cl L tx = seq (go_Add cl L tx) (\<lambda>err.
     case err of None \<Rightarrow> go_Broadcast KindNewTx (tx_json tx) | Some e \<Rightarrow> Done ())"

definition go_get_blocks :: "nat \<Rightarrow> GetBlocksPayload \<Rightarrow> ('db Shared, unit) thread" where
  "go_get_blocks c req =
     (let mx = (if sint (gb_Max req) \<le> 0 then 50 else sint (gb_Max req))
      in seq (go_GetBlocksFrom (gb_FromHeight req) mx) (\<lambda>r.
        let blocks = (case r of Inl e \<Rightarrow> [] | Inr bs \<Rightarrow> bs) in
        if length blocks > 0 then go_Send c KindBlocks (blocks_json \<lparr>bp_Blocks = map Some blocks\<rparr>) else Done ()))"

fun go_connect_all :: "string \<Rightarrow> string list \<Rightarrow> ('db Shared, unit) thread" where
  "go_connect_all listen [] = Done ()"
| "go_connect_all listen (addr # addrs) =
     seq (if addr \<noteq> listen \<and> addr \<noteq> [] then go_TryConnect addr else Done ()) (\<lambda>_. go_connect_all listen addrs)"

definition go_message ::
  "crypto_lib \<Rightarrow> 'db leveldb \<Rightarrow> Env \<Rightarrow> nat \<Rightarrow> Kind \<Rightarrow> json option \<Rightarrow> ('db Shared, unit) thread" where
  "go_message cl L env c kind payload =
     (if kind = KindHello then
        (case unmarshal payload dec_hello zero_hello of
           None \<Rightarrow> Done ()
         | Some h \<Rightarrow>
             if hello_ListenAddr h \<noteq> [] \<and> hello_ListenAddr h \<noteq> env_p2pListen env
             then go_TryConnect (hello_ListenAddr h) else Done ())
      else if kind = KindGetBlocks then
        (case unmarshal payload dec_get_blocks zero_get_blocks of None \<Rightarrow> Done () | Some req \<Rightarrow> go_get_blocks c req)
      else if kind = KindBlocks then
        (case unmarshal payload dec_blocks zero_blocks of None \<Rightarrow> Done () | Some body \<Rightarrow> go_blocks cl L env c (bp_Blocks body))
      else if kind = KindNewBlock then
        (case unmarshal payload dec_block zero_block of None \<Rightarrow> Done () | Some b \<Rightarrow> go_new_block cl L b)
      else if kind = KindNewTx then
        (case unmarshal payload dec_tx zero_tx of None \<Rightarrow> Done () | Some tx \<Rightarrow> go_new_tx cl L tx)
      else if kind = KindGetPeers then Done ()
      else if kind = KindPeers then
        (case unmarshal payload dec_peers zero_peers of
           None \<Rightarrow> Done () | Some body \<Rightarrow> go_connect_all (env_p2pListen env) (pp_Peers body))
      else Done ())"

fun go_loop ::
  "crypto_lib \<Rightarrow> 'db leveldb \<Rightarrow> Env \<Rightarrow> nat \<Rightarrow> (Kind \<times> json option) list \<Rightarrow> ('db Shared, unit) thread" where
  "go_loop cl L env c [] = Done ()"
| "go_loop cl L env c ((kind, payload) # ms) = seq (go_message cl L env c kind payload) (\<lambda>_. go_loop cl L env c ms)"

definition go_conn :: "crypto_lib \<Rightarrow> 'db leveldb \<Rightarrow> Env \<Rightarrow> nat \<Rightarrow> string \<Rightarrow> string \<Rightarrow> ('db Shared, unit) thread" where
  "go_conn cl L env c remote inp =
     seq (on_node (\<lambda>n. case AddPeer (nd_peers n) (nd_net n) c remote False of
       (p, nt, ok) \<Rightarrow> Returns (n\<lparr>nd_peers := p, nd_net := nt\<rparr>) ok)) (\<lambda>ok.
       if \<not> ok then Done ()
       else seq (go_loop cl L env c (read_messages inp)) (\<lambda>_.
         change (\<lambda>n. case RemovePeer (nd_peers n) (nd_net n) remote of (p, nt) \<Rightarrow> n\<lparr>nd_peers := p, nd_net := nt\<rparr>)))"

section \<open>The other goroutines\<close>

definition go_height :: "('db Shared, u64) thread" where
  "go_height = seq go_last (\<lambda>last_b. Done (case last_b of None \<Rightarrow> 0 | Some b \<Rightarrow> blk_Height b))"

definition go_accept :: "Env \<Rightarrow> nat \<Rightarrow> string \<Rightarrow> ('db Shared, unit) thread" where
  "go_accept env c remote = seq go_height (\<lambda>height.
     change (\<lambda>n. n\<lparr>nd_net := accept_conn (env_server env) height (nd_net n) c remote\<rparr>))"

definition go_initial_sync :: "('db Shared, unit) thread" where
  "go_initial_sync = seq go_last (\<lambda>last_b.
     case last_b of
       None \<Rightarrow> Done ()
     | Some l \<Rightarrow> go_Broadcast KindGetBlocks (get_blocks_json \<lparr>gb_FromHeight = blk_Height l + 1, gb_Max = 100\<rparr>))"

definition go_tx :: "crypto_lib \<Rightarrow> 'db leveldb \<Rightarrow> Request \<Rightarrow> ('db Shared, unit) thread" where
  "go_tx cl L rq =
     (if rq_Method rq \<noteq> ''POST'' then Done ()
      else case Option.bind (json_Decode (rq_Body rq)) (\<lambda>j. dec_tx j zero_tx) of
        None \<Rightarrow> Done () | Some tx \<Rightarrow> go_new_tx cl L tx)"

definition go_status :: "('db Shared, unit) thread" where
  "go_status = seq go_height (\<lambda>_. on_pool (\<lambda>n. (n, ())))"

definition go_page_blocks :: "Request \<Rightarrow> ('db Shared, unit) thread" where
  "go_page_blocks rq =
     (if rq_Method rq \<noteq> ''GET'' then Done ()
      else
        let l = query_Get rq ''limit'';
            limit = (if l = [] then 20
                     else let v = (case Sscanf_int l of None \<Rightarrow> 20 | Some v \<Rightarrow> v)
                          in if v \<le> 0 \<or> v > 100 then 20 else v)
        in seq go_last (\<lambda>last_b.
          case last_b of
            None \<Rightarrow> Done ()
          | Some b \<Rightarrow>
              (let from = (if blk_Height b \<ge> word_of_int limit then blk_Height b - word_of_int limit + 1 else 0)
               in seq (go_GetBlocksFrom from limit) (\<lambda>_. Done ()))))"

definition go_page_block :: "Request \<Rightarrow> ('db Shared, unit) thread" where
  "go_page_block rq =
     (if rq_Method rq \<noteq> ''GET'' then Done ()
      else if query_Get rq ''hash'' \<noteq> [] then
        seq (on_chain_only (\<lambda>c. GetBlock c (HashFromHex (query_Get rq ''hash'')))) (\<lambda>_. Done ())
      else Done ())"

text \<open>The goroutine of an event. The pages only read; their answers are those of the handlers.\<close>

fun goroutine :: "crypto_lib \<Rightarrow> 'db leveldb \<Rightarrow> Env \<Rightarrow> node_event \<Rightarrow> ('db Shared, unit) thread" where
  "goroutine cl L env (EvConn c remote inp) = go_conn cl L env c remote inp"
| "goroutine cl L env (EvMessage c kind payload) = go_message cl L env c kind payload"
| "goroutine cl L env (EvAccept c remote) = go_accept env c remote"
| "goroutine cl L env EvSync = go_initial_sync"
| "goroutine cl L env (EvTick now seed) = go_produce cl L env now seed"
| "goroutine cl L env (EvTx rq) = go_tx cl L rq"
| "goroutine cl L env EvStatus = go_status"
| "goroutine cl L env (EvBlocks rq) = go_page_blocks rq"
| "goroutine cl L env (EvBlock rq) = go_page_block rq"

section \<open>A goroutine nobody disturbs\<close>

text \<open>A thread that touches the node only: the outcome on the node, seen as one on the shared state.\<close>

definition lift :: "'db Shared \<Rightarrow> ('db Node, 'a) outcome \<Rightarrow> ('db Shared, 'a) outcome" where
  "lift s r = map_outcome (\<lambda>n. s\<lparr>sh_node := n\<rparr>) id r"

definition lift_then ::
  "'db Shared \<Rightarrow> ('db Node, 'a) outcome \<Rightarrow> ('db Node \<Rightarrow> 'a \<Rightarrow> ('db Shared, 'b) outcome) \<Rightarrow> ('db Shared, 'b) outcome" where
  "lift_then s r f = (case r of
     Returns n a \<Rightarrow> f n a | Panics n \<Rightarrow> Panics (s\<lparr>sh_node := n\<rparr>) | Blocks n \<Rightarrow> Blocks (s\<lparr>sh_node := n\<rparr>))"

lemma lift_simps [simp]:
  "lift s (Returns n a) = Returns (s\<lparr>sh_node := n\<rparr>) a" "lift s (Panics n) = Panics (s\<lparr>sh_node := n\<rparr>)"
  "lift s (Blocks n) = Blocks (s\<lparr>sh_node := n\<rparr>)"
  "lift_then s (Returns n a) f = f n a" "lift_then s (Panics n) f = Panics (s\<lparr>sh_node := n\<rparr>)"
  "lift_then s (Blocks n) f = Blocks (s\<lparr>sh_node := n\<rparr>)"
  by (simp_all add: lift_def lift_then_def)

lemma and_then_lift: "and_then (lift s r) f = lift_then s r (\<lambda>n a. f (s\<lparr>sh_node := n\<rparr>) a)"
  by (cases r) simp_all

lemma lift_and_then: "lift s (and_then r g) = lift_then s r (\<lambda>n a. lift s (g n a))"
  by (cases r) simp_all

lemma lift_then_and_then: "lift_then s (and_then r g) f = lift_then s r (\<lambda>n a. lift_then s (g n a) f)"
  by (cases r) simp_all

lemma lift_update [simp]:
  "lift (s\<lparr>sh_node := n\<rparr>) r = lift s r" "lift_then (s\<lparr>sh_node := n\<rparr>) r f = lift_then s r f"
  by (cases r; simp)+

text \<open>Both sides of an equation between a thread and a handler are brought into this form.\<close>

lemmas thread_simps = exec_seq and_then_lift lift_and_then lift_then_and_then Let_def

lemma lift_then_cong: "(\<And>n a. r = Returns n a \<Longrightarrow> f n a = g n a) \<Longrightarrow> lift_then s r f = lift_then s r g"
  by (cases r) simp_all

named_theorems undisturbed \<open>threads run alone\<close>

lemma exec_on_node [undisturbed]: "exec (on_node f) s = lift s (f (sh_node s))"
  by (simp add: on_node_def lift_def)

lemma exec_look [undisturbed]: "exec (look g) s = Returns s (g (sh_node s))"
  by (simp add: look_def exec_on_node)

lemma exec_change [undisturbed]: "exec (change f) s = Returns (s\<lparr>sh_node := f (sh_node s)\<rparr>) ()"
  by (simp add: change_def exec_on_node)

lemma exec_chain [undisturbed]: "exec (on_chain_only f) s = lift s (on_chain (sh_node s) (f (nd_chain (sh_node s))))"
  by (simp add: on_chain_only_def exec_on_node)

lemma exec_on_pool [undisturbed]:
  "\<not> sh_poolMu s \<Longrightarrow> exec (on_pool f) s = Returns (s\<lparr>sh_node := fst (f (sh_node s))\<rparr>) (snd (f (sh_node s)))"
  by (simp add: on_pool_def split: prod.split)

text \<open>Calls into the block store.\<close>

lemma exec_LastBlock [undisturbed]: "exec go_LastBlock s = lift s (on_chain (sh_node s) (LastBlock (nd_chain (sh_node s))))"
  unfolding go_LastBlock_def LastBlock_def tip_section_def GetBlock_def
  by (cases "chain_RLock (nd_chain (sh_node s))")
    (auto simp: thread_simps exec_chain on_chain_def split: outcome.split)

lemma exec_AppendBlock [undisturbed]:
  "exec (go_AppendBlock b) s = lift s (on_chain (sh_node s) (AppendBlock (nd_chain (sh_node s)) b))"
  unfolding go_AppendBlock_def AppendBlock_def append_section_def
  by (cases "chain_Lock (nd_chain (sh_node s))")
    (auto simp: thread_simps exec_chain on_chain_def split: outcome.split prod.split option.split)

lemma exec_SetTip [undisturbed]:
  "exec (go_SetTip b) s = lift s (on_chain (sh_node s) (SetTip (nd_chain (sh_node s)) b))"
  unfolding go_SetTip_def SetTip_def settip_section_def
  by (cases "chain_Lock (nd_chain (sh_node s))")
    (auto simp: thread_simps exec_chain on_chain_def split: outcome.split)

text \<open>A read lock that could be taken once can be taken again, and leaves no trace.\<close>

lemma RLock_again:
  assumes "chain_RLock c = Returns c' u"
  shows "\<exists>c''. chain_RLock (chain_RUnlock c') = Returns c'' () \<and> chain_RUnlock c'' = chain_RUnlock c'"
proof (cases "ch_mu c")
  case (ReadLocked n)
  then show ?thesis using assms by (cases n) (auto simp: chain_RLock_def chain_RUnlock_def)
qed (use assms in \<open>auto simp: chain_RLock_def chain_RUnlock_def\<close>)

lemma RLock_fields:
  "chain_RLock c = Returns c' u \<Longrightarrow> ch_LastHash c' = ch_LastHash c \<and> ch_Height c' = ch_Height c \<and> ch_disk c' = ch_disk c"
  "ch_LastHash (chain_RUnlock c) = ch_LastHash c" "ch_Height (chain_RUnlock c) = ch_Height c" "ch_disk (chain_RUnlock c) = ch_disk c"
  by (auto simp: chain_RLock_def chain_RUnlock_def split: option.splits)

lemma exec_GetBlocksFrom [undisturbed]:
  "exec (go_GetBlocksFrom f mx) s = lift s (on_chain (sh_node s) (GetBlocksFrom (nd_chain (sh_node s)) f mx))"
proof (cases "chain_RLock (nd_chain (sh_node s))")
  case (Returns c u)
  obtain c'' where "chain_RLock (chain_RUnlock c) = Returns c'' ()" "chain_RUnlock c'' = chain_RUnlock c"
    using RLock_again [OF Returns] by blast
  then show ?thesis
    using Returns unfolding go_GetBlocksFrom_def GetBlocksFrom_def tip_section_def walk_section_def
    by (auto simp: thread_simps exec_chain on_chain_def RLock_fields split: option.split sum.split)
qed (simp_all add: go_GetBlocksFrom_def GetBlocksFrom_def tip_section_def thread_simps exec_chain on_chain_def)

lemma exec_last [undisturbed]: "exec go_last s = lift s (node_LastBlock (sh_node s))"
  by (simp add: go_last_def node_LastBlock_def thread_simps undisturbed)

lemma exec_height [undisturbed]: "exec go_height s = lift s (getHeight (sh_node s))"
  by (simp add: go_height_def getHeight_def thread_simps undisturbed)

lemma exec_Remove [undisturbed]:
  "\<not> sh_poolMu s \<Longrightarrow> exec (go_Remove cl txs) s = Returns (s\<lparr>sh_node := node_Remove cl (sh_node s) txs\<rparr>) ()"
  by (simp add: go_Remove_def undisturbed) (simp add: node_Remove_def Mempool_Remove_def)

lemma exec_Pending [undisturbed]:
  "\<not> sh_poolMu s \<Longrightarrow> exec (go_Pending k) s = Returns s (Mempool_Pending (nd_pool (sh_node s)) k)"
  by (simp add: go_Pending_def undisturbed)

lemma exec_TryConnect [undisturbed]: "exec (go_TryConnect addr) s = Returns (s\<lparr>sh_node := node_TryConnect (sh_node s) addr\<rparr>) ()"
  unfolding go_TryConnect_def node_TryConnect_def TryConnect_def
  by (auto simp: thread_simps undisturbed dial_step_def add_dialed_def split: option.split prod.split)

lemma exec_steps [undisturbed]:
  "exec go_Lock s = lift s (lock_blockMu (sh_node s))"
  "exec go_Unlock s = Returns (s\<lparr>sh_node := unlock_blockMu (sh_node s)\<rparr>) ()"
  "exec go_panic s = Panics s"
  "exec (go_HasBlock h) s = lift s (on_chain (sh_node s) (HasBlock (nd_chain (sh_node s)) h))"
  "exec (go_WriteBlock b) s = lift s (on_chain (sh_node s) (WriteBlock (nd_chain (sh_node s)) b))"
  "exec (go_Broadcast kind payload) s = Returns (s\<lparr>sh_node := node_Broadcast (sh_node s) kind payload\<rparr>) ()"
  "exec (go_Send c kind payload) s =
     Returns (s\<lparr>sh_node := (sh_node s)\<lparr>nd_net := fst (conn_Send (nd_net (sh_node s)) c kind payload)\<rparr>\<rparr>) ()"
  by (simp_all add: go_Lock_def go_Unlock_def go_panic_def go_HasBlock_def go_WriteBlock_def go_Broadcast_def go_Send_def
      undisturbed)

lemma exec_ApplyBlock [undisturbed]:
  "exec (go_ApplyBlock L b) s = Returns (s\<lparr>sh_node := fst (node_ApplyBlock L (sh_node s) b)\<rparr>) (snd (node_ApplyBlock L (sh_node s) b))"
  by (simp add: go_ApplyBlock_def undisturbed split: prod.split)

lemma exec_double_sign [undisturbed]:
  "exec (go_double_sign b) s = Returns (s\<lparr>sh_node := fst (double_sign (sh_node s) b)\<rparr>) (snd (double_sign (sh_node s) b))"
  by (simp add: go_double_sign_def undisturbed split: prod.split)

section \<open>The handlers of blocks\<close>

lemma exec_extend [undisturbed]:
  "\<not> sh_poolMu s \<Longrightarrow> exec (go_extend cl L vset bs) s = lift s (extend_loop cl L vset bs (sh_node s))"
proof (induction bs arbitrary: s)
  case (Cons x bs)
  then show ?case
    by (cases x) (auto simp: thread_simps undisturbed intro!: lift_then_cong split: prod.split bool.split option.split)
qed simp

lemma exec_sync [undisturbed]:
  "\<not> sh_poolMu s \<Longrightarrow> exec (go_sync cl L env bs) s = lift s (sync_loop cl L env bs (sh_node s))"
proof (induction bs arbitrary: s)
  case (Cons x bs)
  then show ?case
    by (cases x) (auto simp: thread_simps undisturbed intro!: lift_then_cong split: prod.split option.split)
qed simp

lemma exec_write_blocks [undisturbed]: "exec (go_write_blocks bs) s = lift s (write_blocks bs (sh_node s))"
  by (induction bs arbitrary: s) (auto simp: thread_simps undisturbed intro!: lift_then_cong)

lemma exec_remove_all [undisturbed]:
  "\<not> sh_poolMu s \<Longrightarrow> exec (go_remove_all cl bs) s =
     Returns (s\<lparr>sh_node := fold (\<lambda>b n. node_Remove cl n (blk_Transactions b)) bs (sh_node s)\<rparr>) ()"
  by (induction bs arbitrary: s) (simp_all add: thread_simps undisturbed)

lemma exec_reorg [undisturbed]:
  "\<not> sh_poolMu s \<Longrightarrow> exec (go_reorg cl L env bs) s = lift s (reorg cl L env bs (sh_node s))"
  unfolding go_reorg_def reorg_def replay_step_def
  by (auto simp: thread_simps undisturbed intro!: lift_then_cong split: prod.split option.split)

lemma exec_other_chain [undisturbed]:
  "\<not> sh_poolMu s \<Longrightarrow> exec (go_other_chain cl L env c l body) s = lift s (other_chain cl L env c l body (sh_node s))"
  unfolding go_other_chain_def other_chain_def
  by (auto simp: Let_def undisturbed split: go_call.split bool.split option.split)

lemma exec_blocks [undisturbed]:
  "\<not> sh_poolMu s \<Longrightarrow> exec (go_blocks cl L env c body) s = lift s (handle_blocks cl L env c body (sh_node s))"
  unfolding go_blocks_def handle_blocks_def
  by (auto simp: thread_simps undisturbed intro!: lift_then_cong split: option.split)

lemma exec_new_block [undisturbed]:
  "\<not> sh_poolMu s \<Longrightarrow> exec (go_new_block cl L b) s = lift s (handle_new_block cl L b (sh_node s))"
  unfolding go_new_block_def handle_new_block_def accept_block_def
  by (auto simp: thread_simps undisturbed intro!: lift_then_cong split: prod.split bool.split option.split)

lemma exec_produce [undisturbed]:
  "\<not> sh_poolMu s \<Longrightarrow> exec (go_produce cl L env now seed) s = lift s (produce cl L env now seed (sh_node s))"
  unfolding go_produce_def produce_def
  by (auto simp: thread_simps undisturbed intro!: lift_then_cong
      split: prod.split sum.split option.split go_call.split)

section \<open>All events\<close>

text \<open>\<^verbatim>\<open>Add\<close> changes the history too: from \<open>s\<close>, with the pool mutex free, the thread has the outcome
  \<open>r\<close> on the node and gives the mutex back.\<close>

definition runs_at :: "'db Shared \<Rightarrow> ('db Shared, 'a) thread \<Rightarrow> ('db Node, 'a) outcome \<Rightarrow> bool" where
  "runs_at s t r \<longleftrightarrow> (\<not> sh_poolMu s \<longrightarrow>
     map_outcome sh_node id (exec t s) = r \<and> \<not> sh_poolMu (final_state (exec t s)))"

lemma runs_at_lift: "(\<not> sh_poolMu s \<Longrightarrow> exec t s = lift s r) \<Longrightarrow> runs_at s t r"
  by (cases r) (auto simp: runs_at_def)

lemma runs_at_Done: "runs_at s (Done a) (Returns (sh_node s) a)"
  by (simp add: runs_at_def)

lemma runs_at_seq:
  assumes "runs_at s t r" and "\<And>s' a. runs_at s' (k a) (g (sh_node s') a)"
  shows "runs_at s (seq t k) (and_then r g)"
  using assms by (cases "exec t s") (auto simp: runs_at_def exec_seq)

lemma exec_Add:
  assumes "\<not> sh_poolMu s" and "Mempool_Add cl L (Some (nd_state (sh_node s))) (nd_pool (sh_node s)) tx = (m, err)"
  shows "exec (go_Add cl L tx) s = Returns (s\<lparr>sh_node := (sh_node s)\<lparr>nd_pool := m\<rparr>,
    sh_accepted := (if err = None then TxHash cl tx # sh_accepted s else sh_accepted s)\<rparr>) err"
  using assms unfolding go_Add_def Mempool_Add_def state_check_def
  by (auto simp: exec_seq undisturbed add_enter_def add_leave_def add_append_def Let_def
      split: option.splits prod.splits if_splits)

lemma runs_at_new_tx: "runs_at s (go_new_tx cl L tx) (Returns (handle_new_tx cl L tx (sh_node s)) ())"
proof -
  obtain m err where "Mempool_Add cl L (Some (nd_state (sh_node s))) (nd_pool (sh_node s)) tx = (m, err)" by fastforce
  then show ?thesis
    by (auto simp: runs_at_def go_new_tx_def handle_new_tx_def exec_seq exec_Add undisturbed split: option.split)
qed

lemma runs_at_tx: "runs_at s (go_tx cl L rq) (Returns (fst (http_tx cl L rq (sh_node s))) ())"
proof -
  have "fst (http_tx cl L rq (sh_node s)) = (if rq_Method rq \<noteq> ''POST'' then sh_node s
      else case Option.bind (json_Decode (rq_Body rq)) (\<lambda>j. dec_tx j zero_tx) of
        None \<Rightarrow> sh_node s | Some tx \<Rightarrow> handle_new_tx cl L tx (sh_node s))"
    by (auto simp: http_tx_def handle_new_tx_def split: option.split prod.split)
  then show ?thesis
    using runs_at_new_tx [of s cl L] runs_at_Done [of s "()"] by (simp add: go_tx_def split: option.split)
qed

lemma exec_connect_all [undisturbed]:
  "exec (go_connect_all l addrs) s = Returns (s\<lparr>sh_node :=
     fold (\<lambda>addr n. if addr \<noteq> l \<and> addr \<noteq> [] then node_TryConnect n addr else n) addrs (sh_node s)\<rparr>) ()"
  by (induction addrs arbitrary: s) (auto simp: thread_simps undisturbed)

lemma exec_get_blocks [undisturbed]: "exec (go_get_blocks c req) s = lift s (handle_get_blocks c req (sh_node s))"
  unfolding go_get_blocks_def handle_get_blocks_def
  by (auto simp: thread_simps undisturbed intro!: lift_then_cong)

lemma runs_at_message: "runs_at s (go_message cl L env c kind payload) (handle_message cl L env c kind payload (sh_node s))"
proof (cases "kind = KindNewTx")
  case True
  then show ?thesis
    using runs_at_new_tx [of s cl L] runs_at_Done [of s "()"]
    by (simp add: go_message_def handle_message_def KindNewTx_def KindHello_def KindGetBlocks_def KindBlocks_def
        KindNewBlock_def split: option.split)
next
  case False
  then show ?thesis
    by (intro runs_at_lift) (auto simp: go_message_def handle_message_def undisturbed split: option.split)
qed

lemma runs_at_loop: "runs_at s (go_loop cl L env c ms) (message_loop cl L env c ms (sh_node s))"
proof (induction ms arbitrary: s)
  case Nil
  show ?case using runs_at_Done [of s "()"] by simp
next
  case (Cons m ms)
  then show ?case by (cases m) (simp add: runs_at_seq [OF runs_at_message])
qed

lemma runs_at_conn: "runs_at s (go_conn cl L env c remote inp) (onConn cl L env c remote inp (sh_node s))"
proof -
  obtain p nt ok where add: "AddPeer (nd_peers (sh_node s)) (nd_net (sh_node s)) c remote False = (p, nt, ok)"
    by (cases "AddPeer (nd_peers (sh_node s)) (nd_net (sh_node s)) c remote False")
  let ?n = "(sh_node s)\<lparr>nd_peers := p, nd_net := nt\<rparr>"
  let ?rest = "\<lambda>n (_ :: unit). case RemovePeer (nd_peers n) (nd_net n) remote of (p, nt) \<Rightarrow> Returns (n\<lparr>nd_peers := p, nd_net := nt\<rparr>) ()"
  have "runs_at s' (change (\<lambda>n. case RemovePeer (nd_peers n) (nd_net n) remote of (p, nt) \<Rightarrow> n\<lparr>nd_peers := p, nd_net := nt\<rparr>))
      (?rest (sh_node s') ())" for s' :: "'a Shared"
    by (intro runs_at_lift) (simp add: undisturbed split: prod.split)
  then have "runs_at (s\<lparr>sh_node := ?n\<rparr>) (seq (go_loop cl L env c (read_messages inp)) (\<lambda>_.
        change (\<lambda>n. case RemovePeer (nd_peers n) (nd_net n) remote of (p, nt) \<Rightarrow> n\<lparr>nd_peers := p, nd_net := nt\<rparr>)))
      (and_then (message_loop cl L env c (read_messages inp) ?n) ?rest)"
    using runs_at_seq [OF runs_at_loop [of "s\<lparr>sh_node := ?n\<rparr>"], of _ ?rest] by simp
  then show ?thesis
    using add by (auto simp: go_conn_def onConn_def runs_at_def exec_seq undisturbed Let_def)
qed

text \<open>A goroutine whose steps nobody interrupts is the handler of its event.\<close>

lemma goroutine_alone: "runs_at s (goroutine cl L env ev) (handle_event cl L env ev (sh_node s))"
proof (cases ev)
  case (EvConn c remote inp)
  then show ?thesis by (simp add: runs_at_conn)
next
  case (EvMessage c kind payload)
  then show ?thesis by (simp add: runs_at_message)
next
  case (EvTx rq)
  then show ?thesis by (simp add: runs_at_tx)
next
  case EvSync
  then show ?thesis
    by (intro runs_at_lift)
      (auto simp: go_initial_sync_def initial_sync_def thread_simps undisturbed intro!: lift_then_cong split: option.split)
next
  case EvStatus
  then show ?thesis
    by (intro runs_at_lift) (auto simp: go_status_def http_status_def forget_def thread_simps undisturbed intro!: lift_then_cong)
next
  case (EvBlocks rq)
  then show ?thesis
    by (intro runs_at_lift)
      (auto simp: go_page_blocks_def http_blocks_def forget_def thread_simps undisturbed intro!: lift_then_cong split: option.split)
next
  case (EvBlock rq)
  then show ?thesis
    by (intro runs_at_lift)
      (auto simp: go_page_block_def http_block_def forget_def thread_simps undisturbed intro!: lift_then_cong split: option.split)
qed (intro runs_at_lift, auto simp: go_accept_def acceptLoop_def thread_simps undisturbed intro!: lift_then_cong)+

end
