(* ===== verification/Node_Interleaving.thy ===== *)
theory Node_Interleaving
  imports Node_Threads
begin

text \<open>
  The goroutines of a node side by side. Goroutines outside the block mutex change neither the chain nor
  the ledger and only add to the pool; a goroutine inside it leaves, when it gives the mutex back, a
  ledger that is the replay of the stored chain, and has dropped no accepted transaction that is not
  in a block of the chain.
\<close>

section \<open>What others may do, and what holds when the mutex is free\<close>

definition held :: "'db Shared \<Rightarrow> bool" where
  "held s \<longleftrightarrow> nd_blockMu (sh_node s)"

definition pool_hashes :: "crypto_lib \<Rightarrow> 'db Shared \<Rightarrow> hash set" where
  "pool_hashes cl s = TxHash cl ` set (mp_txs (nd_pool (sh_node s)))"

definition others :: "crypto_lib \<Rightarrow> 'db Shared \<Rightarrow> 'db Shared \<Rightarrow> bool" where
  "others cl s s' \<longleftrightarrow> nd_chain (sh_node s') = nd_chain (sh_node s) \<and> nd_state (sh_node s') = nd_state (sh_node s) \<and>
     nd_blockMu (sh_node s') = nd_blockMu (sh_node s) \<and> pool_hashes cl s \<subseteq> pool_hashes cl s' \<and>
     set (sh_accepted s') \<subseteq> set (sh_accepted s) \<union> pool_hashes cl s'"

text \<open>No read lock is held between two steps.\<close>

definition no_readers :: "Chain \<Rightarrow> bool" where
  "no_readers c \<longleftrightarrow> ch_mu c = Unlocked \<or> ch_mu c = WriteLocked"

text \<open>What always holds: the invariant of the node, room in the pool while \<^verbatim>\<open>Add\<close> is under way, and the
  assumptions on the libraries and the key.\<close>

definition shared_ok :: "crypto_lib \<Rightarrow> 'db leveldb \<Rightarrow> Env \<Rightarrow> 'db Shared \<Rightarrow> bool" where
  "shared_ok cl L env s \<longleftrightarrow> digest_size cl \<and> leveldb_ok L \<and> writes_ok L \<and> length (env_validatorAddr env) = 20 \<and>
     node_ok cl (sh_node s) \<and> no_readers (nd_chain (sh_node s)) \<and>
     (sh_poolMu s \<longrightarrow> int (length (mp_txs (nd_pool (sh_node s)))) < mp_max (nd_pool (sh_node s)))"

definition chain_txs :: "crypto_lib \<Rightarrow> Block list \<Rightarrow> hash set" where
  "chain_txs cl bs = TxHash cl ` (\<Union>b\<in>set bs. set (blk_Transactions b))"

text \<open>The stored chain is \<open>gs\<close>, the chain at the start, and \<open>bs\<close>; the ledger is the replay of \<open>bs\<close> on the ledger at the
  start, and every transaction accepted since is pending or in one of \<open>bs\<close>.\<close>

definition synced ::
  "crypto_lib \<Rightarrow> 'db leveldb \<Rightarrow> Block list \<Rightarrow> (address \<Rightarrow> u64) \<times> (address \<Rightarrow> u64) \<Rightarrow> Block list \<Rightarrow> 'db Shared \<Rightarrow> bool" where
  "synced cl L gs st0 bs s \<longleftrightarrow> gs \<noteq> [] \<and> chain_on_disk (nd_chain (sh_node s)) (gs @ bs) \<and> healthy (ch_disk (nd_chain (sh_node s))) \<and>
     (balance_of L (st_db (nd_state (sh_node s))), nonce_of L (st_db (nd_state (sh_node s)))) = spec_replay st0 bs \<and>
     set (sh_accepted s) \<subseteq> pool_hashes cl s \<union> chain_txs cl bs"

definition recorded ::
  "crypto_lib \<Rightarrow> 'db leveldb \<Rightarrow> Block list \<Rightarrow> (address \<Rightarrow> u64) \<times> (address \<Rightarrow> u64) \<Rightarrow> 'db Shared \<Rightarrow> bool" where
  "recorded cl L gs st0 s \<longleftrightarrow> (\<exists>bs. synced cl L gs st0 bs s)"

text \<open>A new tip has a hash that no stored block has, and the height has not wrapped around.\<close>

definition fresh_tip :: "'db Shared \<Rightarrow> 'db Shared \<Rightarrow> bool" where
  "fresh_tip s s' \<longleftrightarrow> (let c = nd_chain (sh_node s); c' = nd_chain (sh_node s') in
     ch_mu c' = Unlocked \<and> (ch_LastHash c' \<noteq> ch_LastHash c \<or> ch_Height c' \<noteq> ch_Height c) \<longrightarrow>
       \<not> Hash_IsZero (ch_LastHash c') \<and> stored_block (ch_disk c) (ch_LastHash c') = None \<and> ch_Height c' + 1 \<noteq> 0)"

abbreviation out where
  "out cl L env gs st0 \<equiv> outside held (others cl) (shared_ok cl L env) (recorded cl L gs st0) fresh_tip"

abbreviation ins where
  "ins cl L env gs st0 \<equiv> inside held (others cl) (shared_ok cl L env) (recorded cl L gs st0) fresh_tip"

lemma others_refl: "others cl s s"
  by (simp add: others_def)

lemma others_trans: "others cl s s' \<Longrightarrow> others cl s' s'' \<Longrightarrow> others cl s s''"
  by (auto simp: others_def)

lemma synced_others: "others cl s s' \<Longrightarrow> synced cl L gs st0 bs s \<Longrightarrow> synced cl L gs st0 bs s'"
  by (auto simp: others_def synced_def)

section \<open>Outside the mutex\<close>

lemma out_on_node:
  assumes "\<And>n n' a. node_ok cl n \<Longrightarrow> no_readers (nd_chain n) \<Longrightarrow> f n = Returns n' a \<Longrightarrow>
      node_ok cl n' \<and> nd_chain n' = nd_chain n \<and> nd_state n' = nd_state n \<and> nd_blockMu n' = nd_blockMu n \<and> nd_pool n' = nd_pool n"
    and "\<And>a. out cl L env gs st0 (k a)"
  shows "out cl L env gs st0 (seq (on_node f) k)"
  unfolding on_node_def
proof (rule outside_atomic)
  fix s s' a
  assume ok: "shared_ok cl L env s" and "map_outcome (\<lambda>n. s\<lparr>sh_node := n\<rparr>) id (f (sh_node s)) = Returns s' a"
  then obtain n' where n': "f (sh_node s) = Returns n' a" "s' = s\<lparr>sh_node := n'\<rparr>" by (cases "f (sh_node s)") auto
  then show "shared_ok cl L env s' \<and> (others cl s s' \<and> out cl L env gs st0 (k a) \<or>
      \<not> held s \<and> held s' \<and> (recorded cl L gs st0 s \<longrightarrow> ins cl L env gs st0 s' (k a)))"
    using assms(1) [OF _ _ n'(1)] ok assms(2) by (auto simp: shared_ok_def others_def pool_hashes_def)
qed

lemma out_look: "(\<And>a. out cl L env gs st0 (k a)) \<Longrightarrow> out cl L env gs st0 (seq (look f) k)"
  unfolding look_def by (rule out_on_node) auto

lemma out_change:
  assumes "\<And>n. node_ok cl n \<Longrightarrow> node_ok cl (f n) \<and> nd_chain (f n) = nd_chain n \<and> nd_state (f n) = nd_state n \<and>
      nd_blockMu (f n) = nd_blockMu n \<and> nd_pool (f n) = nd_pool n"
    and "out cl L env gs st0 (k ())"
  shows "out cl L env gs st0 (seq (change f) k)"
  unfolding change_def by (rule out_on_node) (use assms in auto)

lemma out_atomic:
  assumes "\<And>s s' a. shared_ok cl L env s \<Longrightarrow> f s = Returns s' a \<Longrightarrow> shared_ok cl L env s' \<and> others cl s s'"
    and "\<And>s s' a. shared_ok cl L env s \<Longrightarrow> f s = Returns s' a \<Longrightarrow> out cl L env gs st0 (k a)"
  shows "out cl L env gs st0 (seq (atomic f) k)"
  by (rule outside_atomic) (use assms in blast)

text \<open>Sections of the block store that only read.\<close>

definition reads_only :: "(Chain \<Rightarrow> (Chain, 'a) outcome) \<Rightarrow> bool" where
  "reads_only f \<longleftrightarrow> (\<forall>c c' a. no_readers c \<longrightarrow> f c = Returns c' a \<longrightarrow> c' = c)"

lemma RLock_no_readers:
  assumes "no_readers c" and "chain_RLock c = Returns c' u"
  shows "ch_mu c = Unlocked" and "chain_RUnlock c' = c"
  using assms by (auto simp: no_readers_def chain_RUnlock_def)

lemma reads_only_under_lock:
  assumes "\<And>c c' a. f c = Returns c' a \<Longrightarrow> c' = c"
  shows "reads_only (\<lambda>c. and_then (chain_RLock c) (\<lambda>c _. f (chain_RUnlock c)))"
  unfolding reads_only_def and_then_Returns_iff using assms by (metis RLock_no_readers(2))

lemma reads_only_sections: "reads_only tip_section" "reads_only (\<lambda>c. GetBlock c h)" "reads_only (\<lambda>c. HasBlock c h)"
    "reads_only (walk_section f mx tip)"
proof -
  show "reads_only tip_section" "reads_only (\<lambda>c. GetBlock c h)" "reads_only (\<lambda>c. HasBlock c h)"
    by (auto simp: reads_only_def tip_section_def GetBlock_def HasBlock_def and_then_Returns_iff dest: RLock_no_readers(2))
  show "reads_only (walk_section f mx tip)"
    unfolding walk_section_def Let_def
    by (rule reads_only_under_lock) (auto split: option.splits sum.splits if_splits)
qed

lemma out_section: "reads_only f \<Longrightarrow> (\<And>a. out cl L env gs st0 (k a)) \<Longrightarrow> out cl L env gs st0 (seq (on_chain_only f) k)"
  unfolding on_chain_only_def
  by (rule out_on_node) (auto simp: reads_only_def on_chain_def split: outcome.splits)

lemma out_pool_read:
  assumes "\<And>a. out cl L env gs st0 (k a)"
  shows "out cl L env gs st0 (seq (on_pool (\<lambda>n. (n, v n))) k)"
  unfolding on_pool_def by (rule outside_atomic) (use assms in \<open>auto simp: others_refl split: if_splits\<close>)

lemma out_LastBlock: "(\<And>r. out cl L env gs st0 (k r)) \<Longrightarrow> out cl L env gs st0 (seq go_LastBlock k)"
  unfolding go_LastBlock_def seq_assoc
  by (rule out_section) (auto simp: seq_assoc intro!: reads_only_sections out_section)

lemma out_last: "(\<And>r. out cl L env gs st0 (k r)) \<Longrightarrow> out cl L env gs st0 (seq go_last k)"
  unfolding go_last_def seq_assoc by (rule out_LastBlock) simp

lemma out_height: "(\<And>r. out cl L env gs st0 (k r)) \<Longrightarrow> out cl L env gs st0 (seq go_height k)"
  unfolding go_height_def seq_assoc by (rule out_last) simp

lemma out_GetBlocksFrom: "(\<And>r. out cl L env gs st0 (k r)) \<Longrightarrow> out cl L env gs st0 (seq (go_GetBlocksFrom f mx) k)"
  unfolding go_GetBlocksFrom_def Let_def seq_assoc
  by (rule out_section) (auto intro!: reads_only_sections out_section)

lemma out_Broadcast: "out cl L env gs st0 (k ()) \<Longrightarrow> out cl L env gs st0 (seq (go_Broadcast kind p) k)"
  unfolding go_Broadcast_def by (rule out_change) (auto simp: node_Broadcast_def)

lemma out_Send: "out cl L env gs st0 (k ()) \<Longrightarrow> out cl L env gs st0 (seq (go_Send c kind p) k)"
  unfolding go_Send_def by (rule out_change) auto

lemma node_ok_add_dialed: "node_ok cl n \<Longrightarrow> node_ok cl (add_dialed c remote n)"
  using peers_ok_addPeer [of "nd_peers n" "nd_net n" c remote False]
  by (auto simp: add_dialed_def node_ok_def split: prod.splits)

lemma add_dialed_other:
  "nd_chain (add_dialed c remote n) = nd_chain n" "nd_state (add_dialed c remote n) = nd_state n"
  "nd_blockMu (add_dialed c remote n) = nd_blockMu n" "nd_pool (add_dialed c remote n) = nd_pool n"
  by (simp_all add: add_dialed_def split: prod.split)

lemma out_TryConnect: "out cl L env gs st0 (k ()) \<Longrightarrow> out cl L env gs st0 (seq (go_TryConnect addr) k)"
  unfolding go_TryConnect_def seq_assoc
proof (rule out_look)
  fix p
  assume k: "out cl L env gs st0 (k ())"
  have dial: "out cl L env gs st0 (seq (on_node (dial_step addr)) (\<lambda>r. seq (case r of None \<Rightarrow> Done ()
      | Some (c, remote) \<Rightarrow> change (add_dialed c remote)) k))"
  proof (rule out_on_node)
    show "out cl L env gs st0 (seq (case r of None \<Rightarrow> Done () | Some (c, remote) \<Rightarrow> change (add_dialed c remote)) k)" for r
      using k by (auto simp: add_dialed_other intro!: out_change node_ok_add_dialed split: option.split)
  qed (auto simp: dial_step_def node_ok_def split: prod.splits)
  with k show "out cl L env gs st0 (seq (if addr = [] \<or> addr = ps_listenAddr p then Done ()
      else if ps_maxPeers p \<le> int (length (ps_peers p)) then Done ()
      else seq (on_node (dial_step addr)) (\<lambda>r. case r of None \<Rightarrow> Done () | Some (c, remote) \<Rightarrow> change (add_dialed c remote))) k)"
    by (simp add: seq_assoc)
qed

lemma out_connect_all: "out cl L env gs st0 (k ()) \<Longrightarrow> out cl L env gs st0 (seq (go_connect_all l addrs) k)"
  by (induction addrs) (auto simp: seq_assoc intro!: out_TryConnect)

text \<open>\<^verbatim>\<open>Add\<close>: the transaction enters a pool that still has room, since nobody else may touch the pool.\<close>

lemma out_leave: "out cl L env gs st0 (k err) \<Longrightarrow> out cl L env gs st0 (seq (atomic (add_leave err)) k)"
  by (rule outside_atomic)
    (auto simp: add_leave_def shared_ok_def others_def pool_hashes_def split: if_splits)

lemma add_append_ok:
  assumes ok: "shared_ok cl L env s" and tx: "VerifySignature cl tx" "SatisfiesMinFee tx" "wf_tx tx"
    and ap: "add_append cl tx s = Returns s' err"
  shows "shared_ok cl L env s' \<and> others cl s s'"
proof (cases "has_hash cl (TxHash cl tx) (mp_txs (nd_pool (sh_node s)))")
  case True
  then show ?thesis
    using ap ok by (auto simp: add_append_def add_leave_def Let_def shared_ok_def others_def pool_hashes_def split: if_splits)
next
  case False
  then have "TxHash cl tx \<notin> TxHash cl ` set (mp_txs (nd_pool (sh_node s)))" by (simp add: has_hash_iff)
  with False show ?thesis
    using ap ok tx
    by (auto simp: add_append_def add_leave_def Let_def shared_ok_def others_def pool_hashes_def node_ok_def mempool_ok_def
        split: if_splits)
qed

lemma out_append:
  assumes "VerifySignature cl tx" and "SatisfiesMinFee tx" and "wf_tx tx" and "\<And>err. out cl L env gs st0 (k err)"
  shows "out cl L env gs st0 (seq (atomic (add_append cl tx)) k)"
  by (rule out_atomic) (rule add_append_ok [OF _ assms(1-3)] assms(4); assumption)+

lemma out_Add:
  assumes "wf_tx tx" and k: "\<And>err. out cl L env gs st0 (k err)"
  shows "out cl L env gs st0 (seq (go_Add cl L tx) k)"
  unfolding go_Add_def seq_assoc
proof (rule out_atomic, goal_cases)
  case (1 s s' err)
  then show ?case
    by (auto simp: add_enter_def Let_def shared_ok_def others_def pool_hashes_def split: if_splits)
next
  case (2 s s' err)
  then show ?case
    using assms
    by (auto simp: seq_assoc add_enter_def Let_def intro!: out_look out_leave out_append split: option.split if_splits)
qed

section \<open>Inside the mutex\<close>

text \<open>The mutex is held, the store and the ledger agree on \<open>bs\<close>, and \<open>P\<close> holds of the chain.\<close>

definition mid ::
  "crypto_lib \<Rightarrow> 'db leveldb \<Rightarrow> Env \<Rightarrow> Block list \<Rightarrow> (address \<Rightarrow> u64) \<times> (address \<Rightarrow> u64) \<Rightarrow> (Chain \<Rightarrow> bool) \<Rightarrow> Block list \<Rightarrow>
   'db Shared \<Rightarrow> bool" where
  "mid cl L env gs st0 P bs s \<longleftrightarrow> shared_ok cl L env s \<and> held s \<and> synced cl L gs st0 bs s \<and> P (nd_chain (sh_node s))"

lemma mid_others: "mid cl L env gs st0 P bs s \<Longrightarrow> others cl s s' \<Longrightarrow> shared_ok cl L env s' \<Longrightarrow> mid cl L env gs st0 P bs s'"
  using synced_others [of cl s s' L gs st0 bs] by (auto simp: mid_def others_def held_def)

lemma mid_free: "mid cl L env gs st0 P bs s \<Longrightarrow> ch_mu (nd_chain (sh_node s)) = Unlocked"
  by (simp add: mid_def synced_def chain_on_disk_def)

text \<open>A step of a goroutine that relies on \<open>A\<close>, which the others keep.\<close>

lemma ins_stable:
  assumes "A s0" and stable: "\<And>s s'. A s \<Longrightarrow> others cl s s' \<Longrightarrow> shared_ok cl L env s' \<Longrightarrow> A s'"
    and step: "\<And>s n' a. A s \<Longrightarrow> fresh_tip s (s\<lparr>sh_node := n'\<rparr>) \<Longrightarrow> f (sh_node s) = Returns n' a \<Longrightarrow>
      shared_ok cl L env (s\<lparr>sh_node := n'\<rparr>) \<and> nd_blockMu n' \<and> ins cl L env gs st0 (s\<lparr>sh_node := n'\<rparr>) (k a)"
  shows "ins cl L env gs st0 s0 (seq (on_node f) k)"
  unfolding on_node_def
proof (rule inside_atomic, goal_cases)
  case (1 s s' a)
  then obtain n' where n': "f (sh_node s) = Returns n' a" "s' = s\<lparr>sh_node := n'\<rparr>" by (cases "f (sh_node s)") auto
  show ?case using step [OF stable [OF assms(1) 1(1,2)] _ n'(1)] 1(3) n'(2) by (simp add: held_def)
qed

lemma ins_mid:
  assumes "mid cl L env gs st0 P bs s0"
    and "\<And>s n' a. mid cl L env gs st0 P bs s \<Longrightarrow> fresh_tip s (s\<lparr>sh_node := n'\<rparr>) \<Longrightarrow> f (sh_node s) = Returns n' a \<Longrightarrow>
      shared_ok cl L env (s\<lparr>sh_node := n'\<rparr>) \<and> nd_blockMu n' \<and> ins cl L env gs st0 (s\<lparr>sh_node := n'\<rparr>) (k a)"
  shows "ins cl L env gs st0 s0 (seq (on_node f) k)"
  using assms(1) mid_others assms(2) by (rule ins_stable)

text \<open>Steps that keep the agreement.\<close>

lemma ins_keep:
  assumes "mid cl L env gs st0 P bs s0"
    and "\<And>s n' a. mid cl L env gs st0 P bs s \<Longrightarrow> f (sh_node s) = Returns n' a \<Longrightarrow> mid cl L env gs st0 (Q a) bs (s\<lparr>sh_node := n'\<rparr>)"
    and "\<And>s a. mid cl L env gs st0 (Q a) bs s \<Longrightarrow> ins cl L env gs st0 s (k a)"
  shows "ins cl L env gs st0 s0 (seq (on_node f) k)"
  using assms(1)
proof (rule ins_mid)
  show "shared_ok cl L env (s\<lparr>sh_node := n'\<rparr>) \<and> nd_blockMu n' \<and> ins cl L env gs st0 (s\<lparr>sh_node := n'\<rparr>) (k a)"
    if "mid cl L env gs st0 P bs s" and "f (sh_node s) = Returns n' a" for s n' a
    using assms(2) [OF that] assms(3) [of a "s\<lparr>sh_node := n'\<rparr>"] by (simp add: mid_def held_def)
qed

lemma ins_look:
  assumes "mid cl L env gs st0 P bs s0" and "\<And>s a. mid cl L env gs st0 P bs s \<Longrightarrow> ins cl L env gs st0 s (k a)"
  shows "ins cl L env gs st0 s0 (seq (look f) k)"
  unfolding look_def using assms(1) by (rule ins_keep [where Q = "\<lambda>_. P"]) (auto intro: assms(2))

lemma ins_section:
  assumes "mid cl L env gs st0 P bs s0" and "reads_only f"
    and "\<And>s a. mid cl L env gs st0 P bs s \<Longrightarrow> f (nd_chain (sh_node s)) = Returns (nd_chain (sh_node s)) a \<Longrightarrow> ins cl L env gs st0 s (k a)"
  shows "ins cl L env gs st0 s0 (seq (on_chain_only f) k)"
  unfolding on_chain_only_def using assms(1)
proof (rule ins_mid)
  fix s n' a
  assume m: "mid cl L env gs st0 P bs s" and "on_chain (sh_node s) (f (nd_chain (sh_node s))) = Returns n' a"
  then obtain c where c: "f (nd_chain (sh_node s)) = Returns c a" "n' = (sh_node s)\<lparr>nd_chain := c\<rparr>"
    by (auto simp: on_chain_def split: outcome.splits)
  then have "c = nd_chain (sh_node s)" using assms(2) m unfolding reads_only_def mid_def shared_ok_def by blast
  with c m assms(3) [OF m, of a]
  show "shared_ok cl L env (s\<lparr>sh_node := n'\<rparr>) \<and> nd_blockMu n' \<and> ins cl L env gs st0 (s\<lparr>sh_node := n'\<rparr>) (k a)"
    by (simp add: mid_def held_def)
qed

lemma mid_tip:
  assumes "mid cl L env gs st0 P bs s"
  shows "tip_block (nd_chain (sh_node s)) = Inr (Some (last (gs @ bs)))"
    and "\<not> Hash_IsZero (ch_LastHash (nd_chain (sh_node s)))"
    and "read_block (ch_disk (nd_chain (sh_node s))) (ch_LastHash (nd_chain (sh_node s))) = Inr (last (gs @ bs))"
proof -
  have c: "chain_on_disk (nd_chain (sh_node s)) (gs @ bs)" "gs @ bs \<noteq> []" using assms by (simp_all add: mid_def synced_def)
  show t: "tip_block (nd_chain (sh_node s)) = Inr (Some (last (gs @ bs)))" by (rule chain_tip(1) [OF c])
  then show z: "\<not> Hash_IsZero (ch_LastHash (nd_chain (sh_node s)))" by (auto simp: tip_block_def split: if_splits)
  show "read_block (ch_disk (nd_chain (sh_node s))) (ch_LastHash (nd_chain (sh_node s))) = Inr (last (gs @ bs))"
    using t z by (auto simp: tip_block_def split: sum.splits)
qed

lemma ins_LastBlock:
  assumes "mid cl L env gs st0 P bs s0" and "\<And>s. mid cl L env gs st0 P bs s \<Longrightarrow> ins cl L env gs st0 s (k (Inr (Some (last (gs @ bs)))))"
  shows "ins cl L env gs st0 s0 (seq go_LastBlock k)"
  unfolding go_LastBlock_def seq_assoc using assms(1) reads_only_sections(1)
proof (rule ins_section, goal_cases)
  case (1 s a)
  define h where "h = ch_LastHash (nd_chain (sh_node s))"
  have m: "mid cl L env gs st0 (\<lambda>c. P c \<and> ch_LastHash c = h) bs s" using 1(1) by (simp add: mid_def h_def)
  have a: "fst a = h" using 1(2) mid_free [OF 1(1)] by (auto simp: tip_section_def h_def)
  have rest: "ins cl L env gs st0 s (seq (on_chain_only (\<lambda>c. GetBlock c h)) (\<lambda>r. k (case r of Inl e \<Rightarrow> Inl e | Inr b \<Rightarrow> Inr (Some b))))"
    using m reads_only_sections(2)
  proof (rule ins_section)
    fix s' r
    assume m': "mid cl L env gs st0 (\<lambda>c. P c \<and> ch_LastHash c = h) bs s'"
      and r: "GetBlock (nd_chain (sh_node s')) h = Returns (nd_chain (sh_node s')) r"
    have m2: "mid cl L env gs st0 P bs s'" and h': "ch_LastHash (nd_chain (sh_node s')) = h" using m' by (simp_all add: mid_def)
    have "r = Inr (last (gs @ bs))" using r mid_tip(3) [OF m2] mid_free [OF m2] h' by (simp add: GetBlock_free)
    then show "ins cl L env gs st0 s' (k (case r of Inl e \<Rightarrow> Inl e | Inr b \<Rightarrow> Inr (Some b)))" using assms(2) [OF m2] by simp
  qed
  obtain x where "a = (h, x)" using a by (cases a) simp
  then show ?case using mid_tip(2) [OF 1(1)] rest by (simp add: h_def seq_assoc)
qed

lemma ins_last:
  assumes "mid cl L env gs st0 P bs s0" and "\<And>s. mid cl L env gs st0 P bs s \<Longrightarrow> ins cl L env gs st0 s (k (Some (last (gs @ bs))))"
  shows "ins cl L env gs st0 s0 (seq go_last k)"
  unfolding go_last_def seq_assoc using assms(1) by (rule ins_LastBlock) (simp add: assms(2) del: last.simps)

lemma ins_Unlock:
  assumes "mid cl L env gs st0 P bs s0" and "out cl L env gs st0 (k ())"
  shows "ins cl L env gs st0 s0 (seq go_Unlock k)"
  unfolding go_Unlock_def change_def on_node_def
proof (rule inside_atomic, goal_cases)
  case (1 s s' a)
  have m: "mid cl L env gs st0 P bs s" using mid_others [OF assms(1) 1(1,2)] .
  have s': "s' = s\<lparr>sh_node := unlock_blockMu (sh_node s)\<rparr>" using 1(4) by auto
  have "synced cl L gs st0 bs s'" using m by (simp add: s' mid_def synced_def unlock_blockMu_def pool_hashes_def)
  moreover have "\<not> held s'" "shared_ok cl L env s'" using 1(2) by (simp_all add: s' held_def unlock_blockMu_def shared_ok_def)
  ultimately show ?case using assms(2) by (auto simp: recorded_def)
qed

lemma ins_panic: "ins cl L env gs st0 s0 (seq go_panic k)"
  unfolding go_panic_def on_node_def by (rule inside_atomic) simp

lemma ins_HasBlock:
  assumes "mid cl L env gs st0 P bs s0"
    and "\<And>s has. mid cl L env gs st0 (\<lambda>c. has \<or> stored_block (ch_disk c) h = None) bs s \<Longrightarrow> ins cl L env gs st0 s (k has)"
  shows "ins cl L env gs st0 s0 (seq (go_HasBlock h) k)"
  unfolding go_HasBlock_def using assms(1) reads_only_sections(3)
proof (rule ins_section)
  fix s a
  assume m: "mid cl L env gs st0 P bs s" and h: "HasBlock (nd_chain (sh_node s)) h = Returns (nd_chain (sh_node s)) a"
  have "a \<or> stored_block (ch_disk (nd_chain (sh_node s))) h = None"
    using h mid_free [OF m] by (auto simp: HasBlock_free stored_block_def split: sum.splits)
  then show "ins cl L env gs st0 s (k a)" using m assms(2) by (simp add: mid_def)
qed

text \<open>Changes that keep the chain, the accounts and the pool.\<close>

lemma mid_update:
  assumes "mid cl L env gs st0 P bs s" and "node_ok cl n" and "nd_chain n = nd_chain (sh_node s)" and "nd_blockMu n"
    and "nd_pool n = nd_pool (sh_node s)"
    and "balance_of L (st_db (nd_state n)) = balance_of L (st_db (nd_state (sh_node s)))"
    and "nonce_of L (st_db (nd_state n)) = nonce_of L (st_db (nd_state (sh_node s)))"
  shows "mid cl L env gs st0 P bs (s\<lparr>sh_node := n\<rparr>)"
  using assms by (simp add: mid_def shared_ok_def held_def synced_def pool_hashes_def)

lemma ins_double_sign:
  assumes "mid cl L env gs st0 P bs s0" and "\<And>s dup. mid cl L env gs st0 P bs s \<Longrightarrow> ins cl L env gs st0 s (k dup)"
  shows "ins cl L env gs st0 s0 (seq (go_double_sign b) k)"
  unfolding go_double_sign_def using assms(1)
proof (rule ins_keep)
  fix s n' a
  assume m: "mid cl L env gs st0 P bs s" and "(case double_sign (sh_node s) b of (n, dup) \<Rightarrow> Returns n dup) = Returns n' a"
  then have d: "double_sign (sh_node s) b = (n', a)" by (auto split: prod.splits)
  obtain t where "n' = (sh_node s)\<lparr>nd_doubleSign := t\<rparr>"
    using double_sign_result [of "sh_node s" b] d by (metis prod.inject)
  then show "mid cl L env gs st0 P bs (s\<lparr>sh_node := n'\<rparr>)"
    using m by (intro mid_update) (simp_all add: mid_def shared_ok_def held_def)
qed (rule assms(2))

lemma Slash_accounts:
  assumes "leveldb_ok L" and "writes_ok L"
  shows "balance_of L (st_db (fst (SlashValidator L st addr))) = balance_of L (st_db st)"
    and "nonce_of L (st_db (fst (SlashValidator L st addr))) = nonce_of L (st_db st)"
proof -
  obtain st' err where sl: "SlashValidator L st addr = (st', err)" by fastforce
  have "err = None \<or> st' = st"
    using sl assms(2) by (auto simp: SlashValidator_def Let_def case_prod_beta writes_ok_def split: get_result.splits option.splits)
  then show "balance_of L (st_db (fst (SlashValidator L st addr))) = balance_of L (st_db st)"
    and "nonce_of L (st_db (fst (SlashValidator L st addr))) = nonce_of L (st_db st)"
    using sl SlashValidator_accounts [OF assms(1), of st addr st'] by auto
qed

lemma ins_Slash:
  assumes "mid cl L env gs st0 P bs s0" and "\<And>s. mid cl L env gs st0 P bs s \<Longrightarrow> ins cl L env gs st0 s (k ())"
  shows "ins cl L env gs st0 s0 (seq (change (\<lambda>n. node_Slash L n addr)) k)"
  unfolding change_def using assms(1)
proof (rule ins_keep)
  fix s n' and a :: unit
  assume m: "mid cl L env gs st0 P bs s" and "Returns (node_Slash L (sh_node s) addr) () = Returns n' a"
  then have n': "n' = node_Slash L (sh_node s) addr" by simp
  show "mid cl L env gs st0 P bs (s\<lparr>sh_node := n'\<rparr>)"
    using m Slash_accounts [of L "nd_state (sh_node s)" addr] unfolding n'
    by (intro mid_update) (simp_all add: mid_def shared_ok_def held_def node_Slash_def)
qed (use assms(2) in auto)

lemma ins_Send:
  assumes "mid cl L env gs st0 P bs s0" and "\<And>s. mid cl L env gs st0 P bs s \<Longrightarrow> ins cl L env gs st0 s (k ())"
  shows "ins cl L env gs st0 s0 (seq (go_Send c kind p) k)"
  unfolding go_Send_def change_def using assms(1)
  by (rule ins_keep [where Q = "\<lambda>_. P"]) (auto simp: mid_def shared_ok_def held_def synced_def pool_hashes_def intro: assms(2))

text \<open>A block file that is not one of the chain changes nothing.\<close>

lemma chain_on_disk_write:
  assumes "chain_on_disk c bs" and "stored_block (ch_disk c) (blk_Hash b) = None"
    and "os_WriteFile (ch_disk c) (block_file (blk_Hash b)) txt = (d, e)"
  shows "chain_on_disk (c\<lparr>ch_disk := d\<rparr>) bs"
proof -
  have l: "linked (ch_disk c) 0 zero_hash bs" using assms(1) by (simp add: chain_on_disk_def)
  have "read_block d (blk_Hash x) = read_block (ch_disk c) (blk_Hash x)" if "x \<in> set bs" for x
  proof -
    have "blk_Hash x \<noteq> blk_Hash b" using linked_read [OF l that] assms(2) by (auto simp: stored_block_def)
    then show ?thesis using os_WriteFile_other [OF assms(3)] by (intro read_block_cong) simp
  qed
  then have "linked d 0 zero_hash bs" using linked_mono [OF l] by blast
  then show ?thesis using assms(1) by (simp add: chain_on_disk_def)
qed

lemma ins_WriteBlock:
  assumes "mid cl L env gs st0 (\<lambda>c. stored_block (ch_disk c) (blk_Hash b) = None) bs s0"
    and "\<And>s e. mid cl L env gs st0 (\<lambda>_. True) bs s \<Longrightarrow> ins cl L env gs st0 s (k e)"
  shows "ins cl L env gs st0 s0 (seq (go_WriteBlock b) k)"
  unfolding go_WriteBlock_def on_chain_only_def using assms(1)
proof (rule ins_keep)
  fix s n' a
  assume m: "mid cl L env gs st0 (\<lambda>c. stored_block (ch_disk c) (blk_Hash b) = None) bs s"
    and w: "on_chain (sh_node s) (WriteBlock (nd_chain (sh_node s)) b) = Returns n' a"
  let ?c = "nd_chain (sh_node s)"
  obtain d where d: "os_WriteFile (ch_disk ?c) (block_file (blk_Hash b)) (json_MarshalIndent (block_json b)) = (d, a)"
      "n' = (sh_node s)\<lparr>nd_chain := ?c\<lparr>ch_disk := d\<rparr>\<rparr>"
    using w mid_free [OF m] by (auto simp: WriteBlock_free on_chain_def split: prod.splits)
  have "healthy (ch_disk ?c)" using m by (simp add: mid_def synced_def)
  then have "healthy d" using d(1) by (auto simp: os_WriteFile_healthy)
  moreover have "chain_on_disk (?c\<lparr>ch_disk := d\<rparr>) (gs @ bs)"
    using m by (intro chain_on_disk_write [OF _ _ d(1)]) (auto simp: mid_def synced_def)
  ultimately show "mid cl L env gs st0 (\<lambda>_. True) bs (s\<lparr>sh_node := n'\<rparr>)"
    using m by (auto simp: d(2) mid_def shared_ok_def held_def synced_def pool_hashes_def no_readers_def)
qed (rule assms(2))

text \<open>The goroutine that reaches \<^verbatim>\<open>SetTip\<close> never gets further.\<close>

definition busy :: "crypto_lib \<Rightarrow> 'db leveldb \<Rightarrow> Env \<Rightarrow> 'db Shared \<Rightarrow> bool" where
  "busy cl L env s \<longleftrightarrow> shared_ok cl L env s \<and> held s \<and> ch_mu (nd_chain (sh_node s)) = Unlocked"

lemma busyD: "busy cl L env s \<Longrightarrow> shared_ok cl L env s" "busy cl L env s \<Longrightarrow> nd_blockMu (sh_node s)"
    "busy cl L env s \<Longrightarrow> writes_ok L"
  by (simp_all add: busy_def held_def shared_ok_def)

lemma mid_busy: "mid cl L env gs st0 P bs s \<Longrightarrow> busy cl L env s"
  using mid_free [of cl L env gs st0 P bs s] by (simp add: busy_def mid_def)

lemma mid_weaken: "mid cl L env gs st0 P bs s \<Longrightarrow> mid cl L env gs st0 (\<lambda>_. True) bs s"
  by (simp add: mid_def)

lemma ins_busy:
  assumes "busy cl L env s0"
    and "\<And>s n' a. busy cl L env s \<Longrightarrow> f (sh_node s) = Returns n' a \<Longrightarrow>
      shared_ok cl L env (s\<lparr>sh_node := n'\<rparr>) \<and> nd_blockMu n' \<and> ins cl L env gs st0 (s\<lparr>sh_node := n'\<rparr>) (k a)"
  shows "ins cl L env gs st0 s0 (seq (on_node f) k)"
  using assms(1) _ assms(2)
proof (rule ins_stable)
  show "busy cl L env s'" if "busy cl L env s" "others cl s s'" "shared_ok cl L env s'" for s s'
    using that by (simp add: busy_def others_def held_def)
qed

lemma ins_SetTip:
  assumes "busy cl L env s0"
  shows "ins cl L env gs st0 s0 (seq (go_SetTip b) k)"
  unfolding go_SetTip_def seq_assoc on_chain_only_def using assms
proof (rule ins_busy, goal_cases)
  case (1 s n' a)
  have n': "nd_chain n' = (nd_chain (sh_node s))\<lparr>ch_mu := WriteLocked, ch_Height := blk_Height b, ch_LastHash := blk_Hash b\<rparr>"
      "n' = (sh_node s)\<lparr>nd_chain := nd_chain n'\<rparr>"
    using 1 by (auto simp: busy_def settip_section_def on_chain_def)
  have "ins cl L env gs st0 (s\<lparr>sh_node := n'\<rparr>) (seq (on_node (\<lambda>n. on_chain n (Chain_Save (nd_chain n)))) j)" for j
    unfolding on_node_def
    by (rule inside_atomic) (auto simp: others_def n'(1) Chain_Save_def on_chain_def)
  moreover have "shared_ok cl L env (s\<lparr>sh_node := n'\<rparr>) \<and> nd_blockMu n'"
    using 1(1) by (subst n'(2), subst (2) n'(2)) (simp add: busy_def held_def shared_ok_def no_readers_def n'(1))
  ultimately show ?case by simp
qed

lemma ins_ApplyBlock_SetTip:
  assumes "busy cl L env s0"
  shows "ins cl L env gs st0 s0 (seq (go_ApplyBlock L b) (\<lambda>err. seq (case err of Some e \<Rightarrow> f e | None \<Rightarrow> seq (go_SetTip b) j) k))"
  unfolding go_ApplyBlock_def using assms
proof (rule ins_busy, goal_cases)
  case (1 s n' a)
  obtain st where "ApplyBlock L (nd_state (sh_node s)) b = (st, None)"
    using ApplyBlock_ok [of L] 1(1) by (auto simp: busy_def shared_ok_def)
  then have n': "n' = (sh_node s)\<lparr>nd_state := st\<rparr>" and "a = None" using 1(2) by (auto simp: node_ApplyBlock_def)
  have "busy cl L env (s\<lparr>sh_node := n'\<rparr>)" using 1(1) by (simp add: n' busy_def held_def shared_ok_def)
  moreover from this have "ins cl L env gs st0 (s\<lparr>sh_node := n'\<rparr>) (seq (go_SetTip b) (\<lambda>r. seq (j r) k))" by (rule ins_SetTip)
  ultimately show ?case using \<open>a = None\<close> by (simp add: busy_def held_def seq_assoc)
qed

lemma ins_accept:
  assumes "mid cl L env gs st0 (\<lambda>c. stored_block (ch_disk c) (blk_Hash b) = None) bs s0"
  shows "ins cl L env gs st0 s0 (seq (go_WriteBlock b) (\<lambda>_. seq (go_ApplyBlock L b) (\<lambda>err.
    seq (case err of Some e \<Rightarrow> f e | None \<Rightarrow> seq (go_SetTip b) j) k)))"
  using assms by (rule ins_WriteBlock) (rule ins_ApplyBlock_SetTip, rule mid_busy)

text \<open>A block that is not stored yet: it is evidence of a double sign, or it does not extend the tip, or the
  goroutine ends in \<^verbatim>\<open>SetTip\<close>.\<close>

lemma seq_if: "seq (if c then t else u) k = (if c then seq t k else seq u k)"
  by simp

lemma ins_offer:
  assumes "mid cl L env gs st0 (\<lambda>c. stored_block (ch_disk c) (blk_Hash b) = None) bs s0"
    and "\<And>s. mid cl L env gs st0 (\<lambda>_. True) bs s \<Longrightarrow> ins cl L env gs st0 s slashed"
    and "\<And>s. mid cl L env gs st0 (\<lambda>_. True) bs s \<Longrightarrow> ins cl L env gs st0 s ignored"
  shows "ins cl L env gs st0 s0 (seq (go_double_sign b) (\<lambda>dup.
    if dup then seq (change (\<lambda>n. node_Slash L n v)) (\<lambda>_. slashed)
    else seq go_last (\<lambda>cur. if skip cur then ignored
      else seq (go_WriteBlock b) (\<lambda>_. seq (go_ApplyBlock L b) (\<lambda>err.
        seq (case err of Some e \<Rightarrow> f e | None \<Rightarrow> seq (go_SetTip b) j) k)))))"
  using assms(1)
proof (rule ins_double_sign, goal_cases)
  case (1 s dup)
  show ?case
  proof (cases dup)
    case True
    then show ?thesis using ins_Slash [OF mid_weaken [OF 1] assms(2)] by simp
  next
    case False
    have "ins cl L env gs st0 s' (if skip cur then ignored else seq (go_WriteBlock b) (\<lambda>_. seq (go_ApplyBlock L b) (\<lambda>err.
        seq (case err of Some e \<Rightarrow> f e | None \<Rightarrow> seq (go_SetTip b) j) k)))"
      if m: "mid cl L env gs st0 (\<lambda>c. stored_block (ch_disk c) (blk_Hash b) = None) bs s'" for s' cur
      by (simp add: assms(3) [OF mid_weaken [OF m]] ins_accept [OF m])
    then have "ins cl L env gs st0 s (seq go_last (\<lambda>cur. if skip cur then ignored else seq (go_WriteBlock b)
        (\<lambda>_. seq (go_ApplyBlock L b) (\<lambda>err. seq (case err of Some e \<Rightarrow> f e | None \<Rightarrow> seq (go_SetTip b) j) k))))"
      by (rule ins_last [OF 1])
    then show ?thesis using False by simp
  qed
qed

lemma ins_extend:
  assumes "mid cl L env gs st0 P bs s0" and k: "\<And>s. mid cl L env gs st0 (\<lambda>_. True) bs s \<Longrightarrow> ins cl L env gs st0 s (k ())"
  shows "ins cl L env gs st0 s0 (seq (go_extend cl L vset xs) k)"
  using assms(1)
proof (induction xs arbitrary: s0 P)
  case Nil
  then show ?case using k mid_weaken by fastforce
next
  case (Cons x xs)
  note rest = Cons.IH [OF Cons.prems]
  show ?case
  proof (cases "\<exists>b. x = Some b \<and> ValidateBlock cl b")
    case False
    then show ?thesis using rest by (cases x) (simp_all add: ins_panic)
  next
    case True
    then obtain b where b: "x = Some b" "ValidateBlock cl b" by blast
    show ?thesis
      unfolding b(1) go_extend.simps seq_assoc seq_if if_not_P [OF b(2) [THEN not_not [THEN iffD2]]]
      using Cons.prems
    proof (rule ins_HasBlock, goal_cases)
      case (1 s has)
      show ?case
      proof (cases "has \<or> (case vset of None \<Rightarrow> False | Some vs \<Rightarrow> \<not> VerifyBlockValidator vs b)")
        case True
        then show ?thesis using Cons.IH [OF 1] by auto
      next
        case False
        then have m: "mid cl L env gs st0 (\<lambda>c. stored_block (ch_disk c) (blk_Hash b) = None) bs s"
          and no: "has = False" "(case vset of None \<Rightarrow> False | Some vs \<Rightarrow> \<not> VerifyBlockValidator vs b) = False"
          using 1 by simp_all
        show ?thesis unfolding no if_False by (rule ins_offer [OF m]) (simp_all add: Cons.IH k)
      qed
    qed
  qed
qed

lemma ins_write_blocks:
  assumes "busy cl L env s0" and "\<And>s. busy cl L env s \<Longrightarrow> ins cl L env gs st0 s (k ())"
  shows "ins cl L env gs st0 s0 (seq (go_write_blocks bs) k)"
  using assms(1)
proof (induction bs arbitrary: s0)
  case Nil
  then show ?case using assms(2) by simp
next
  case (Cons b bs)
  show ?case
    unfolding go_write_blocks.simps seq_assoc go_WriteBlock_def on_chain_only_def using Cons.prems
  proof (rule ins_busy, goal_cases)
    case (1 s n' a)
    have mu: "ch_mu (nd_chain (sh_node s)) = Unlocked" using 1(1) by (simp add: busy_def)
    obtain d where "n' = (sh_node s)\<lparr>nd_chain := (nd_chain (sh_node s))\<lparr>ch_disk := d\<rparr>\<rparr>"
      using 1(2) by (auto simp: WriteBlock_free [OF mu] on_chain_def split: prod.splits)
    then have "busy cl L env (s\<lparr>sh_node := n'\<rparr>)" using 1(1) by (simp add: busy_def held_def shared_ok_def no_readers_def)
    with Cons.IH [OF this] busyD(1,2) [OF this] show ?case by simp
  qed
qed

lemma ins_reorg:
  assumes "busy cl L env s0"
  shows "ins cl L env gs st0 s0 (seq (go_reorg cl L env bs) k)"
  unfolding go_reorg_def seq_assoc using assms
proof (rule ins_write_blocks)
  fix s
  assume "busy cl L env s"
  then show "ins cl L env gs st0 s (seq (on_node (replay_step L env bs)) (\<lambda>err. seq (case err of Some e \<Rightarrow> Done ()
      | None \<Rightarrow> seq (go_SetTip (last bs)) (\<lambda>_. go_remove_all cl bs)) k))"
  proof (rule ins_busy, goal_cases)
    case (1 s n' a)
    obtain st where "ResetAndReplay L (nd_state (sh_node s)) (env_allocation env) (env_validators env) bs = (st, None)"
      using ResetAndReplay_ok [OF busyD(3) [OF 1(1)]] by blast
    then have n': "n' = (sh_node s)\<lparr>nd_state := st\<rparr>" and "a = None" using 1(2) by (auto simp: replay_step_def)
    have b: "busy cl L env (s\<lparr>sh_node := n'\<rparr>)" using 1(1) by (simp add: n' busy_def held_def shared_ok_def)
    show ?case using \<open>a = None\<close> ins_SetTip [OF b] busyD(1,2) [OF b] by (simp add: seq_assoc)
  qed
qed

lemma ins_other_chain:
  assumes "mid cl L env gs st0 P bs s0" and k: "\<And>s. mid cl L env gs st0 P bs s \<Longrightarrow> ins cl L env gs st0 s (k ())"
  shows "ins cl L env gs st0 s0 (seq (go_other_chain cl L env c l body) k)"
  unfolding go_other_chain_def Let_def
  using k [OF assms(1)] ins_Send [where k = k, OF assms]
  by (auto simp: ins_panic ins_reorg [OF mid_busy [OF assms(1)]] split: go_call.split option.split bool.split)

text \<open>Taking the mutex.\<close>

lemma out_Lock:
  assumes "\<And>bs s. mid cl L env gs st0 (\<lambda>_. True) bs s \<Longrightarrow> ins cl L env gs st0 s (k ())"
  shows "out cl L env gs st0 (seq go_Lock k)"
  unfolding go_Lock_def on_node_def
proof (rule outside_atomic, goal_cases)
  case (1 s s' a)
  have s': "\<not> held s" "s' = s\<lparr>sh_node := (sh_node s)\<lparr>nd_blockMu := True\<rparr>\<rparr>"
    using 1(3) by (auto simp: lock_blockMu_def held_def split: if_splits)
  have ok: "shared_ok cl L env s'" using 1(1) by (simp add: s'(2) shared_ok_def)
  have "mid cl L env gs st0 (\<lambda>_. True) bs s'" if "synced cl L gs st0 bs s" for bs
    using that ok by (simp add: s'(2) mid_def synced_def held_def pool_hashes_def)
  then show ?case using ok s' assms by (auto simp: recorded_def held_def)
qed

lemma out_new_block:
  assumes "out cl L env gs st0 (k ())"
  shows "out cl L env gs st0 (seq (go_new_block cl L b) k)"
  unfolding go_new_block_def seq_assoc seq_if
proof (rule out_Lock, goal_cases)
  case (1 bs s)
  have leave: "ins cl L env gs st0 s (seq go_Unlock k)" if "mid cl L env gs st0 P bs s" for s P using that assms by (rule ins_Unlock)
  show ?case using 1
  proof (rule ins_look, goal_cases)
    case (1 s vset)
    show ?case
    proof (cases "ValidateBlock cl b")
      case True
      show ?thesis
        unfolding if_not_P [OF True [THEN not_not [THEN iffD2]]] using 1
      proof (rule ins_HasBlock, goal_cases)
        case (1 s has)
        show ?case
        proof (cases "has \<or> (case vset of None \<Rightarrow> False | Some vs \<Rightarrow> \<not> VerifyBlockValidator vs b)")
          case True
          then show ?thesis using leave [OF 1] by simp
        next
          case False
          then have m: "mid cl L env gs st0 (\<lambda>c. stored_block (ch_disk c) (blk_Hash b) = None) bs s"
            and no: "(has \<or> (case vset of None \<Rightarrow> False | Some vs \<Rightarrow> \<not> VerifyBlockValidator vs b)) = False"
            using 1 by simp_all
          show ?thesis unfolding no if_False by (rule ins_offer [OF m]) (rule leave, assumption)+
        qed
      qed
    qed (use leave 1 in simp)
  qed
qed

lemma out_blocks:
  assumes "out cl L env gs st0 (k ())"
  shows "out cl L env gs st0 (seq (go_blocks cl L env c body) k)"
proof (cases "length body = 0")
  case False
  have leave: "ins cl L env gs st0 s (seq go_Unlock k)" if "mid cl L env gs st0 P bs s" for s P bs using that assms by (rule ins_Unlock)
  show ?thesis
    unfolding go_blocks_def if_not_P [OF False] seq_assoc
  proof (rule out_Lock, rule ins_last, assumption, goal_cases)
    case (1 bs s0 s)
    have vset: "ins cl L env gs st0 s (seq (look (getValidatorSet L)) (\<lambda>vset. seq (go_extend cl L vset body) (\<lambda>_. seq go_Unlock k)))"
      by (rule ins_look [OF 1(2)], rule ins_extend, assumption, rule leave, assumption)
    show ?case
      using vset ins_other_chain [OF 1(2), of "\<lambda>_. seq go_Unlock k"] leave
      by (simp add: seq_assoc ins_panic split: option.split del: last.simps)
  qed
qed (simp add: go_blocks_def assms)

section \<open>The producer\<close>

lemma append_section_free:
  assumes "ch_mu c = Unlocked" and "healthy (ch_disk c)" and "wf_block b"
  obtains d where "append_section b c = Returns (c\<lparr>ch_disk := d, ch_Height := blk_Height b, ch_LastHash := blk_Hash b\<rparr>) None"
    and "healthy d" and "\<And>h. read_block d h = (if h = blk_Hash b then Inr b else read_block (ch_disk c) h)"
    and "os_ReadFile d ''chain.json'' = os_ReadFile (ch_disk c) ''chain.json''"
proof -
  let ?tmp = "tmp_file (blk_Hash b)" and ?f = "block_file (blk_Hash b)"
  define d1 where "d1 = (ch_disk c)\<lparr>dk_files := AList.update ?tmp (json_Marshal (block_json b)) (dk_files (ch_disk c))\<rparr>"
  have w: "os_WriteFile (ch_disk c) ?tmp (json_Marshal (block_json b)) = (d1, None)"
    using assms(2) by (simp add: os_WriteFile_healthy d1_def)
  obtain d2 where r: "os_Rename d1 ?tmp ?f = (d2, None)" "healthy d2"
    using assms(2) by (auto simp: os_Rename_def d1_def healthy_def update_conv')
  have "read_block d2 h = read_block (ch_disk c) h" if "h \<noteq> blk_Hash b" for h
    using os_WriteFile_other [OF w, of "block_file h"] os_Rename_other [OF r(1), of "block_file h"] that
    by (intro read_block_cong) auto
  moreover have "read_block d2 (blk_Hash b) = Inr b"
    using os_Rename_target [OF w r(1)] assms(2,3) by (simp add: read_block_def Unmarshal_block_Marshal healthy_def)
  moreover have "os_ReadFile d2 ''chain.json'' = os_ReadFile (ch_disk c) ''chain.json''"
    using os_WriteFile_other [OF w, of "''chain.json''"] os_Rename_other [OF r(1), of "''chain.json''"] by simp
  ultimately show thesis
    using that [of d2] assms(1) w r by (simp add: append_section_def chain_Unlock_def)
qed

lemma chain_on_disk_append:
  assumes c: "chain_on_disk c bs" and b: "blk_Height b = of_nat (length bs)" "blk_PreviousHash b = ch_LastHash c"
      "\<not> Hash_IsZero (blk_Hash b)" "stored_block (ch_disk c) (blk_Hash b) = None" "blk_Height b + 1 \<noteq> 0"
    and d: "\<And>h. read_block d h = (if h = blk_Hash b then Inr b else read_block (ch_disk c) h)"
  shows "chain_on_disk (c\<lparr>ch_disk := d, ch_Height := blk_Height b, ch_LastHash := blk_Hash b\<rparr>) (bs @ [b])"
proof -
  have l: "linked (ch_disk c) 0 zero_hash bs" and len: "length bs < 2 ^ 64" using c by (auto simp: chain_on_disk_def)
  have "blk_Hash x \<noteq> blk_Hash b" if "x \<in> set bs" for x
    using linked_read [OF l that] b(4) by (auto simp: stored_block_def)
  then have "linked d 0 zero_hash bs" by (intro linked_mono [OF l]) (simp add: d)
  moreover have "Suc (length bs) < 2 ^ 64"
  proof (rule ccontr)
    assume "\<not> Suc (length bs) < 2 ^ 64"
    then have "Suc (length bs) = 2 ^ 64" using len by simp
    then have "(of_nat (Suc (length bs)) :: u64) = 0" by (simp only: word_of_nat_eq_0_iff) simp
    then show False using b(1,5) by (simp add: add.commute)
  qed
  ultimately show ?thesis using c b d by (simp add: chain_on_disk_def linked_append tip_hash_def)
qed

lemma spec_replay_append:
  "spec_replay st (bs @ [b]) = (case spec_replay st bs of (bal, non) \<Rightarrow> (spec_block bal b, spec_nonce bal non (blk_Transactions b)))"
  by (induction st bs rule: spec_replay.induct) (simp_all split: prod.split)

lemma ins_Save:
  assumes "mid cl L env gs st0 (\<lambda>_. True) bs s0" and k: "\<And>s. mid cl L env gs st0 (\<lambda>_. True) bs s \<Longrightarrow> ins cl L env gs st0 s (k None)"
  shows "ins cl L env gs st0 s0 (seq (on_node (\<lambda>n. on_chain n (Chain_Save (nd_chain n)))) k)"
  using assms(1)
proof (rule ins_mid, goal_cases)
  case (1 s n' a)
  let ?c = "nd_chain (sh_node s)"
  have h: "healthy (ch_disk ?c)" and c: "chain_on_disk ?c (gs @ bs)" using 1(1) by (simp_all add: mid_def synced_def)
  define d where "d = (ch_disk ?c)\<lparr>dk_files := AList.update ''chain.json'' (json_MarshalIndent
      (meta_json \<lparr>cm_Height = ch_Height ?c, cm_LastHash = ch_LastHash ?c\<rparr>)) (dk_files (ch_disk ?c))\<rparr>"
  have n': "n' = (sh_node s)\<lparr>nd_chain := ?c\<lparr>ch_disk := d\<rparr>\<rparr>" and a: "a = None"
    using 1(3) mid_free [OF 1(1)] h by (auto simp: Chain_Save_free os_WriteFile_healthy on_chain_def d_def)
  have "read_block d h = read_block (ch_disk ?c) h" for h by (rule read_block_cong) (simp add: d_def)
  moreover have "linked (ch_disk ?c) 0 zero_hash (gs @ bs)" using c unfolding chain_on_disk_def by blast
  ultimately have "linked d 0 zero_hash (gs @ bs)" by (metis linked_mono)
  then have "chain_on_disk (?c\<lparr>ch_disk := d\<rparr>) (gs @ bs)" using c by (simp add: chain_on_disk_def)
  moreover have "healthy d" using h by (simp add: d_def)
  ultimately have m: "mid cl L env gs st0 (\<lambda>_. True) bs (s\<lparr>sh_node := n'\<rparr>)"
    using 1(1) by (simp add: n' mid_def synced_def shared_ok_def held_def pool_hashes_def no_readers_def)
  from k [OF this] this show ?case by (simp add: a mid_def held_def [of "s\<lparr>sh_node := n'\<rparr>"])
qed

text \<open>Between \<^verbatim>\<open>ApplyBlock\<close> and \<^verbatim>\<open>AppendBlock\<close> the ledger is one block ahead of the chain.\<close>

definition ahead ::
  "crypto_lib \<Rightarrow> 'db leveldb \<Rightarrow> Env \<Rightarrow> Block list \<Rightarrow> (address \<Rightarrow> u64) \<times> (address \<Rightarrow> u64) \<Rightarrow> Block list \<Rightarrow> Block \<Rightarrow> 'db Shared \<Rightarrow> bool" where
  "ahead cl L env gs st0 bs b s \<longleftrightarrow> shared_ok cl L env s \<and> held s \<and> gs \<noteq> [] \<and>
     chain_on_disk (nd_chain (sh_node s)) (gs @ bs) \<and> healthy (ch_disk (nd_chain (sh_node s))) \<and>
     (balance_of L (st_db (nd_state (sh_node s))), nonce_of L (st_db (nd_state (sh_node s)))) = spec_replay st0 (bs @ [b]) \<and>
     set (sh_accepted s) \<subseteq> pool_hashes cl s \<union> chain_txs cl bs"

lemma ahead_others: "ahead cl L env gs st0 bs b s \<Longrightarrow> others cl s s' \<Longrightarrow> shared_ok cl L env s' \<Longrightarrow> ahead cl L env gs st0 bs b s'"
  by (auto simp: ahead_def others_def held_def)

lemma ins_ApplyBlock:
  assumes "mid cl L env gs st0 P bs s0" and k: "\<And>s. ahead cl L env gs st0 bs b s \<Longrightarrow> ins cl L env gs st0 s (k None)"
  shows "ins cl L env gs st0 s0 (seq (go_ApplyBlock L b) k)"
  unfolding go_ApplyBlock_def using assms(1)
proof (rule ins_mid, goal_cases)
  case (1 s n' a)
  have ok: "leveldb_ok L" "writes_ok L" using 1(1) by (simp_all add: mid_def shared_ok_def)
  obtain db' where ap: "applyBlockLocked L (st_db (nd_state (sh_node s))) b = (db', None)" using applyBlockLocked_ok [OF ok(2)] by blast
  then have n': "n' = (sh_node s)\<lparr>nd_state := (nd_state (sh_node s))\<lparr>st_db := db'\<rparr>\<rparr>" and a: "a = None"
    using 1(3) by (auto simp: node_ApplyBlock_def ApplyBlock_locked)
  have sy: "(balance_of L (st_db (nd_state (sh_node s))), nonce_of L (st_db (nd_state (sh_node s)))) = spec_replay st0 bs"
    using 1(1) by (simp add: mid_def synced_def)
  have "(balance_of L db', nonce_of L db') = spec_replay st0 (bs @ [b])"
    using applyBlockLocked_accounts(1,2) [OF ok(1) ap] by (simp add: spec_replay_append sy [symmetric])
  then have "ahead cl L env gs st0 bs b (s\<lparr>sh_node := n'\<rparr>)"
    using 1(1) by (simp add: n' ahead_def mid_def synced_def shared_ok_def held_def pool_hashes_def)
  from k [OF this] this show ?case by (simp add: a ahead_def held_def [of "s\<lparr>sh_node := n'\<rparr>"])
qed

lemma chain_txs_append [simp]: "chain_txs cl (bs @ [b]) = chain_txs cl bs \<union> TxHash cl ` set (blk_Transactions b)"
  by (auto simp: chain_txs_def)

lemma ins_AppendBlock:
  assumes "ahead cl L env gs st0 bs b s0" and wf: "wf_block b"
    and b: "blk_Height b = of_nat (length (gs @ bs))" "blk_PreviousHash b = blk_Hash (last (gs @ bs))"
    and k: "\<And>s. mid cl L env gs st0 (\<lambda>_. True) (bs @ [b]) s \<Longrightarrow> ins cl L env gs st0 s (k None)"
  shows "ins cl L env gs st0 s0 (seq (go_AppendBlock b) k)"
  unfolding go_AppendBlock_def seq_assoc on_chain_only_def
proof (rule ins_stable [where A = "ahead cl L env gs st0 bs b"], rule assms(1), rule ahead_others, assumption+, goal_cases)
  case (1 s n' a)
  let ?c = "nd_chain (sh_node s)"
  have c: "chain_on_disk ?c (gs @ bs)" "healthy (ch_disk ?c)" "ch_mu ?c = Unlocked" using 1(1) by (auto simp: ahead_def chain_on_disk_def)
  obtain d where d: "append_section b ?c = Returns (?c\<lparr>ch_disk := d, ch_Height := blk_Height b, ch_LastHash := blk_Hash b\<rparr>) None"
      "healthy d" "\<And>h. read_block d h = (if h = blk_Hash b then Inr b else read_block (ch_disk ?c) h)"
    using append_section_free [OF c(3,2) wf] by metis
  let ?c' = "?c\<lparr>ch_disk := d, ch_Height := blk_Height b, ch_LastHash := blk_Hash b\<rparr>"
  have n': "n' = (sh_node s)\<lparr>nd_chain := ?c'\<rparr>" and a: "a = None" using 1(3) d(1) by (auto simp: on_chain_def)
  have gs: "gs \<noteq> []" using 1(1) by (simp add: ahead_def)
  have len: "length (gs @ bs) < 2 ^ 64" "ch_Height ?c = of_nat (length (gs @ bs) - 1)" using c(1) unfolding chain_on_disk_def by simp_all
  have "length (gs @ bs) \<noteq> length (gs @ bs) - 1" using gs by (cases gs) simp_all
  then have "blk_Height b \<noteq> ch_Height ?c" unfolding b(1) len(2) using len(1) of_nat_u64_less(2) by (metis less_imp_diff_less)
  then have fresh: "\<not> Hash_IsZero (blk_Hash b)" "stored_block (ch_disk ?c) (blk_Hash b) = None" "blk_Height b + 1 \<noteq> 0"
    using 1(2) c(3) by (simp_all add: fresh_tip_def n' Let_def)
  have "blk_PreviousHash b = ch_LastHash ?c" using b(2) chain_tip(3) [OF c(1)] gs by simp
  from chain_on_disk_append [OF c(1) b(1) this fresh d(3)]
  have m: "mid cl L env gs st0 (\<lambda>_. True) (bs @ [b]) (s\<lparr>sh_node := n'\<rparr>)"
    using 1(1) d(2) by (auto simp: n' mid_def synced_def ahead_def shared_ok_def held_def pool_hashes_def no_readers_def c(3))
  have "ins cl L env gs st0 (s\<lparr>sh_node := n'\<rparr>) (seq (on_node (\<lambda>n. on_chain n (Chain_Save (nd_chain n)))) k)"
    using m k by (rule ins_Save)
  then show ?case using m by (simp add: a mid_def held_def [of "s\<lparr>sh_node := n'\<rparr>"])
qed

lemma ins_Remove:
  assumes "mid cl L env gs st0 (\<lambda>_. True) bs s0" and "TxHash cl ` set txs \<subseteq> chain_txs cl bs" and "txs \<noteq> []"
    and k: "\<And>s. mid cl L env gs st0 (\<lambda>_. True) bs s \<Longrightarrow> ins cl L env gs st0 s (k ())"
  shows "ins cl L env gs st0 s0 (seq (go_Remove cl txs) k)"
  unfolding go_Remove_def if_not_P [OF assms(3)] on_pool_def
proof (rule inside_atomic, goal_cases)
  case (1 s s' a)
  have m: "mid cl L env gs st0 (\<lambda>_. True) bs s" using mid_others [OF assms(1) 1(1,2)] .
  have s': "s' = s\<lparr>sh_node := node_Remove cl (sh_node s) txs\<rparr>" "\<not> sh_poolMu s" using 1(4) by (auto split: if_splits)
  have pool: "pool_hashes cl s' = pool_hashes cl s - TxHash cl ` set txs"
    using assms(3) by (auto simp: s' pool_hashes_def node_Remove_def Mempool_Remove_def)
  have "shared_ok cl L env s'" using 1(2) s' node_ok_Remove [of cl "sh_node s" txs] by (simp add: shared_ok_def node_Remove_def)
  moreover have "synced cl L gs st0 bs s'"
    using m assms(2) unfolding mid_def synced_def pool by (auto simp: s' node_Remove_def)
  moreover have "held s'" using m by (simp add: mid_def s' held_def node_Remove_def)
  ultimately show ?case using k by (simp add: mid_def)
qed

lemma ins_Pending:
  assumes "mid cl L env gs st0 P bs s0"
    and k: "\<And>s txs. mid cl L env gs st0 P bs s \<Longrightarrow> list_all wf_tx txs \<Longrightarrow> ins cl L env gs st0 s (k txs)"
  shows "ins cl L env gs st0 s0 (seq (go_Pending m) k)"
  unfolding go_Pending_def on_pool_def
proof (rule inside_atomic, goal_cases)
  case (1 s s' txs)
  have mi: "mid cl L env gs st0 P bs s" using mid_others [OF assms(1) 1(1,2)] .
  have s': "s' = s" "txs = Mempool_Pending (nd_pool (sh_node s)) m" using 1(4) by (auto split: if_splits)
  have "set txs \<subseteq> set (mp_txs (nd_pool (sh_node s)))"
    unfolding s'(2) using Mempool_Pending_prefix [of "nd_pool (sh_node s)" m] by (metis set_take_subset)
  then have "list_all wf_tx txs" using 1(2) by (auto simp: shared_ok_def node_ok_def list_all_iff)
  then show ?case using k [OF mi] mi s'(1) by (simp add: mid_def)
qed

text \<open>The block of the producer is applied, stored, taken out of the pool and announced.\<close>

lemma ins_produced:
  assumes m: "mid cl L env gs st0 P bs s0" and txs: "list_all wf_tx txs" "txs \<noteq> []"
    and b: "b = produced cl env now (last (gs @ bs)) txs sig" and k: "out cl L env gs st0 (k ())"
  shows "ins cl L env gs st0 s0 (seq (go_ApplyBlock L b) (\<lambda>err. seq (case err of Some e \<Rightarrow> go_Unlock
    | None \<Rightarrow> seq (go_AppendBlock b) (\<lambda>err. case err of Some e \<Rightarrow> go_Unlock
      | None \<Rightarrow> seq (go_Remove cl txs) (\<lambda>_. seq go_Unlock (\<lambda>_. go_Broadcast KindNewBlock (block_json b))))) k))"
proof -
  have "chain_on_disk (nd_chain (sh_node s0)) (gs @ bs)" "gs @ bs \<noteq> []" using m by (simp_all add: mid_def synced_def)
  note tip = chain_tip [OF this]
  have wf: "wf_block b" unfolding b
    by (rule wf_produced) (use m tip(2) txs(1) in \<open>simp_all add: mid_def shared_ok_def\<close>)
  have f: "blk_Height b = of_nat (length (gs @ bs))" "blk_PreviousHash b = blk_Hash (last (gs @ bs))" "blk_Transactions b = txs"
    using tip(4) by (simp_all add: b produced_def)
  have fin: "ins cl L env gs st0 s (seq (go_Remove cl txs) (\<lambda>_. seq go_Unlock (\<lambda>_. seq (go_Broadcast KindNewBlock (block_json b)) k)))"
    if "mid cl L env gs st0 (\<lambda>_. True) (bs @ [b]) s" for s
    using that by (rule ins_Remove) (auto simp: f(3) txs(2) intro: ins_Unlock out_Broadcast k)
  show ?thesis
    by (rule ins_ApplyBlock [OF m], simp add: seq_assoc, rule ins_AppendBlock [OF _ wf f(1,2)])
      (simp_all add: seq_assoc fin)
qed

lemma out_produce:
  assumes "out cl L env gs st0 (k ())"
  shows "out cl L env gs st0 (seq (go_produce cl L env now seed) k)"
  unfolding go_produce_def seq_assoc
proof (rule out_Lock, rule ins_LastBlock, assumption, goal_cases)
  case (1 bs s0 s)
  define l where "l = last (gs @ bs)"
  let ?block = "NewBlock cl now (blk_Height l + 1) (blk_Hash l) (env_validatorAddr env)"
  have leave: "ins cl L env gs st0 s (seq go_Unlock k)" if "mid cl L env gs st0 P bs s" for s P using that assms by (rule ins_Unlock)
  have make: "ins cl L env gs st0 s (seq (if length txs = 0 then go_Unlock else let b = ?block txs in
      case Sign cl seed (env_priv env) (blk_Hash b) of Error \<Rightarrow> go_Unlock | Panic \<Rightarrow> go_panic
      | Value sig \<Rightarrow> (let b = b\<lparr>blk_Signature := sig\<rparr> in seq (go_ApplyBlock L b) (\<lambda>err. case err of Some e \<Rightarrow> go_Unlock
        | None \<Rightarrow> seq (go_AppendBlock b) (\<lambda>err. case err of Some e \<Rightarrow> go_Unlock
          | None \<Rightarrow> seq (go_Remove cl txs) (\<lambda>_. seq go_Unlock (\<lambda>_. go_Broadcast KindNewBlock (block_json b))))))) k)"
    if m: "mid cl L env gs st0 P bs s" and txs: "list_all wf_tx txs" for s P txs
    using leave [OF m] ins_produced [where k = k and now = now, OF m txs _ refl assms, folded l_def, unfolded produced_def]
    by (simp add: Let_def seq_assoc ins_panic split: go_call.split)
  show ?case
    unfolding l_def [symmetric] sum.case option.case seq_assoc using 1(2)
  proof (rule ins_look, goal_cases)
    case (1 s vset)
    then show ?case using leave [OF 1] ins_Pending [OF 1 make] by (simp add: seq_assoc)
  qed
qed

section \<open>All goroutines\<close>

lemma out_new_tx: "wf_tx tx \<Longrightarrow> out cl L env gs st0 (k ()) \<Longrightarrow> out cl L env gs st0 (seq (go_new_tx cl L tx) k)"
  unfolding go_new_tx_def seq_assoc by (rule out_Add) (auto intro: out_Broadcast split: option.split)

lemma out_get_blocks: "out cl L env gs st0 (k ()) \<Longrightarrow> out cl L env gs st0 (seq (go_get_blocks c req) k)"
  unfolding go_get_blocks_def Let_def seq_assoc by (rule out_GetBlocksFrom) (auto intro: out_Send)

lemma out_message:
  assumes "out cl L env gs st0 (k ())"
  shows "out cl L env gs st0 (seq (go_message cl L env c kind payload) k)"
proof -
  have "out cl L env gs st0 (seq (go_new_tx cl L tx) k)" if "unmarshal payload dec_tx zero_tx = Some tx" for tx
    using out_new_tx [OF unmarshal_tx_wf [OF that]] assms by blast
  with assms show ?thesis
    unfolding go_message_def
    by (simp add: out_TryConnect out_get_blocks out_blocks out_new_block out_connect_all split: option.split)
qed

lemma out_loop: "out cl L env gs st0 (k ()) \<Longrightarrow> out cl L env gs st0 (seq (go_loop cl L env c ms) k)"
proof (induction ms)
  case (Cons m ms)
  then show ?case by (cases m) (auto simp: seq_assoc intro: out_message)
qed simp

lemma out_conn: "out cl L env gs st0 (k ()) \<Longrightarrow> out cl L env gs st0 (seq (go_conn cl L env c remote inp) k)"
  unfolding go_conn_def seq_assoc
proof (rule out_on_node, goal_cases)
  case (1 n n' ok)
  then show ?case using peers_ok_addPeer [of "nd_peers n" "nd_net n" c remote False]
    by (auto simp: AddPeer_def node_ok_def split: prod.splits)
next
  case (2 ok)
  have "out cl L env gs st0 (seq (change (\<lambda>n. case RemovePeer (nd_peers n) (nd_net n) remote of (p, nt) \<Rightarrow> n\<lparr>nd_peers := p, nd_net := nt\<rparr>)) k)"
  proof (rule out_change)
    fix n :: "'a Node"
    assume "node_ok cl n"
    then show "node_ok cl (case RemovePeer (nd_peers n) (nd_net n) remote of (p, nt) \<Rightarrow> n\<lparr>nd_peers := p, nd_net := nt\<rparr>) \<and>
        nd_chain (case RemovePeer (nd_peers n) (nd_net n) remote of (p, nt) \<Rightarrow> n\<lparr>nd_peers := p, nd_net := nt\<rparr>) = nd_chain n \<and>
        nd_state (case RemovePeer (nd_peers n) (nd_net n) remote of (p, nt) \<Rightarrow> n\<lparr>nd_peers := p, nd_net := nt\<rparr>) = nd_state n \<and>
        nd_blockMu (case RemovePeer (nd_peers n) (nd_net n) remote of (p, nt) \<Rightarrow> n\<lparr>nd_peers := p, nd_net := nt\<rparr>) = nd_blockMu n \<and>
        nd_pool (case RemovePeer (nd_peers n) (nd_net n) remote of (p, nt) \<Rightarrow> n\<lparr>nd_peers := p, nd_net := nt\<rparr>) = nd_pool n"
      using peers_ok_RemovePeer [of "nd_peers n" "nd_net n" remote] by (auto simp: node_ok_def split: prod.splits)
  qed (rule 2)
  then show ?case using 2 by (auto simp: seq_assoc intro: out_loop)
qed

lemma out_tx: "out cl L env gs st0 (k ()) \<Longrightarrow> out cl L env gs st0 (seq (go_tx cl L rq) k)"
  unfolding go_tx_def
  by (auto simp: bind_eq_Some_conv intro!: out_new_tx intro: dec_tx_wf [OF wf_zero(1)] split: option.split)

lemma out_pages:
  assumes "out cl L env gs st0 (k ())"
  shows "out cl L env gs st0 (seq go_status k)" and "out cl L env gs st0 (seq (go_page_blocks rq) k)"
    and "out cl L env gs st0 (seq (go_page_block rq) k)"
  unfolding go_status_def go_page_blocks_def go_page_block_def seq_assoc Let_def using assms
  by (auto simp: seq_assoc intro!: out_height out_pool_read out_last out_GetBlocksFrom out_section reads_only_sections
      split: option.split)

lemma out_goroutine_then: "out cl L env gs st0 (k ()) \<Longrightarrow> out cl L env gs st0 (seq (goroutine cl L env ev) k)"
proof (cases ev)
  case (EvAccept c remote)
  moreover assume "out cl L env gs st0 (k ())"
  ultimately show ?thesis by (auto simp: go_accept_def seq_assoc intro!: out_height out_change)
next
  case EvSync
  moreover assume "out cl L env gs st0 (k ())"
  ultimately show ?thesis by (auto simp: go_initial_sync_def seq_assoc intro!: out_last out_Broadcast split: option.split)
qed (simp_all add: out_conn out_message out_produce out_tx out_pages)

lemma out_goroutine: "out cl L env gs st0 (goroutine cl L env ev)"
  using out_goroutine_then [of cl L env gs st0 Done ev] by (simp add: outside_Done)

interpretation node_threads: mutex_discipline held "others cl" "shared_ok cl L env" "recorded cl L gs st0" fresh_tip
  "goroutine cl L env" "\<lambda>_. True" for cl L env gs st0
proof
  show "others cl s s" for s by (rule others_refl)
  show "others cl s s''" if "others cl s s'" "others cl s' s''" for s s' s'' using that by (rule others_trans)
  show "held s' = held s" if "others cl s s'" for s s' using that by (simp add: others_def held_def)
  show "recorded cl L gs st0 s'" if "others cl s s'" "recorded cl L gs st0 s" for s s'
    using that synced_others unfolding recorded_def by blast
  show "out cl L env gs st0 (goroutine cl L env e)" for e by (rule out_goroutine)
qed

section \<open>Runs\<close>

text \<open>A node when its services start: no goroutine runs, no mutex is held, and nothing was accepted yet.\<close>

definition started :: "'db Node \<Rightarrow> 'db Shared" where
  "started n = \<lparr>sh_node = n, sh_poolMu = False, sh_accepted = []\<rparr>"

text \<open>The steps of the goroutines, as long as no new tip collides with a stored block.\<close>

definition node_steps ::
  "crypto_lib \<Rightarrow> 'db leveldb \<Rightarrow> Env \<Rightarrow> 'db Shared system \<Rightarrow> ('db Shared, node_event) schedule \<Rightarrow> 'db Shared system \<Rightarrow> bool" where
  "node_steps cl L env p l p' \<longleftrightarrow> interleave (goroutine cl L env) p l p' \<and> between fresh_tip p p'"

lemma run_synced:
  assumes ok: "digest_size cl" "leveldb_ok L" "writes_ok L" "length (env_validatorAddr env) = 20" "node_ok cl n"
    and n: "\<not> nd_blockMu n" "chain_on_disk (nd_chain n) gs" "healthy (ch_disk (nd_chain n))"
      "gs \<noteq> []" "st0 = (balance_of L (st_db (nd_state n)), nonce_of L (st_db (nd_state n)))"
    and run: "run (node_steps cl L env) (Alive (started n) []) ls (Alive s ts)"
  shows "shared_ok cl L env s" and "\<not> held s \<Longrightarrow> \<exists>bs. synced cl L gs st0 bs s"
proof -
  have s0: "shared_ok cl L env (started n)" "recorded cl L gs st0 (started n)" "\<not> held (started n)"
    using ok n by (auto simp: shared_ok_def recorded_def synced_def held_def started_def no_readers_def chain_on_disk_def
        intro!: exI [of _ "[]"])
  have may: "list_all node_threads.may_run ls"
    by (auto simp: list_all_iff node_threads.may_run_def split: schedule.split)
  have r: "run (\<lambda>p l p'. interleave (goroutine cl L env) p l p' \<and> between fresh_tip p p') (Alive (started n) []) ls (Alive s ts)"
    using run unfolding node_steps_def [abs_def] .
  show "shared_ok cl L env s" and "\<not> held s \<Longrightarrow> \<exists>bs. synced cl L gs st0 bs s"
    using node_threads.free_when_released [OF r may s0] by (auto simp: recorded_def)
qed

end
