(* ===== verification/Node_Crash.thy ===== *)
theory Node_Crash
  imports Node_Interleaving
begin

text \<open>
  A process killed in the middle of a producer tick: what its directory and its database hold, after
  each of the steps of the tick.
\<close>

section \<open>States passed on the way\<close>

named_theorems passed \<open>the states a step passes through\<close>

lemma reaches_on_node [passed]:
  "reaches (on_node f) s s' \<longleftrightarrow> s' = s \<or> (\<exists>n a. f (sh_node s) = Returns n a \<and> s' = s\<lparr>sh_node := n\<rparr>)"
  unfolding on_node_def reaches_atomic by (cases "f (sh_node s)") auto

lemma reaches_change [passed]: "reaches (change f) s s' \<longleftrightarrow> s' = s \<or> s' = s\<lparr>sh_node := f (sh_node s)\<rparr>"
  by (auto simp: change_def passed)

lemma reaches_look [passed]: "reaches (look g) s s' \<longleftrightarrow> s' = s"
  by (auto simp: look_def passed)

lemma reaches_chain [passed]:
  "reaches (on_chain_only f) s s' \<longleftrightarrow> s' = s \<or> (\<exists>c a. f (nd_chain (sh_node s)) = Returns c a \<and> s' = s\<lparr>sh_node := (sh_node s)\<lparr>nd_chain := c\<rparr>\<rparr>)"
  by (cases "f (nd_chain (sh_node s))") (auto simp: on_chain_only_def passed on_chain_def)

lemma reaches_on_pool [passed]:
  "reaches (on_pool f) s s' \<longleftrightarrow> s' = s \<or> \<not> sh_poolMu s \<and> s' = s\<lparr>sh_node := fst (f (sh_node s))\<rparr>"
  by (auto simp: on_pool_def reaches_atomic split: prod.splits)

lemma reaches_LastBlock [passed]:
  "ch_mu (nd_chain (sh_node s)) = Unlocked \<Longrightarrow> reaches go_LastBlock s s' \<longleftrightarrow> s' = s"
  by (auto simp: go_LastBlock_def reaches_seq passed exec_chain tip_section_def on_chain_def chain_RLock_def chain_RUnlock_def
      GetBlock_free split: if_splits)

section \<open>What is on disk and in the database\<close>

definition view :: "'db Shared \<Rightarrow> disk \<times> 'db" where
  "view s = (ch_disk (nd_chain (sh_node s)), st_db (nd_state (sh_node s)))"

definition ledger :: "'db leveldb \<Rightarrow> 'db \<Rightarrow> (address \<Rightarrow> u64) \<times> (address \<Rightarrow> u64)" where
  "ledger L db = (balance_of L db, nonce_of L db)"

text \<open>The directory holds the chain \<open>bs\<close>, and the next start finds it.\<close>

definition holds_chain :: "ChainConfig \<Rightarrow> disk \<Rightarrow> Block list \<Rightarrow> bool" where
  "holds_chain cfg d bs \<longleftrightarrow> (\<exists>c. NewChain d (Some cfg) = Inr c \<and> chain_on_disk c bs)"

lemma NewChain_cfg: "NewChain d (Some cfg) = Inr c \<Longrightarrow> ch_cfg c = cfg"
  by (auto simp: NewChain_def Let_def split: option.splits read_result.splits)

lemma NewChain_same_tip:
  assumes "NewChain d (Some cfg) = Inr c" and "healthy d'" and "os_ReadFile d' ''chain.json'' = os_ReadFile d ''chain.json''"
  shows "NewChain d' (Some cfg) = Inr (c\<lparr>ch_disk := d'\<rparr>)"
  using assms by (auto simp: NewChain_def Let_def os_MkdirAll_def healthy_def split: if_splits read_result.splits option.splits)

section \<open>The tick\<close>

text \<open>The three stages of the directory: before the block, with the block file, with the new tip file.\<close>

lemma append_stages:
  assumes c: "chain_on_disk c bs" "healthy (ch_disk c)" "NewChain (ch_disk c) (Some (ch_cfg c)) = Inr c"
    and b: "wf_block b" "blk_Height b = of_nat (length bs)" "blk_PreviousHash b = ch_LastHash c" "\<not> Hash_IsZero (blk_Hash b)"
      "stored_block (ch_disk c) (blk_Hash b) = None" "length bs + 1 < 2 ^ 64"
  obtains c1 c2 where "append_section b c = Returns c1 None" and "Chain_Save c1 = Returns c2 None"
    and "ch_LastHash c1 = blk_Hash b" and "ch_Height c1 = blk_Height b" and "chain_on_disk c2 (bs @ [b])"
    and "holds_chain (ch_cfg c) (ch_disk c) bs" and "holds_chain (ch_cfg c) (ch_disk c1) bs"
    and "holds_chain (ch_cfg c) (ch_disk c2) (bs @ [b])"
proof -
  have mu: "ch_mu c = Unlocked" and l: "linked (ch_disk c) 0 zero_hash bs" using c(1) by (auto simp: chain_on_disk_def)
  obtain d where d: "append_section b c = Returns (c\<lparr>ch_disk := d, ch_Height := blk_Height b, ch_LastHash := blk_Hash b\<rparr>) None"
      "healthy d" "\<And>h. read_block d h = (if h = blk_Hash b then Inr b else read_block (ch_disk c) h)"
      "os_ReadFile d ''chain.json'' = os_ReadFile (ch_disk c) ''chain.json''"
    by (rule append_section_free [OF mu c(2) b(1)]) blast
  have new: "blk_Hash b \<notin> blk_Hash ` set bs" using linked_read [OF l] b(5) by (auto simp: stored_block_def)
  obtain c2 where c2: "AppendBlock c b = Returns c2 None" "chain_on_disk c2 (bs @ [b])" "NewChain (ch_disk c2) (Some (ch_cfg c)) = Inr c2"
    using AppendBlock_extends [OF c(1,2) b(1,6,2,3,4) new] by metis
  let ?c1 = "c\<lparr>ch_disk := d, ch_Height := blk_Height b, ch_LastHash := blk_Hash b\<rparr>"
  have "AppendBlock c b = and_then (append_section b c) (\<lambda>c e. case e of Some e \<Rightarrow> Returns c (Some e) | None \<Rightarrow> Chain_Save c)"
    by (cases "chain_Lock c") (auto simp: AppendBlock_def append_section_def split: prod.split option.split)
  then have save: "Chain_Save ?c1 = Returns c2 None" using c2(1) d(1) by simp
  have "linked d 0 zero_hash bs" using new by (intro linked_mono [OF l]) (metis d(3) imageI)
  then have "chain_on_disk (c\<lparr>ch_disk := d\<rparr>) bs" using c(1) by (simp add: chain_on_disk_def)
  then have "holds_chain (ch_cfg c) d bs"
    using NewChain_same_tip [OF c(3) d(2,4)] by (auto simp: holds_chain_def)
  with c c2 show thesis using that [OF d(1) save] by (auto simp: holds_chain_def)
qed

text \<open>The part of a tick that writes, and all a process that is killed on the way can leave behind.\<close>

definition publish :: "crypto_lib \<Rightarrow> 'db leveldb \<Rightarrow> Block \<Rightarrow> Transaction list \<Rightarrow> ('db Shared, unit) thread" where
  "publish cl L b txs = seq (go_ApplyBlock L b) (\<lambda>err.
     case err of
       Some e \<Rightarrow> go_Unlock
     | None \<Rightarrow> seq (go_AppendBlock b) (\<lambda>err.
         case err of
           Some e \<Rightarrow> go_Unlock
         | None \<Rightarrow> seq (go_Remove cl txs) (\<lambda>_. seq go_Unlock (\<lambda>_. go_Broadcast KindNewBlock (block_json b)))))"

lemma publish_views:
  assumes ap: "ApplyBlock L (nd_state n) b = (st, None)" and s: "\<not> sh_poolMu s" "sh_node s = n"
    and a: "append_section b (nd_chain n) = Returns c1 None" "Chain_Save c1 = Returns c2 None"
  shows "view ` {s'. reaches (publish cl L b txs) s s'} = {(ch_disk (nd_chain n), st_db (nd_state n)), (ch_disk (nd_chain n), st_db st),
    (ch_disk c1, st_db st), (ch_disk c2, st_db st)}"
    (is "view ` ?R = ?V")
proof -
  let ?s = "\<lambda>n. s\<lparr>sh_node := n\<rparr>"
  let ?n2 = "n\<lparr>nd_state := st\<rparr>"
  have apply_done: "exec (go_ApplyBlock L b) s = Returns (?s ?n2) None"
    by (simp add: undisturbed go_ApplyBlock_def node_ApplyBlock_def s ap)
  have append_done: "exec (go_AppendBlock b) (?s ?n2) = Returns (?s (?n2\<lparr>nd_chain := c2\<rparr>)) None"
    by (simp add: go_AppendBlock_def exec_seq undisturbed on_chain_def a)
  have apply_passes: "reaches (go_ApplyBlock L b) s s' \<longleftrightarrow> s' = s \<or> s' = ?s ?n2" for s'
    by (auto simp: go_ApplyBlock_def passed node_ApplyBlock_def s ap)
  have append_passes: "reaches (go_AppendBlock b) (?s ?n2) s' \<longleftrightarrow> s' = ?s ?n2 \<or> s' = ?s (?n2\<lparr>nd_chain := c1\<rparr>) \<or> s' = ?s (?n2\<lparr>nd_chain := c2\<rparr>)" for s'
    by (auto simp: go_AppendBlock_def reaches_seq passed undisturbed on_chain_def a)
  let ?rest = "seq (go_Remove cl txs) (\<lambda>_. seq go_Unlock (\<lambda>_. go_Broadcast KindNewBlock (block_json b)))"
  have rest: "view s' = (ch_disk c2, st_db st)" if "reaches ?rest (?s (?n2\<lparr>nd_chain := c2\<rparr>)) s'" for s'
    using that s(1) by (auto simp: go_Remove_def go_Unlock_def go_Broadcast_def reaches_seq passed undisturbed view_def
        node_Remove_def unlock_blockMu_def node_Broadcast_def split: if_splits)
  have "?R = {s, ?s ?n2, ?s (?n2\<lparr>nd_chain := c1\<rparr>), ?s (?n2\<lparr>nd_chain := c2\<rparr>)} \<union> {s'. reaches ?rest (?s (?n2\<lparr>nd_chain := c2\<rparr>)) s'}"
    by (auto simp: publish_def reaches_seq [of "go_ApplyBlock L b"] reaches_seq [of "go_AppendBlock b"]
        apply_done append_done apply_passes append_passes)
  then show ?thesis using rest by (auto simp: image_Un view_def s(2))
qed

lemma tick_tests:
  assumes turn: "my_turn L env n l" and sig: "Sign cl seed (env_priv env) (blk_Hash (produced cl env now l txs [])) = Value sig"
    and b: "b = produced cl env now l txs sig"
  shows "Sign cl seed (env_priv env) (blk_Hash (NewBlock cl now (blk_Height l + 1) (blk_Hash l) (env_validatorAddr env) txs)) = Value sig"
    and "(NewBlock cl now (blk_Height l + 1) (blk_Hash l) (env_validatorAddr env) txs)\<lparr>blk_Signature := sig\<rparr> = b"
    and "\<not> (case getValidatorSet L (sh_node (started (n\<lparr>nd_blockMu := True\<rparr>))) of None \<Rightarrow> False
      | Some vs \<Rightarrow> ValidatorForHeight vs (blk_Height l + 1) \<noteq> env_validatorAddr env)"
  using assms by (auto simp: produced_def my_turn_def getValidatorSet_def started_def split: option.splits)

text \<open>Before it writes, the tick takes the block mutex and reads.\<close>

lemma tick_reaches:
  fixes n :: "'db Node" and L :: "'db leveldb"
  assumes free: "node_free n" and tip: "tip_block (nd_chain n) = Inr (Some l)" and turn: "my_turn L env n l"
    and txs: "Mempool_Pending (nd_pool n) 100 = txs" "txs \<noteq> []"
    and sig: "Sign cl seed (env_priv env) (blk_Hash (produced cl env now l txs [])) = Value sig"
    and b: "b = produced cl env now l txs sig"
  shows "reaches (go_produce cl L env now seed) (started n) s \<longleftrightarrow>
    s = started n \<or> reaches (publish cl L b txs) (started (n\<lparr>nd_blockMu := True\<rparr>)) s"
proof -
  let ?s1 = "started (n\<lparr>nd_blockMu := True\<rparr>)"
  have mu: "ch_mu (nd_chain (sh_node ?s1)) = Unlocked" using free by (simp add: node_free_def started_def)
  have lock: "exec go_Lock (started n) = Returns ?s1 ()" "reaches go_Lock (started n) s \<longleftrightarrow> s = started n \<or> s = ?s1"
    using lock_free(1) [OF free] by (auto simp: go_Lock_def undisturbed passed started_def)
  have last: "exec go_LastBlock ?s1 = Returns ?s1 (Inr (Some l))" "reaches go_LastBlock ?s1 s \<longleftrightarrow> s = ?s1"
    using mu tip by (simp_all add: undisturbed passed started_def LastBlock_free on_chain_def)
  have pending: "exec (go_Pending 100) ?s1 = Returns ?s1 txs" "reaches (go_Pending 100) ?s1 s \<longleftrightarrow> s = ?s1"
    using txs(1) by (auto simp: go_Pending_def undisturbed passed started_def)
  note tests = tick_tests [OF turn sig b]
  have look: "exec (look (getValidatorSet L)) ?s1 = Returns ?s1 (getValidatorSet L (sh_node ?s1))" by (rule exec_look)
  have "reaches (go_produce cl L env now seed) (started n) s \<longleftrightarrow>
      s = started n \<or> s = ?s1 \<or> reaches (publish cl L b txs) ?s1 s"
    unfolding go_produce_def
    by (simp add: reaches_seq [of go_Lock] reaches_seq [of go_LastBlock] reaches_seq [of "look g" for g] reaches_seq [of "go_Pending k" for k]
        lock last pending look reaches_look tests txs(2) Let_def publish_def [symmetric])
  then show ?thesis by (auto intro: reaches_here)
qed

text \<open>Together: the directory and the database after each of the steps.\<close>

lemma tick_views:
  fixes n :: "'db Node" and L :: "'db leveldb"
  assumes free: "node_free n" and chain: "chain_on_disk (nd_chain n) bs" "bs \<noteq> []" "length bs + 1 < 2 ^ 64"
    and disk: "healthy (ch_disk (nd_chain n))" "NewChain (ch_disk (nd_chain n)) (Some cfg) = Inr (nd_chain n)"
    and cl: "digest_size cl" "length (env_validatorAddr env) = 20" and ok: "node_ok cl n" and turn: "my_turn L env n (last bs)"
    and txs: "txs = Mempool_Pending (nd_pool n) 100" "txs \<noteq> []"
    and sig: "Sign cl seed (env_priv env) (blk_Hash (produced cl env now (last bs) txs [])) = Value sig"
    and b: "b = produced cl env now (last bs) txs sig" "\<not> Hash_IsZero (blk_Hash b)" "stored_block (ch_disk (nd_chain n)) (blk_Hash b) = None"
    and ap: "ApplyBlock L (nd_state n) b = (st, None)"
  obtains d1 d2 where "view ` {s. reaches (go_produce cl L env now seed) (started n) s} =
      {(ch_disk (nd_chain n), st_db (nd_state n)), (ch_disk (nd_chain n), st_db st), (d1, st_db st), (d2, st_db st)}"
    and "holds_chain cfg (ch_disk (nd_chain n)) bs" and "holds_chain cfg d1 bs" and "holds_chain cfg d2 (bs @ [b])"
proof -
  let ?c = "nd_chain n"
  note tip = chain_tip [OF chain(1,2)]
  have cfg: "ch_cfg ?c = cfg"
    by (rule NewChain_cfg [OF disk(2)])
  have "set txs \<subseteq> set (mp_txs (nd_pool n))"
    using Mempool_Pending_prefix [of "nd_pool n" 100] txs(1) by (metis set_take_subset)
  then have wtx: "list_all wf_tx txs" using ok by (auto simp: node_ok_def list_all_iff)
  have wf: "wf_block b" unfolding b(1) by (rule wf_produced [OF cl(1) tip(2) cl(2) wtx])
  have f: "blk_Height b = of_nat (length bs)" "blk_PreviousHash b = ch_LastHash ?c" using tip(3,4) by (simp_all add: b(1) produced_def)
  obtain c1 c2 where st: "append_section b ?c = Returns c1 None" "Chain_Save c1 = Returns c2 None"
      "holds_chain cfg (ch_disk ?c) bs" "holds_chain cfg (ch_disk c1) bs" "holds_chain cfg (ch_disk c2) (bs @ [b])"
    using append_stages [OF chain(1) disk(1) disk(2) [folded cfg] wf f b(2,3) chain(3)] unfolding cfg by blast
  have "view ` {s. reaches (publish cl L b txs) (started (n\<lparr>nd_blockMu := True\<rparr>)) s} =
      {(ch_disk ?c, st_db (nd_state n)), (ch_disk ?c, st_db st), (ch_disk c1, st_db st), (ch_disk c2, st_db st)}"
    using publish_views [of L "n\<lparr>nd_blockMu := True\<rparr>" b st "started (n\<lparr>nd_blockMu := True\<rparr>)" c1 c2 cl txs] ap st(1,2)
    by (simp add: started_def)
  moreover have "{s. reaches (go_produce cl L env now seed) (started n) s} =
      insert (started n) {s. reaches (publish cl L b txs) (started (n\<lparr>nd_blockMu := True\<rparr>)) s}"
    using tick_reaches [OF free tip(1) turn txs(1) [symmetric] txs(2) sig b(1)] by auto
  ultimately show thesis using that [OF _ st(3-5)] by (simp add: view_def started_def)
qed

end
