(* ===== verification/Concurrency_Properties.thy ===== *)
theory Concurrency_Properties
  imports Node_Properties Node_Crash
begin

text \<open>
  The properties of the goroutines of a node running side by side, and of a process killed between two of
  its steps.
\<close>

section \<open>Runs to witness them\<close>

text \<open>A goroutine that runs to its end while the others wait, with every step within \<open>G\<close>.\<close>

definition finishes :: "('s \<Rightarrow> 's \<Rightarrow> bool) \<Rightarrow> ('e \<Rightarrow> ('s, unit) thread) \<Rightarrow> ('s, 'a) thread \<Rightarrow> 's \<Rightarrow> 's \<Rightarrow> 'a \<Rightarrow> bool" where
  "finishes G spawn t s s' a \<longleftrightarrow> (\<exists>m. \<forall>k. run (\<lambda>p l p'. interleave spawn p l p' \<and> between G p p')
     (Alive s [seq t k]) (replicate m (Sched 0)) (Alive s' [k a]))"

lemma finishes_Done: "finishes G spawn (Done a) s s a"
  unfolding finishes_def by (rule exI [of _ 0]) (simp add: run_Nil)

lemma finishes_atomic:
  assumes "f s = Returns s' a" and "G s s'"
  shows "finishes G spawn (atomic f) s s' a"
proof -
  have "run (\<lambda>p l p'. interleave spawn p l p' \<and> between G p p') (Alive s [seq (atomic f) k]) (replicate 1 (Sched 0)) (Alive s' [k a])" for k
    using moves [of 0 "[seq (atomic f) k]" "\<lambda>s. map_outcome id k (f s)" s s' "k a" spawn] assms
    by (auto simp: seq_atomic between_def intro!: run_Cons run_Nil)
  then show ?thesis unfolding finishes_def by blast
qed

lemma run_append: "run step s es s' \<Longrightarrow> run step s' es' s'' \<Longrightarrow> run step s (es @ es') s''"
  by (induction rule: run.induct) (auto intro: run_Cons)

lemma finishes_seq:
  assumes "finishes G spawn t s s1 a" and "finishes G spawn (j a) s1 s2 b"
  shows "finishes G spawn (seq t j) s s2 b"
proof -
  let ?step = "\<lambda>p l p'. interleave spawn p l p' \<and> between G p p'"
  obtain m1 where 1: "\<forall>k. run ?step (Alive s [seq t k]) (replicate m1 (Sched 0)) (Alive s1 [k a])"
    using assms(1) unfolding finishes_def ..
  obtain m2 where 2: "\<forall>k. run ?step (Alive s1 [seq (j a) k]) (replicate m2 (Sched 0)) (Alive s2 [k b])"
    using assms(2) unfolding finishes_def ..
  have "run ?step (Alive s [seq t (\<lambda>x. seq (j x) k)]) (replicate (m1 + m2) (Sched 0)) (Alive s2 [k b])" for k
    using run_append [OF 1 [rule_format, of "\<lambda>x. seq (j x) k"] 2 [rule_format, of k]] by (simp add: replicate_add)
  then show ?thesis unfolding finishes_def seq_assoc by (intro exI [of _ "m1 + m2"] allI)
qed

lemma finishes_run:
  assumes "finishes G spawn (spawn e) s s' ()" and "\<And>x. G x x"
  shows "\<exists>m. run (\<lambda>p l p'. interleave spawn p l p' \<and> between G p p') (Alive s []) (Go e # replicate m (Sched 0)) (Alive s' [Done ()])"
proof -
  obtain m where m: "\<forall>k. run (\<lambda>p l p'. interleave spawn p l p' \<and> between G p p') (Alive s [seq (spawn e) k]) (replicate m (Sched 0))
      (Alive s' [k ()])" using assms(1) unfolding finishes_def ..
  note m [rule_format, of Done]
  moreover have "interleave spawn (Alive s []) (Go e) (Alive s [spawn e])" using go [of spawn s "[]" e] by simp
  ultimately show ?thesis using assms(2) by (intro exI [of _ m] run_Cons) (auto simp: between_def)
qed

lemma finishes_on_node: "f (sh_node s) = Returns n a \<Longrightarrow> G s (s\<lparr>sh_node := n\<rparr>) \<Longrightarrow> finishes G spawn (on_node f) s (s\<lparr>sh_node := n\<rparr>) a"
  unfolding on_node_def by (rule finishes_atomic) auto

lemma finishes_look: "G s s \<Longrightarrow> finishes G spawn (look g) s s (g (sh_node s))"
  unfolding look_def using finishes_on_node [of "\<lambda>n. Returns n (g n)" s "sh_node s" "g (sh_node s)" G spawn] by simp

lemma finishes_change: "G s (s\<lparr>sh_node := f (sh_node s)\<rparr>) \<Longrightarrow> finishes G spawn (change f) s (s\<lparr>sh_node := f (sh_node s)\<rparr>) ()"
  unfolding change_def by (rule finishes_on_node) auto

lemma finishes_on_pool:
  "\<not> sh_poolMu s \<Longrightarrow> f (sh_node s) = (n, a) \<Longrightarrow> G s (s\<lparr>sh_node := n\<rparr>) \<Longrightarrow> finishes G spawn (on_pool f) s (s\<lparr>sh_node := n\<rparr>) a"
  unfolding on_pool_def by (rule finishes_atomic) auto

lemma finishes_chain:
  "f (nd_chain (sh_node s)) = Returns c a \<Longrightarrow> G s (s\<lparr>sh_node := (sh_node s)\<lparr>nd_chain := c\<rparr>\<rparr>) \<Longrightarrow>
     finishes G spawn (on_chain_only f) s (s\<lparr>sh_node := (sh_node s)\<lparr>nd_chain := c\<rparr>\<rparr>) a"
  unfolding on_chain_only_def by (rule finishes_on_node) (auto simp: on_chain_def)

lemma finishes_LastBlock:
  assumes "ch_mu (nd_chain (sh_node s)) = Unlocked" and "tip_block (nd_chain (sh_node s)) = Inr (Some l)" and "G s s"
  shows "finishes G spawn go_LastBlock s s (Inr (Some l))"
  unfolding go_LastBlock_def
proof (rule finishes_seq)
  let ?c = "nd_chain (sh_node s)"
  have t: "tip_section ?c = Returns ?c (ch_LastHash ?c, ch_Height ?c)"
    using assms(1) by (simp add: tip_section_def chain_RLock_def chain_RUnlock_def)
  show "finishes G spawn (on_chain_only tip_section) s s (ch_LastHash ?c, ch_Height ?c)"
    using finishes_chain [where f = tip_section, OF t, of G spawn] assms(3) by simp
  have g: "GetBlock ?c h = Returns ?c (read_block (ch_disk ?c) h)" for h by (rule GetBlock_free [OF assms(1)])
  have "finishes G spawn (on_chain_only (\<lambda>c. GetBlock c (ch_LastHash ?c))) s s (Inr l)"
    using finishes_chain [where f = "\<lambda>c. GetBlock c (ch_LastHash ?c)", OF g, of G spawn] assms by (auto simp: tip_block_def split: if_splits sum.splits)
  from finishes_seq [OF this, of "\<lambda>r. Done (case r of Inl e \<Rightarrow> Inl e | Inr b \<Rightarrow> Inr (Some b))" s "Inr (Some l)"]
  show "finishes G spawn (case (ch_LastHash ?c, ch_Height ?c) of (h, _) \<Rightarrow> if Hash_IsZero h then Done (Inr None)
      else seq (on_chain_only (\<lambda>c. GetBlock c h)) (\<lambda>r. Done (case r of Inl e \<Rightarrow> Inl e | Inr b \<Rightarrow> Inr (Some b)))) s s (Inr (Some l))"
    using assms(2) by (auto simp: tip_block_def finishes_Done split: if_splits)
qed

lemma fresh_tip_same: "ch_LastHash (nd_chain (sh_node s')) = ch_LastHash (nd_chain (sh_node s)) \<Longrightarrow>
    ch_Height (nd_chain (sh_node s')) = ch_Height (nd_chain (sh_node s)) \<Longrightarrow> fresh_tip s s'"
  by (simp add: fresh_tip_def)

lemma publish_finishes:
  assumes ap: "ApplyBlock L (nd_state n) b = (st, None)" and s: "\<not> sh_poolMu s" "sh_node s = n"
    and a: "append_section b (nd_chain n) = Returns c1 None" "Chain_Save c1 = Returns c2 None"
    and tip: "ch_LastHash c1 = blk_Hash b" "ch_LastHash c2 = ch_LastHash c1" "ch_Height c2 = ch_Height c1" "ch_Height c1 + 1 \<noteq> 0"
    and new: "\<not> Hash_IsZero (blk_Hash b)" "stored_block (ch_disk (nd_chain n)) (blk_Hash b) = None"
  shows "finishes fresh_tip spawn (publish cl L b txs) s
    (s\<lparr>sh_node := node_Broadcast (unlock_blockMu (if txs = [] then n\<lparr>nd_state := st, nd_chain := c2\<rparr>
      else node_Remove cl (n\<lparr>nd_state := st, nd_chain := c2\<rparr>) txs)) KindNewBlock (block_json b)\<rparr>) ()"
proof -
  let ?s = "\<lambda>n. s\<lparr>sh_node := n\<rparr>"
  let ?n2 = "n\<lparr>nd_state := st\<rparr>" and ?n3 = "n\<lparr>nd_state := st, nd_chain := c2\<rparr>"
  let ?n4 = "if txs = [] then ?n3 else node_Remove cl ?n3 txs"
  have 1: "finishes fresh_tip spawn (go_ApplyBlock L b) s (?s ?n2) None"
    unfolding go_ApplyBlock_def by (rule finishes_on_node) (auto simp: node_ApplyBlock_def s ap intro: fresh_tip_same)
  have "fresh_tip (?s ?n2) (?s (?n2\<lparr>nd_chain := c1\<rparr>))"
    using tip new by (simp add: fresh_tip_def)
  then have 21: "finishes fresh_tip spawn (on_chain_only (append_section b)) (?s ?n2) (?s (?n2\<lparr>nd_chain := c1\<rparr>)) None"
    using finishes_chain [of "append_section b" "?s ?n2" c1 None fresh_tip spawn] a(1) by simp
  have 22: "finishes fresh_tip spawn (on_chain_only Chain_Save) (?s (?n2\<lparr>nd_chain := c1\<rparr>)) (?s ?n3) None"
    using finishes_chain [of Chain_Save "?s (?n2\<lparr>nd_chain := c1\<rparr>)" c2 None fresh_tip spawn] a(2) tip by (simp add: fresh_tip_same)
  have 2: "finishes fresh_tip spawn (go_AppendBlock b) (?s ?n2) (?s ?n3) None"
    unfolding go_AppendBlock_def by (rule finishes_seq [OF 21]) (simp add: 22)
  have 3: "finishes fresh_tip spawn (go_Remove cl txs) (?s ?n3) (?s ?n4) ()"
    using finishes_on_pool [of "?s ?n3" "\<lambda>n. (node_Remove cl n txs, ())" "node_Remove cl ?n3 txs" "()" fresh_tip spawn] s(1)
    by (simp add: go_Remove_def finishes_Done node_Remove_def fresh_tip_same)
  have 4: "finishes fresh_tip spawn go_Unlock (?s ?n4) (?s (unlock_blockMu ?n4)) ()"
    unfolding go_Unlock_def using finishes_change [of fresh_tip "?s ?n4" unlock_blockMu spawn] by (simp add: unlock_blockMu_def fresh_tip_same)
  have 5: "finishes fresh_tip spawn (go_Broadcast KindNewBlock (block_json b)) (?s m) (?s (node_Broadcast m KindNewBlock (block_json b))) ()" for m
    unfolding go_Broadcast_def using finishes_change [of fresh_tip "?s m" "\<lambda>n. node_Broadcast n KindNewBlock (block_json b)" spawn]
    by (simp add: node_Broadcast_def fresh_tip_same split_def)
  show ?thesis unfolding publish_def
    by (rule finishes_seq [OF 1], simp only: option.case, rule finishes_seq [OF 2], simp only: option.case,
      rule finishes_seq [OF 3], rule finishes_seq [OF 4], rule 5)
qed

lemma tick_finishes:
  fixes n :: "'db Node" and L :: "'db leveldb"
  assumes free: "node_free n" and tip: "tip_block (nd_chain n) = Inr (Some l)" and turn: "my_turn L env n l"
    and txs: "Mempool_Pending (nd_pool n) 100 = txs" "txs \<noteq> []"
    and sig: "Sign cl seed (env_priv env) (blk_Hash (produced cl env now l txs [])) = Value sig"
    and b: "b = produced cl env now l txs sig"
    and rest: "finishes fresh_tip spawn (publish cl L b txs) (started (n\<lparr>nd_blockMu := True\<rparr>)) s' ()"
  shows "finishes fresh_tip spawn (go_produce cl L env now seed) (started n) s' ()"
proof -
  let ?s1 = "started (n\<lparr>nd_blockMu := True\<rparr>)"
  have mu: "ch_mu (nd_chain (sh_node ?s1)) = Unlocked" using free by (simp add: node_free_def started_def)
  have refl: "fresh_tip ?s1 ?s1" by (rule fresh_tip_same) simp_all
  have 1: "finishes fresh_tip spawn go_Lock (started n) ?s1 ()"
    using finishes_on_node [of lock_blockMu "started n" "n\<lparr>nd_blockMu := True\<rparr>" "()" fresh_tip spawn] lock_free(1) [OF free]
    by (simp add: go_Lock_def started_def fresh_tip_same)
  have 2: "finishes fresh_tip spawn go_LastBlock ?s1 ?s1 (Inr (Some l))"
    by (rule finishes_LastBlock [where G = fresh_tip, OF mu _ refl]) (use tip in \<open>simp add: started_def\<close>)
  have 3: "finishes fresh_tip spawn (look (getValidatorSet L)) ?s1 ?s1 (getValidatorSet L (sh_node ?s1))"
    by (rule finishes_look [where G = fresh_tip, OF refl])
  have 4: "finishes fresh_tip spawn (go_Pending 100) ?s1 ?s1 txs"
    using finishes_on_pool [of ?s1 "\<lambda>n. (n, Mempool_Pending (nd_pool n) 100)" "sh_node ?s1" txs fresh_tip spawn] txs(1) refl
    by (simp add: go_Pending_def started_def)
  note tests = tick_tests [OF turn sig b]
  show ?thesis unfolding go_produce_def
    by (rule finishes_seq [OF 1], rule finishes_seq [OF 2], simp only: sum.case option.case,
        rule finishes_seq [OF 3], subst if_not_P [OF tests(3)], rule finishes_seq [OF 4])
      (use rest txs(2) in \<open>simp add: Let_def tests(1,2) publish_def\<close>)
qed

lemma Add_finishes:
  assumes "Mempool_Add cl L (Some (nd_state n)) (nd_pool n) tx = (m, None)" and "leveldb_ok L" and s: "\<not> sh_poolMu s" "sh_node s = n"
  shows "finishes fresh_tip spawn (go_Add cl L tx) s (s\<lparr>sh_node := n\<lparr>nd_pool := m\<rparr>, sh_accepted := TxHash cl tx # sh_accepted s\<rparr>) None"
proof -
  let ?s1 = "s\<lparr>sh_poolMu := True\<rparr>"
  have st: "state_check L (Some (nd_state n)) tx = None" and enter: "add_enter cl tx s = Returns ?s1 None"
    and new: "\<not> has_hash cl (TxHash cl tx) (mp_txs (nd_pool n))" and m: "m = (nd_pool n)\<lparr>mp_txs := mp_txs (nd_pool n) @ [tx]\<rparr>"
    using assms by (auto simp: Mempool_Add_def add_enter_def Let_def split: if_splits option.splits)
  have ok: "tx_Nonce tx = nonce_of L (st_db (nd_state n)) (tx_From tx)" "\<not> balance_of L (st_db (nd_state n)) (tx_From tx) < tx_Amount tx + tx_Fee tx"
    using st by (auto simp: state_check_None_iff [OF assms(2)] funded_def)
  have 1: "finishes fresh_tip spawn (atomic (add_enter cl tx)) s ?s1 None"
    by (rule finishes_atomic [where f = "add_enter cl tx", OF enter]) (simp add: fresh_tip_same)
  have s1: "sh_node ?s1 = n" "fresh_tip ?s1 ?s1" using s(2) by (simp_all add: fresh_tip_same)
  note look = finishes_look [of fresh_tip ?s1, OF s1(2), unfolded s1(1)]
  have 2: "finishes fresh_tip spawn (atomic (add_append cl tx)) ?s1
      (s\<lparr>sh_node := n\<lparr>nd_pool := m\<rparr>, sh_accepted := TxHash cl tx # sh_accepted s\<rparr>) None"
    by (rule finishes_atomic) (use new m s in \<open>auto simp: add_append_def add_leave_def Let_def fresh_tip_same\<close>)
  show ?thesis unfolding go_Add_def
    by (rule finishes_seq [OF 1], simp only: option.case, rule finishes_seq [OF look], simp only: GetBalance_eq [OF assms(2)] prod.case option.case,
        rule finishes_seq [OF look]) (simp add: GetNonce_eq [OF assms(2)] ok 2)
qed

text \<open>A node with the genesis block alone and two pending transactions: a tick that runs to its end, and a third
  transaction of a peer that is accepted.\<close>

lemma demo_append_stages:
  assumes c: "chain_on_disk c [demo_genesis]" "healthy (ch_disk c)" "NewChain (ch_disk c) (Some (ch_cfg c)) = Inr c"
    and only: "\<And>h. h \<noteq> blk_Hash demo_genesis \<Longrightarrow> read_block (ch_disk c) h = Inl NotExistError"
  shows "\<exists>c1 c2. append_section demo_block c = Returns c1 None \<and> Chain_Save c1 = Returns c2 None \<and>
    ch_LastHash c1 = blk_Hash demo_block \<and> ch_Height c1 = 1 \<and> ch_LastHash c2 = blk_Hash demo_block \<and> ch_Height c2 = 1 \<and>
    chain_on_disk c2 [demo_genesis, demo_block]"
proof -
  have t: "ch_LastHash c = blk_Hash demo_genesis" "blk_Height demo_genesis = 0"
    using chain_tip(3) [OF c(1)] by (simp_all add: demo_genesis_def GenesisBlock_def SetHash_def Let_def)
  have f: "blk_Height demo_block = of_nat (length [demo_genesis])" "blk_PreviousHash demo_block = ch_LastHash c"
    using t by (simp_all add: demo_block_def produced_def NewBlock_def SetHash_def Let_def)
  have n: "stored_block (ch_disk c) (blk_Hash demo_block) = None" using only [OF demo_block_hash(2)] by (simp add: stored_block_def)
  obtain c1 c2 where st: "append_section demo_block c = Returns c1 None" "Chain_Save c1 = Returns c2 None"
      "ch_LastHash c1 = blk_Hash demo_block" "ch_Height c1 = blk_Height demo_block" "chain_on_disk c2 ([demo_genesis] @ [demo_block])"
    by (rule append_stages [OF c demo_block_wf f demo_block_hash(1) n]) auto
  have "ch_Height c2 = 1" "ch_LastHash c2 = blk_Hash demo_block"
    using st(5) by (auto simp: chain_on_disk_def tip_hash_def)
  then show ?thesis using st f(1) by (intro exI [of _ c1] exI [of _ c2]) simp
qed

definition demo_start :: "Chain \<Rightarrow> bool" where
  "demo_start c \<longleftrightarrow> chain_on_disk c [demo_genesis] \<and> healthy (ch_disk c) \<and> NewChain (ch_disk c) (Some (ch_cfg c)) = Inr c \<and>
     (\<forall>h. h \<noteq> blk_Hash demo_genesis \<longrightarrow> read_block (ch_disk c) h = Inl NotExistError)"

lemma demo_start: "\<exists>c. demo_start c"
  by (rule demo_chain_only) (auto simp: demo_start_def)

lemma fresh_tip_refl: "fresh_tip s s"
  by (rule fresh_tip_same) simp_all

lemma demo_tick_run:
  assumes "demo_start c"
  shows "\<exists>m s. run (node_steps demo_crypto mem_leveldb demo_env) (Alive (started (demo_node c)) [])
      (Go (EvTick 1 0) # replicate m (Sched 0)) (Alive s [Done ()]) \<and>
    chain_on_disk (nd_chain (sh_node s)) [demo_genesis, demo_block] \<and> \<not> nd_blockMu (sh_node s)"
proof -
  let ?txs = "[demo_tx 5, demo_tx 50]" and ?n = "(demo_node c)\<lparr>nd_blockMu := True\<rparr>"
  have c: "chain_on_disk c [demo_genesis]" "healthy (ch_disk c)" "NewChain (ch_disk c) (Some (ch_cfg c)) = Inr c"
      "\<And>h. h \<noteq> blk_Hash demo_genesis \<Longrightarrow> read_block (ch_disk c) h = Inl NotExistError"
    using assms by (auto simp: demo_start_def)
  obtain c1 c2 where st: "append_section demo_block c = Returns c1 None" "Chain_Save c1 = Returns c2 None"
    "ch_LastHash c1 = blk_Hash demo_block" "ch_Height c1 = 1" "ch_LastHash c2 = blk_Hash demo_block" "ch_Height c2 = 1"
    "chain_on_disk c2 [demo_genesis, demo_block]" using demo_append_stages [OF c] by blast
  obtain w where w: "ApplyBlock mem_leveldb (nd_state ?n) demo_block = (w, None)"
    using ApplyBlock_ok [OF mem_writes_ok] by blast
  have p: "Mempool_Pending (nd_pool (demo_node c)) 100 = ?txs" "?txs \<noteq> []"
    by (simp_all add: demo_node_def demo_pool_def Mempool_Pending_def Let_def)
  have tip: "tip_block (nd_chain (demo_node c)) = Inr (Some demo_genesis)" using chain_tip(1) [OF c(1)] by (simp add: demo_node_def)
  let ?s' = "(started ?n)\<lparr>sh_node := node_Broadcast (unlock_blockMu (if ?txs = [] then ?n\<lparr>nd_state := w, nd_chain := c2\<rparr>
      else node_Remove demo_crypto (?n\<lparr>nd_state := w, nd_chain := c2\<rparr>) ?txs)) KindNewBlock (block_json demo_block)\<rparr>"
  have "finishes fresh_tip (goroutine demo_crypto mem_leveldb demo_env) (publish demo_crypto mem_leveldb demo_block ?txs) (started ?n) ?s' ()"
    by (rule publish_finishes [OF w]) (use st demo_block_hash c(4) in \<open>auto simp: started_def demo_node_def stored_block_def\<close>)
  from tick_finishes [OF demo_node_free [OF c(1)] tip demo_turn p demo_Sign demo_block_def this]
  have "finishes fresh_tip (goroutine demo_crypto mem_leveldb demo_env) (goroutine demo_crypto mem_leveldb demo_env (EvTick 1 0))
      (started (demo_node c)) ?s' ()" by simp
  from finishes_run [OF this fresh_tip_refl] obtain m
    where "run (node_steps demo_crypto mem_leveldb demo_env) (Alive (started (demo_node c)) []) (Go (EvTick 1 0) # replicate m (Sched 0)) (Alive ?s' [Done ()])"
    unfolding node_steps_def [abs_def] by blast
  then show ?thesis
    using st(7) by (intro exI [of _ m] exI [of _ ?s']) (simp add: node_Broadcast_def unlock_blockMu_def node_Remove_def split_def)
qed

lemma demo_Add:
  "Mempool_Add demo_crypto mem_leveldb (Some sender_state) demo_pool (demo_tx 7) = (demo_pool\<lparr>mp_txs := [demo_tx 5, demo_tx 50, demo_tx 7]\<rparr>, None)"
proof -
  have "nonce_of mem_leveldb (st_db sender_state) demo_sender = 0" "balance_of mem_leveldb (st_db sender_state) demo_sender = 1000"
    by code_simp+
  then have "state_check mem_leveldb (Some sender_state) (demo_tx 7) = None"
    by (simp add: state_check_None_iff [OF mem_leveldb_ok] funded_def demo_tx_def pay_def)
  moreover have "\<not> has_hash demo_crypto (TxHash demo_crypto (demo_tx 7)) [demo_tx 5, demo_tx 50]" by code_simp
  ultimately show ?thesis
    using demo_tx_signed [of 7] by (simp add: Mempool_Add_def demo_pool_def SatisfiesMinFee_def) (simp add: demo_tx_def pay_def MinFee_def)
qed

lemma demo_tx_run:
  assumes "demo_start c"
  shows "\<exists>m s. run (node_steps demo_crypto mem_leveldb demo_env) (Alive (started (demo_node c)) [])
      (Go (EvMessage 0 KindNewTx (Some (tx_json (demo_tx 7)))) # replicate m (Sched 0)) (Alive s [Done ()]) \<and>
    sh_accepted s = [TxHash demo_crypto (demo_tx 7)] \<and> \<not> nd_blockMu (sh_node s)"
proof -
  let ?e = "EvMessage 0 KindNewTx (Some (tx_json (demo_tx 7)))"
  let ?s1 = "(started (demo_node c))\<lparr>sh_node := (demo_node c)\<lparr>nd_pool := demo_pool\<lparr>mp_txs := [demo_tx 5, demo_tx 50, demo_tx 7]\<rparr>\<rparr>,
    sh_accepted := TxHash demo_crypto (demo_tx 7) # sh_accepted (started (demo_node c))\<rparr>"
  let ?s' = "?s1\<lparr>sh_node := node_Broadcast (sh_node ?s1) KindNewTx (tx_json (demo_tx 7))\<rparr>"
  have t: "goroutine demo_crypto mem_leveldb demo_env ?e = go_new_tx demo_crypto mem_leveldb (demo_tx 7)"
    by (simp add: go_message_def KindHello_def KindGetBlocks_def KindBlocks_def KindNewBlock_def KindNewTx_def unmarshal_def dec_tx_json wf_demo_tx)
  have 1: "finishes fresh_tip spawn (go_Add demo_crypto mem_leveldb (demo_tx 7)) (started (demo_node c)) ?s1 None" for spawn :: "node_event \<Rightarrow> _"
    by (rule Add_finishes [OF _ mem_leveldb_ok]) (simp_all add: demo_node_def started_def demo_Add)
  have 2: "finishes fresh_tip spawn (go_Broadcast KindNewTx (tx_json (demo_tx 7))) ?s1 ?s' ()" for spawn :: "node_event \<Rightarrow> _"
    unfolding go_Broadcast_def by (rule finishes_change) (rule fresh_tip_same, simp_all add: node_Broadcast_def split_def)
  have "finishes fresh_tip spawn (go_new_tx demo_crypto mem_leveldb (demo_tx 7)) (started (demo_node c)) ?s' ()" for spawn :: "node_event \<Rightarrow> _"
    unfolding go_new_tx_def by (rule finishes_seq [OF 1]) (simp only: option.case 2)
  from finishes_run [of fresh_tip "goroutine demo_crypto mem_leveldb demo_env" ?e, unfolded t, OF this fresh_tip_refl] obtain m
    where "run (node_steps demo_crypto mem_leveldb demo_env) (Alive (started (demo_node c)) []) (Go ?e # replicate m (Sched 0)) (Alive ?s' [Done ()])"
    unfolding node_steps_def [abs_def] by blast
  then show ?thesis
    by (intro exI [of _ m] exI [of _ ?s']) (simp add: node_Broadcast_def started_def demo_node_def split_def)
qed

section \<open>The properties\<close>

text \<open>C7: chain and ledger move together. Start a node on a stored chain, with a working disk and database, and let any
  goroutines (connections with arbitrary messages, requests, ticks) start at any time and interleave their steps in
  any order. As long as no new tip has the hash of a stored block, in every state in which no goroutine holds the block mutex the
  stored chain is the chain at the start followed by new blocks, so no stored block is lost, and the balances and
  nonces are those the specification gives for exactly these new blocks on the ledger at the start.\<close>

theorem ledger_follows_chain:
  fixes L :: "'db leveldb"
  assumes "digest_size cl" and "leveldb_ok L" and "writes_ok L" and "length (env_validatorAddr env) = 20" and "node_ok cl n"
    and "\<not> nd_blockMu n" and "chain_on_disk (nd_chain n) gs" and "healthy (ch_disk (nd_chain n))" and "gs \<noteq> []"
    and "run (node_steps cl L env) (Alive (started n) []) ls (Alive s ts)" and "\<not> nd_blockMu (sh_node s)"
  shows "\<exists>bs. chain_on_disk (nd_chain (sh_node s)) (gs @ bs) \<and>
    (balance_of L (st_db (nd_state (sh_node s))), nonce_of L (st_db (nd_state (sh_node s)))) =
      spec_replay (balance_of L (st_db (nd_state n)), nonce_of L (st_db (nd_state n))) bs"
  using run_synced(2) [OF assms(1-9) refl assms(10)] assms(11) unfolding held_def synced_def by blast

theorem ledger_follows_chain_witness:
  "\<exists>c m s. run (node_steps demo_crypto mem_leveldb demo_env) (Alive (started (demo_node c)) [])
      (Go (EvTick 1 0) # replicate m (Sched 0)) (Alive s [Done ()]) \<and>
    chain_on_disk (nd_chain (sh_node s)) [demo_genesis, demo_block] \<and>
    (balance_of mem_leveldb (st_db (nd_state (sh_node s))), nonce_of mem_leveldb (st_db (nd_state (sh_node s)))) =
      spec_replay (balance_of mem_leveldb (st_db sender_state), nonce_of mem_leveldb (st_db sender_state)) [demo_block]"
proof -
  obtain c where c: "demo_start c" using demo_start by blast
  let ?n = "demo_node c"
  have n: "\<not> nd_blockMu ?n" "chain_on_disk (nd_chain ?n) [demo_genesis]" "healthy (ch_disk (nd_chain ?n))" "[demo_genesis] \<noteq> []"
    using c by (simp_all add: demo_start_def demo_node_def)
  obtain m s where r: "run (node_steps demo_crypto mem_leveldb demo_env) (Alive (started ?n) []) (Go (EvTick 1 0) # replicate m (Sched 0)) (Alive s [Done ()])"
      "chain_on_disk (nd_chain (sh_node s)) [demo_genesis, demo_block]" "\<not> nd_blockMu (sh_node s)"
    using demo_tick_run [OF c] by blast
  obtain bs where bs: "chain_on_disk (nd_chain (sh_node s)) ([demo_genesis] @ bs)"
      "(balance_of mem_leveldb (st_db (nd_state (sh_node s))), nonce_of mem_leveldb (st_db (nd_state (sh_node s)))) =
        spec_replay (balance_of mem_leveldb (st_db (nd_state ?n)), nonce_of mem_leveldb (st_db (nd_state ?n))) bs"
    using ledger_follows_chain [OF demo_digest_size mem_leveldb_ok mem_writes_ok demo_validator demo_node_ok n r(1,3)] by blast
  have "bs = [demo_block]" using chain_on_disk_unique [OF bs(1) r(2)] by simp
  then show ?thesis using r bs by (auto simp: demo_node_def)
qed

text \<open>C8: no accepted transaction is lost. In every such run, whenever the block mutex is free, every transaction
  the pool has accepted since the start (from a peer or over HTTP) is still pending or is in one of the new blocks of the
  stored chain: a transaction with its hash is there.\<close>

theorem accepted_never_lost:
  fixes L :: "'db leveldb"
  assumes "digest_size cl" and "leveldb_ok L" and "writes_ok L" and "length (env_validatorAddr env) = 20" and "node_ok cl n"
    and "\<not> nd_blockMu n" and "chain_on_disk (nd_chain n) gs" and "healthy (ch_disk (nd_chain n))" and "gs \<noteq> []"
    and "run (node_steps cl L env) (Alive (started n) []) ls (Alive s ts)" and "\<not> nd_blockMu (sh_node s)"
    and "h \<in> set (sh_accepted s)"
  shows "\<exists>bs. chain_on_disk (nd_chain (sh_node s)) (gs @ bs) \<and>
    (\<exists>tx. TxHash cl tx = h \<and> (tx \<in> set (mp_txs (nd_pool (sh_node s))) \<or> (\<exists>b. b \<in> set bs \<and> tx \<in> set (blk_Transactions b))))"
proof -
  obtain bs where "synced cl L gs (balance_of L (st_db (nd_state n)), nonce_of L (st_db (nd_state n))) bs s"
    using run_synced(2) [OF assms(1-9) refl assms(10)] assms(11) unfolding held_def by blast
  then have "chain_on_disk (nd_chain (sh_node s)) (gs @ bs)" "h \<in> pool_hashes cl s \<union> chain_txs cl bs"
    using assms(12) by (auto simp: synced_def)
  then show ?thesis by (intro exI [of _ bs]) (auto simp: pool_hashes_def chain_txs_def)
qed

theorem accepted_never_lost_witness:
  "\<exists>c m s bs. run (node_steps demo_crypto mem_leveldb demo_env) (Alive (started (demo_node c)) [])
      (Go (EvMessage 0 KindNewTx (Some (tx_json (demo_tx 7)))) # replicate m (Sched 0)) (Alive s [Done ()]) \<and>
    chain_on_disk (nd_chain (sh_node s)) ([demo_genesis] @ bs) \<and>
    (\<exists>tx. TxHash demo_crypto tx = TxHash demo_crypto (demo_tx 7) \<and>
      (tx \<in> set (mp_txs (nd_pool (sh_node s))) \<or> (\<exists>b. b \<in> set bs \<and> tx \<in> set (blk_Transactions b))))"
proof -
  obtain c where c: "demo_start c" using demo_start by blast
  let ?n = "demo_node c"
  have n: "\<not> nd_blockMu ?n" "chain_on_disk (nd_chain ?n) [demo_genesis]" "healthy (ch_disk (nd_chain ?n))" "[demo_genesis] \<noteq> []"
    using c by (simp_all add: demo_start_def demo_node_def)
  obtain m s where r: "run (node_steps demo_crypto mem_leveldb demo_env) (Alive (started ?n) [])
        (Go (EvMessage 0 KindNewTx (Some (tx_json (demo_tx 7)))) # replicate m (Sched 0)) (Alive s [Done ()])"
      "TxHash demo_crypto (demo_tx 7) \<in> set (sh_accepted s)" "\<not> nd_blockMu (sh_node s)"
    using demo_tx_run [OF c] by auto
  show ?thesis
    using accepted_never_lost [OF demo_digest_size mem_leveldb_ok mem_writes_ok demo_validator demo_node_ok n r(1,3,2)] r(1) by blast
qed

text \<open>C16: a process killed during a tick. Stopped between any two steps of a tick that would have succeeded (the
  database batch, the block file with its rename, the tip file), the process leaves a directory from which the next start
  loads the old chain, or the old chain with the new block; the ledger is the old one or the new one, and the chain is never ahead of
  the ledger. The ledger may be ahead of the chain: one of these stops leaves the balances and nonces of a block that
  the stored chain does not have.\<close>

theorem killed_during_tick:
  fixes n :: "'db Node" and L :: "'db leveldb"
  assumes "node_free n" and "chain_on_disk (nd_chain n) bs" and "bs \<noteq> []" and "length bs + 1 < 2 ^ 64"
    and "healthy (ch_disk (nd_chain n))" and "NewChain (ch_disk (nd_chain n)) (Some cfg) = Inr (nd_chain n)"
    and "digest_size cl" and "length (env_validatorAddr env) = 20" and "node_ok cl n" and "my_turn L env n (last bs)"
    and "txs = Mempool_Pending (nd_pool n) 100" and "txs \<noteq> []"
    and "Sign cl seed (env_priv env) (blk_Hash (produced cl env now (last bs) txs [])) = Value sig"
    and "b = produced cl env now (last bs) txs sig" and "\<not> Hash_IsZero (blk_Hash b)"
    and "stored_block (ch_disk (nd_chain n)) (blk_Hash b) = None" and "ApplyBlock L (nd_state n) b = (st, None)"
  shows "(\<forall>m s ts. run (interleave (goroutine cl L env)) (Alive (started n) [goroutine cl L env (EvTick now seed)])
        (replicate m (Sched 0)) (Alive s ts) \<longrightarrow>
      holds_chain cfg (fst (view s)) bs \<and> ledger L (snd (view s)) \<in> {ledger L (st_db (nd_state n)), ledger L (st_db st)} \<or>
      holds_chain cfg (fst (view s)) (bs @ [b]) \<and> ledger L (snd (view s)) = ledger L (st_db st)) \<and>
    (\<exists>m s ts. run (interleave (goroutine cl L env)) (Alive (started n) [goroutine cl L env (EvTick now seed)])
        (replicate m (Sched 0)) (Alive s ts) \<and>
      holds_chain cfg (fst (view s)) bs \<and> ledger L (snd (view s)) = ledger L (st_db st))"
proof -
  obtain d1 d2 where v: "view ` {s. reaches (go_produce cl L env now seed) (started n) s} =
      {(ch_disk (nd_chain n), st_db (nd_state n)), (ch_disk (nd_chain n), st_db st), (d1, st_db st), (d2, st_db st)}"
    and h: "holds_chain cfg (ch_disk (nd_chain n)) bs" "holds_chain cfg d1 bs" "holds_chain cfg d2 (bs @ [b])"
    by (rule tick_views [OF assms])
  have "view s \<in> {(ch_disk (nd_chain n), st_db (nd_state n)), (ch_disk (nd_chain n), st_db st), (d1, st_db st), (d2, st_db st)}"
    if "run (interleave (goroutine cl L env)) (Alive (started n) [goroutine cl L env (EvTick now seed)])
        (replicate m (Sched 0)) (Alive s ts)" for m s ts
    using reaches_run [OF that] v by auto
  moreover obtain s where s: "reaches (go_produce cl L env now seed) (started n) s" "view s = (ch_disk (nd_chain n), st_db st)"
    using v by (metis (mono_tags, lifting) imageE insertI1 insertI2 mem_Collect_eq)
  moreover obtain m ts where "run (interleave (goroutine cl L env)) (Alive (started n) [goroutine cl L env (EvTick now seed)])
        (replicate m (Sched 0)) (Alive s ts)"
    using run_reaches [OF s(1), of "goroutine cl L env"] by auto
  ultimately show ?thesis using h by (intro conjI allI impI exI [of _ m] exI [of _ s] exI [of _ ts]) fastforce+
qed

lemma demo_bob: "balance_of mem_leveldb (st_db (fst (ApplyBlock mem_leveldb sender_state demo_block))) bob = 55"
proof -
  let ?b = "zero_block\<lparr>blk_Transactions := [demo_tx 5, demo_tx 50], blk_ValidatorAddress := demo_sender\<rparr>"
  have "ApplyBlock mem_leveldb sender_state demo_block = ApplyBlock mem_leveldb sender_state ?b"
    by (simp add: ApplyBlock_def demo_block_def produced_def NewBlock_def SetHash_def Let_def demo_env_def)
  moreover have "balance_of mem_leveldb (st_db (fst (ApplyBlock mem_leveldb sender_state ?b))) bob = 55" by code_simp
  ultimately show ?thesis by simp
qed

theorem killed_during_tick_witness:
  "\<exists>c m s ts. chain_on_disk c [demo_genesis] \<and>
     run (interleave (goroutine demo_crypto mem_leveldb demo_env)) (Alive (started (demo_node c)) [goroutine demo_crypto mem_leveldb demo_env (EvTick 1 0)])
       (replicate m (Sched 0)) (Alive s ts) \<and>
     holds_chain (ch_cfg c) (fst (view s)) [demo_genesis] \<and> fst (ledger mem_leveldb (snd (view s))) bob = 55"
proof -
  obtain c where "demo_start c" using demo_start by blast
  then have c: "chain_on_disk c [demo_genesis]" "healthy (ch_disk c)" "NewChain (ch_disk c) (Some (ch_cfg c)) = Inr c"
      "\<And>h. h \<noteq> blk_Hash demo_genesis \<Longrightarrow> read_block (ch_disk c) h = Inl NotExistError"
    by (auto simp: demo_start_def)
  let ?n = "demo_node c" and ?txs = "[demo_tx 5, demo_tx 50]"
  have n: "chain_on_disk (nd_chain ?n) [demo_genesis]" "healthy (ch_disk (nd_chain ?n))"
      "NewChain (ch_disk (nd_chain ?n)) (Some (ch_cfg c)) = Inr (nd_chain ?n)"
      "?txs = Mempool_Pending (nd_pool ?n) 100" "stored_block (ch_disk (nd_chain ?n)) (blk_Hash demo_block) = None"
    using c demo_block_hash(2) by (simp_all add: demo_node_def demo_pool_def Mempool_Pending_def Let_def stored_block_def)
  obtain st where st: "ApplyBlock mem_leveldb (nd_state ?n) demo_block = (st, None)"
    using ApplyBlock_ok [OF mem_writes_ok] by blast
  then have bob: "fst (ledger mem_leveldb (st_db st)) bob = 55" using demo_bob by (simp add: demo_node_def ledger_def)
  have "\<exists>m s ts. run (interleave (goroutine demo_crypto mem_leveldb demo_env)) (Alive (started ?n) [goroutine demo_crypto mem_leveldb demo_env (EvTick 1 0)])
        (replicate m (Sched 0)) (Alive s ts) \<and>
      holds_chain (ch_cfg c) (fst (view s)) [demo_genesis] \<and> ledger mem_leveldb (snd (view s)) = ledger mem_leveldb (st_db st)"
    by (rule killed_during_tick [THEN conjunct2, OF demo_node_free [OF c(1)] n(1) _ _ n(2,3) demo_digest_size demo_validator demo_node_ok _ n(4) _ _ _
        demo_block_hash(1) n(5) st, of 0 1]) (use demo_turn demo_Sign in \<open>simp_all add: demo_block_def\<close>)
  then show ?thesis using c(1) bob by (metis (no_types, lifting))
qed

end
