(* ===== verification/Sha256.thy ===== *)
theory Sha256
  imports Crypto
begin

unbundle bit_operations_syntax

text \<open>
  \<^verbatim>\<open>crypto/sha256\<close> of Go's library, as \<^verbatim>\<open>HashBytes\<close>, \<^verbatim>\<open>HashMessage\<close> and
  \<^verbatim>\<open>PubkeyToAddress\<close> use it: padding, message schedule and compression on 32-bit words
  (FIPS 180-4). The rest of the development takes the digest as a parameter; this theory gives the
  function the node runs with and shows that it meets what is asked of the parameter.
\<close>

type_synonym u32 = "32 word"

section \<open>Definitions\<close>

definition rotr32 :: "nat \<Rightarrow> u32 \<Rightarrow> u32" where
  "rotr32 n x = (drop_bit n x OR push_bit (32 - n) x)"

definition Ch :: "u32 \<Rightarrow> u32 \<Rightarrow> u32 \<Rightarrow> u32" where
  "Ch e f g = ((e AND f) XOR (NOT e AND g))"

definition Maj :: "u32 \<Rightarrow> u32 \<Rightarrow> u32 \<Rightarrow> u32" where
  "Maj a b c = ((a AND b) XOR (a AND c) XOR (b AND c))"

definition big_sigma0 :: "u32 \<Rightarrow> u32" where
  "big_sigma0 a = (rotr32 2 a XOR rotr32 13 a XOR rotr32 22 a)"

definition big_sigma1 :: "u32 \<Rightarrow> u32" where
  "big_sigma1 e = (rotr32 6 e XOR rotr32 11 e XOR rotr32 25 e)"

definition small_sigma0 :: "u32 \<Rightarrow> u32" where
  "small_sigma0 w = (rotr32 7 w XOR rotr32 18 w XOR drop_bit 3 w)"

definition small_sigma1 :: "u32 \<Rightarrow> u32" where
  "small_sigma1 w = (rotr32 17 w XOR rotr32 19 w XOR drop_bit 10 w)"

text \<open>The constants are written in decimal.\<close>

definition round_constants :: "u32 list" where
  "round_constants = [
     1116352408, 1899447441, 3049323471, 3921009573, 961987163, 1508970993, 2453635748, 2870763221,
     3624381080, 310598401, 607225278, 1426881987, 1925078388, 2162078206, 2614888103, 3248222580,
     3835390401, 4022224774, 264347078, 604807628, 770255983, 1249150122, 1555081692, 1996064986,
     2554220882, 2821834349, 2952996808, 3210313671, 3336571891, 3584528711, 113926993, 338241895,
     666307205, 773529912, 1294757372, 1396182291, 1695183700, 1986661051, 2177026350, 2456956037,
     2730485921, 2820302411, 3259730800, 3345764771, 3516065817, 3600352804, 4094571909, 275423344,
     430227734, 506948616, 659060556, 883997877, 958139571, 1322822218, 1537002063, 1747873779,
     1955562222, 2024104815, 2227730452, 2361852424, 2428436474, 2756734187, 3204031479, 3329325298]"

record digest =
  dg_a :: u32
  dg_b :: u32
  dg_c :: u32
  dg_d :: u32
  dg_e :: u32
  dg_f :: u32
  dg_g :: u32
  dg_h :: u32

definition initial_digest :: digest where
  "initial_digest = \<lparr>dg_a = 1779033703, dg_b = 3144134277, dg_c = 1013904242, dg_d = 2773480762, dg_e = 1359893119, dg_f = 2600822924, dg_g = 528734635, dg_h = 1541459225\<rparr>"

text \<open>The message, a one bit, zeros up to the last eight bytes of a block, and the length in bits.\<close>

definition pad :: "byte list \<Rightarrow> byte list" where
  "pad m = m @ 0x80 # replicate ((119 - length m mod 64) mod 64) 0 @ BigEndian_PutUint64 (8 * of_nat (length m))"

fun be_words :: "byte list \<Rightarrow> u32 list" where
  "be_words (a # b # c # d # r) =
     (push_bit 24 (ucast a) OR push_bit 16 (ucast b) OR push_bit 8 (ucast c) OR ucast d) # be_words r"
| "be_words _ = []"

text \<open>The schedule, the newest word first.\<close>

fun extend_schedule :: "nat \<Rightarrow> u32 list \<Rightarrow> u32 list" where
  "extend_schedule 0 ws = ws"
| "extend_schedule (Suc n) ws =
     extend_schedule n ((small_sigma1 (ws ! 1) + ws ! 6 + small_sigma0 (ws ! 14) + ws ! 15) # ws)"

definition schedule :: "byte list \<Rightarrow> u32 list" where
  "schedule block = rev (extend_schedule 48 (rev (be_words block)))"

definition compress_round :: "u32 \<times> u32 \<Rightarrow> digest \<Rightarrow> digest" where
  "compress_round kw s =
     (let t1 = dg_h s + big_sigma1 (dg_e s) + Ch (dg_e s) (dg_f s) (dg_g s) + fst kw + snd kw;
          t2 = big_sigma0 (dg_a s) + Maj (dg_a s) (dg_b s) (dg_c s)
      in \<lparr>dg_a = t1 + t2, dg_b = dg_a s, dg_c = dg_b s, dg_d = dg_c s,
          dg_e = dg_d s + t1, dg_f = dg_e s, dg_g = dg_f s, dg_h = dg_g s\<rparr>)"

definition compress_block :: "byte list \<Rightarrow> digest \<Rightarrow> digest" where
  "compress_block block s =
     (let r = fold compress_round (zip round_constants (schedule block)) s
      in \<lparr>dg_a = dg_a s + dg_a r, dg_b = dg_b s + dg_b r, dg_c = dg_c s + dg_c r, dg_d = dg_d s + dg_d r,
          dg_e = dg_e s + dg_e r, dg_f = dg_f s + dg_f r, dg_g = dg_g s + dg_g r, dg_h = dg_h s + dg_h r\<rparr>)"

function compress_blocks :: "byte list \<Rightarrow> digest \<Rightarrow> digest" where
  "compress_blocks m s = (if length m < 64 then s else compress_blocks (drop 64 m) (compress_block (take 64 m) s))"
  by pat_completeness auto
termination
  by (relation "measure (\<lambda>(m, s). length m)") auto

declare compress_blocks.simps [simp del]

definition word_bytes :: "u32 \<Rightarrow> byte list" where
  "word_bytes w = [ucast (drop_bit 24 w), ucast (drop_bit 16 w), ucast (drop_bit 8 w), ucast w]"

definition Sum256 :: "byte list \<Rightarrow> byte list" where
  "Sum256 m = (let s = compress_blocks (pad m) initial_digest
     in concat (map word_bytes [dg_a s, dg_b s, dg_c s, dg_d s, dg_e s, dg_f s, dg_g s, dg_h s]))"

section \<open>Padding\<close>

lemma pad_blocks: "length (pad m) mod 64 = 0"
proof -
  define r where "r = length m mod 64"
  have r: "r < 64" by (simp add: r_def)
  have "length (pad m) = length m + (9 + (119 - r) mod 64)" by (simp add: pad_def r_def)
  then have "length (pad m) mod 64 = (r + (9 + (119 - r) mod 64)) mod 64" by (simp only: r_def mod_add_left_eq)
  also have "\<dots> = 0"
  proof (cases "r < 56")
    case True
    then have "(119 - r) mod 64 = 55 - r" using le_mod_geq [of 64 "119 - r"] by simp
    then show ?thesis using True by simp
  next
    case False
    then have "(119 - r) mod 64 = 119 - r" using r by simp
    then show ?thesis using False r by simp
  qed
  finally show ?thesis .
qed

text \<open>Messages of less than \<open>2 ^ 61\<close> bytes are determined by their padded form.\<close>

lemma pad_inject:
  assumes "pad m = pad m'" and "length m < 2 ^ 61" and "length m' < 2 ^ 61"
  shows "m = m'"
proof -
  have last: "drop (length (pad x) - 8) (pad x) = BigEndian_PutUint64 (8 * of_nat (length x))" for x
    by (simp add: pad_def)
  have "BigEndian_PutUint64 (8 * of_nat (length m)) = BigEndian_PutUint64 (8 * of_nat (length m'))"
    using last [of m] last [of m'] assms(1) by simp
  then have "(8 * of_nat (length m) :: u64) = 8 * of_nat (length m')" by (metis BigEndian_Uint64_Put)
  then have eq: "unat (of_nat (8 * length m) :: u64) = unat (of_nat (8 * length m') :: u64)" by simp
  have "unat (of_nat (8 * n) :: u64) = 8 * n" if "n < 2 ^ 61" for n using that by (simp only: unat_of_nat) simp
  then have "length m = length m'" using eq assms(2,3) by simp
  with assms(1) show ?thesis by (simp add: pad_def)
qed

section \<open>The digest of the node\<close>

definition with_digest :: "(byte list \<Rightarrow> byte list) \<Rightarrow> crypto_lib \<Rightarrow> crypto_lib" where
  "with_digest hash cl = cl\<lparr>sha256_Sum256 := hash\<rparr>"

text \<open>What the other theories ask of the digest, as a contract that SHA-256 meets.\<close>

locale digest_function =
  fixes hash :: "byte list \<Rightarrow> byte list"
  assumes hash_length: "length (hash m) = 32"
begin

lemma digest_with: "digest_size (with_digest hash cl)"
  by (simp add: digest_size_def with_digest_def hash_length)

lemma sizes_with: "length (HashBytes (with_digest hash cl) d) = HashSize" "length (PubkeyToAddress (with_digest hash cl) p) = AddressSize"
  using length_HashBytes [OF digest_with] length_PubkeyToAddress [OF digest_with] by (simp_all add: HashSize_def AddressSize_def)

end

lemma length_Sum256: "length (Sum256 m) = 32"
  by (simp add: Sum256_def word_bytes_def Let_def)

interpretation sha256: digest_function Sum256
  by unfold_locales (rule length_Sum256)

text \<open>The published digest of \<^verbatim>\<open>abc\<close>, evaluated in steps: the schedule, then sixteen rounds at a time.\<close>

definition abc_schedule :: "u32 list" where
  "abc_schedule = [
    0x61626380, 0x0, 0x0, 0x0, 0x0, 0x0, 0x0, 0x0,
    0x0, 0x0, 0x0, 0x0, 0x0, 0x0, 0x0, 0x18,
    0x61626380, 0xf0000, 0x7da86405, 0x600003c6, 0x3e9d7b78, 0x183fc00, 0x12dcbfdb, 0xe2e2c38e,
    0xc8215c1a, 0xb73679a2, 0xe5bc3909, 0x32663c5b, 0x9d209d67, 0xec8726cb, 0x702138a4, 0xd3b7973b,
    0x93f5997f, 0x3b68ba73, 0xaff4ffc1, 0xf10a5c62, 0xa8b3996, 0x72af830a, 0x9409e33e, 0x24641522,
    0x9f47bf94, 0xf0a64f5a, 0x3e246a79, 0x27333ba3, 0xc4763f2, 0x840abf27, 0x7a290d5d, 0x65c43da,
    0xfb3e89cb, 0xcc7617db, 0xb9e66c34, 0xa9993667, 0x84badedd, 0xc21462bc, 0x1487472c, 0xb20f7a99,
    0xef57b9cd, 0xebe6b238, 0x9fe3095e, 0x78bc8d4b, 0xa43fcf15, 0x668b2ff8, 0xeeaba2cc, 0x12b1edeb]"

lemma schedule_abc: "pad (bytes ''abc'') = take 64 (pad (bytes ''abc''))" "schedule (pad (bytes ''abc'')) = abc_schedule"
  by code_simp+

definition sixteen :: "nat \<Rightarrow> digest \<Rightarrow> digest" where
  "sixteen k s = fold compress_round (take 16 (drop (16 * k) (zip round_constants abc_schedule))) s"

lemma abc_rounds_0:
  "sixteen 0 initial_digest =
    \<lparr>dg_a = 0xb0fa238e, dg_b = 0xc0645fde, dg_c = 0xd932eb16, dg_d = 0x87912990, dg_e = 0x7590dcd, dg_f = 0xb92f20c, dg_g = 0x745a48de, dg_h = 0x1e578218\<rparr>"
  by code_simp

lemma abc_rounds_1:
  "sixteen 1 \<lparr>dg_a = 0xb0fa238e, dg_b = 0xc0645fde, dg_c = 0xd932eb16, dg_d = 0x87912990, dg_e = 0x7590dcd, dg_f = 0xb92f20c, dg_g = 0x745a48de, dg_h = 0x1e578218\<rparr> =
    \<lparr>dg_a = 0x73b33bf5, dg_b = 0xea992a22, dg_c = 0xa0060b30, dg_d = 0x363482c9, dg_e = 0xba591112, dg_f = 0x109ab3a, dg_g = 0xade79437, dg_h = 0x6112a3b7\<rparr>"
  by code_simp

lemma abc_rounds_2:
  "sixteen 2 \<lparr>dg_a = 0x73b33bf5, dg_b = 0xea992a22, dg_c = 0xa0060b30, dg_d = 0x363482c9, dg_e = 0xba591112, dg_f = 0x109ab3a, dg_g = 0xade79437, dg_h = 0x6112a3b7\<rparr> =
    \<lparr>dg_a = 0x4172328d, dg_b = 0xa14c14b0, dg_c = 0x72ab4b91, dg_d = 0x26628815, dg_e = 0xfecf0bc6, dg_f = 0xd57b94a9, dg_g = 0xb7755da1, dg_h = 0xa80f11f0\<rparr>"
  by code_simp

lemma abc_rounds_3:
  "sixteen 3 \<lparr>dg_a = 0x4172328d, dg_b = 0xa14c14b0, dg_c = 0x72ab4b91, dg_d = 0x26628815, dg_e = 0xfecf0bc6, dg_f = 0xd57b94a9, dg_g = 0xb7755da1, dg_h = 0xa80f11f0\<rparr> =
    \<lparr>dg_a = 0x506e3058, dg_b = 0xd39a2165, dg_c = 0x4d24d6c, dg_d = 0xb85e2ce9, dg_e = 0x5ef50f24, dg_f = 0xfb121210, dg_g = 0x948d25b6, dg_h = 0x961f4894\<rparr>"
  by code_simp

lemma fold_split: "fold f z s = fold f (drop n z) (fold f (take n z) s)"
  by (metis append_take_drop_id comp_apply fold_append)

lemma rounds_in_steps: "fold compress_round (zip round_constants abc_schedule) s = sixteen 3 (sixteen 2 (sixteen 1 (sixteen 0 s)))"
proof -
  define z where "z = zip round_constants abc_schedule"
  have "length z = 64" by (simp add: z_def round_constants_def abc_schedule_def)
  then have last: "take 16 (drop 48 z) = drop 48 z" by simp
  have "fold compress_round z s = fold compress_round (drop 48 z) (fold compress_round (take 16 (drop 32 z))
      (fold compress_round (take 16 (drop 16 z)) (fold compress_round (take 16 z) s)))"
    using fold_split [of compress_round z s 16] fold_split [of compress_round "drop 16 z" _ 16]
      fold_split [of compress_round "drop 32 z" _ 16] by simp
  then show ?thesis unfolding z_def [symmetric] sixteen_def using last by simp
qed

lemma Sum256_abc: "Sum256 (bytes ''abc'') = [
    0xba, 0x78, 0x16, 0xbf, 0x8f, 0x1, 0xcf, 0xea, 0x41, 0x41, 0x40, 0xde, 0x5d, 0xae, 0x22, 0x23,
    0xb0, 0x3, 0x61, 0xa3, 0x96, 0x17, 0x7a, 0x9c, 0xb4, 0x10, 0xff, 0x61, 0xf2, 0x0, 0x15, 0xad]"
proof -
  have len: "length (pad (bytes ''abc'')) = 64" by (simp add: pad_def)
  have "compress_blocks (pad (bytes ''abc'')) initial_digest = compress_block (pad (bytes ''abc'')) initial_digest"
    using len by (subst compress_blocks.simps) (simp add: compress_blocks.simps)
  then show ?thesis
    unfolding Sum256_def compress_block_def schedule_abc(2) rounds_in_steps abc_rounds_0 abc_rounds_1 abc_rounds_2 abc_rounds_3
    by (simp add: Let_def initial_digest_def word_bytes_def)
qed

end
