(* ===== verification/Spec2Isabelle.thy ===== *)
theory Spec2Isabelle
  imports Concurrency_Properties Sha256
begin

text \<open>
  Hanticoin is a proof-of-stake payment chain in Go. A \<^emph>\<open>node\<close> (\<^verbatim>\<open>src/cmd/node/main.go\<close>) keeps blocks in a
  directory (\<^verbatim>\<open>src/core/chain.go\<close>), accounts and the validator list in a LevelDB database
  (\<^verbatim>\<open>src/state/state.go\<close>) and pending transactions in memory (\<^verbatim>\<open>src/mempool/mempool.go\<close>). It exchanges
  newline-delimited JSON messages with peers (\<^verbatim>\<open>src/p2p\<close>), produces a block every few seconds when
  the round robin of \<^verbatim>\<open>src/consensus/consensus.go\<close> gives it the height, and serves an HTTP API. Two
  clients, the send command of the node and \<^verbatim>\<open>src/cmd/loadgen/main.go\<close>, talk to that API.

  \<^bold>\<open>The model.\<close> Every package is translated function by function, with the source's names; where several
  packages use one name, the receiver comes first (\<open>Mempool_Add\<close>, \<open>Chain_Save\<close>, \<open>Server_Close\<close>).

  \<^item> \<open>Prelude\<close>: machine types, the outcome of a goroutine (it returns, panics, or waits for ever for a
    lock), Go maps as association lists, and the interfaces used throughout: the locale \<open>codec\<close> of an encoder
    and its decoder, and the locales \<open>machine\<close> and \<open>transitions\<close> of operations and of labelled steps that keep
    an invariant.
  \<^item> \<open>Encoding\<close>, \<open>Json\<close>, \<open>Json_Roundtrip\<close>, \<open>Runtime\<close>, \<open>Sha256\<close>: what the sources use of the standard library:
    hex, base 64, big-endian and decimal integers, JSON texts (renderer, parser, typed decoders), files with
    arbitrary failing system calls and torn writes, read-write mutexes, and SHA-256.
  \<^item> \<open>Config\<close>, \<open>Crypto\<close>, \<open>Core_Types\<close>: \<^verbatim>\<open>src/config\<close>, \<^verbatim>\<open>src/crypto\<close>, \<^verbatim>\<open>src/core/types.go\<close>. Hashes and addresses are
    byte lists; a hash is taken of the JSON text, as in the code.
  \<^item> \<open>State_DB\<close>: \<^verbatim>\<open>src/state/state.go\<close>. goleveldb is the record parameter \<open>leveldb\<close>; \<open>leveldb_ok\<close> states its
    documented behaviour on a working disk (reads succeed; a batch is applied in order and as a whole, or
    not at all and reported) and \<open>writes_ok\<close> that writes succeed. \<open>mem_leveldb\<close> is an instance, used by the witnesses.
    \<open>State_Laws\<close> and \<open>State_Genesis\<close> hold the abstract ledger (\<open>spec_block\<close>, \<open>spec_nonce\<close>) and the lemmas,
    \<open>State_Typing\<close> the layout of the database.
  \<^item> \<open>Consensus\<close>, \<open>Mempool\<close>: the packages of these names.
  \<^item> \<open>Chain\<close>: \<^verbatim>\<open>src/core/chain.go\<close> and \<^verbatim>\<open>src/core/genesis.go\<close> on a directory, with the lock steps of every
    method. \<open>Chain_Laws\<close> has the interface \<open>block_store\<close> and the chain that a directory holds
    (\<open>chain_on_disk\<close>).
  \<^item> \<open>Wire\<close>, \<open>Peers\<close>: \<^verbatim>\<open>src/p2p\<close>; a connection is the text that passes over it, the network is the record \<open>Net\<close>.
  \<^item> \<open>Node\<close>, \<open>Api\<close>, \<open>Commands\<close>: \<^verbatim>\<open>src/cmd/node/main.go\<close> and \<^verbatim>\<open>src/cmd/loadgen/main.go\<close>: the shared state of
    the goroutines, one function per message handler, the producer, the HTTP handlers, and the commands.
    \<open>Node_Laws\<close> adds the step relation \<open>life\<close> of a process (events whose handler returns, waits or panics,
    kills, starts) and its invariants, \<open>Startup_Laws\<close> the lemmas about the commands.
  \<^item> \<open>Goroutines\<close>, \<open>Node_Threads\<close>: the same handlers as goroutines. A goroutine is a tree of atomic steps, each one a critical
    section of the source, and \<open>interleave\<close> lets any number of them start at any time and take their steps in any order.
    \<open>Node_Threads\<close> proves that a goroutine nobody disturbs does what its handler does. \<open>Goroutines\<close> also has the locale
    \<open>mutex_discipline\<close>, a rely/guarantee rule for goroutines that share a mutex; \<open>Node_Interleaving\<close> interprets it on
    the goroutines of the node and \<^verbatim>\<open>blockMu\<close>. \<open>Node_Crash\<close> computes the states a tick passes through.

  \<^bold>\<open>The theorems\<close> are in \<open>Ledger_Properties\<close> (ledger, validator set, pool), \<open>Format_Properties\<close> (hashes, files,
  messages), \<open>Chain_Properties\<close> (block store), \<open>Node_Properties\<close> (the running node), \<open>Concurrency_Properties\<close> (its
  goroutines side by side) and here (properties that span the whole program). They show that
  \<^item> applying a block refines the abstract ledger; its sums change by the fees of skipped transactions and
    nothing else; reorganising gives what syncing from the genesis gives; the order of Go's map iteration
    does not matter for a block (lemma \<open>batch_order_irrelevant\<close>), and for the genesis allocation exactly when no two of its keys
    decode to one address with different amounts (\<open>genesis_order\<close>; \<open>default_genesis_order\<close> for the allocation of an
    initialised node); every operation keeps the layout of the database;
  \<^item> the pool and the peer set keep their invariants in every life of a node;
  \<^item> in every interleaving of the goroutines, whenever \<^verbatim>\<open>blockMu\<close> is free the ledger is the replay of the stored chain
    and every accepted transaction is pending or in a block; a process killed during a tick leaves the old or the
    new chain, with a ledger that may be one block ahead;
  \<^item> appending a block is atomic under every pattern of failing system calls and durable on a working
    disk; the walk behind a block request ends and serves the requested segment;
  \<^item> a producer tick extends the chain, the ledger and the pool together; the handler of a peer's block does
    what it does on each of its branches; an initialised directory starts a node with the whole supply, and a
    joined directory one that agrees with it; a payment of the client reaches the pool;
  \<^item> hashes commit to what they hash, and blocks, keys and messages are read back as written;
  \<^item> where the code departs from its documents: the node stops at the first block it accepts from a peer
    (\<^verbatim>\<open>SetTip\<close> waits for its own lock) and a restart does not repair it; skipped transactions and
    wrapped sums create money; nonces restart; unsigned transactions, unsigned double-sign evidence and whole
    chains of a peer's own making take effect; dialed connections close themselves; one message ends the process.

  \<^bold>\<open>Parameters and hypotheses.\<close> \<open>crypto_lib\<close> holds the digest and the elliptic-curve operations of Go's library. The
  digest is asked for 32 bytes only (\<open>digest_size\<close>; \<open>Sha256\<close> proves it of SHA-256), and the binding theorems
  assume no collision among the inputs they name. \<open>signatures_ok\<close> says that the scheme accepts its own
  signatures and that a compressed public key decodes to itself. \<open>demo_crypto\<close> is an instance. The operations of
  \<open>crypto_lib\<close> are total: that \<^verbatim>\<open>elliptic.MarshalCompressed\<close> panics on a point off the curve, which only a key file
  made by hand can hold, is left out. The allocation map of a genesis is passed as a list, in the order in which the
  loop visits it, so that a theorem about two loops can give them two orders. \<open>maxChan\<close>, the
  largest buffer that \<^verbatim>\<open>make(chan int, n)\<close> grants, is a parameter of \<open>loadgen\<close>.

  \<^bold>\<open>Loops and fuel.\<close> The JSON parser spends one unit of fuel per call and gets \<open>2 * length + 2\<close> of them; lemma
  \<open>parse_fuel\<close> shows that this is enough on every text. \<open>walk_back\<close> (the loop of \<^verbatim>\<open>GetBlocksFrom\<close>) is a partial
  function, since a cyclic block directory makes it run for ever; it is shown to end on a stored chain
  and on every directory in which heights fall towards the predecessors. All other functions are total.

  \<^bold>\<open>Not modelled.\<close> Steps finer than a critical section, a system call or a database batch: the walk of \<^verbatim>\<open>GetBlocksFrom\<close> over the
  block files is one step, as is a send on a connection and a broadcast with the sends it starts, and a kill inside a write is only seen as a failed, torn
  write. In the interleavings a step whose new tip has the hash of a stored block, or whose height wraps around, is left out
  (\<open>fresh_tip\<close>). Also not modelled: logging and printed text; the HTTP server, the
  parsing of the command line and the text of error messages; deadlines, except that they decide where
  the input of a connection ends; the arithmetic of the curve P-256; in JSON, the replacement of
  ill-formed UTF-8 and the nesting limit; the difference between nil and empty slices (a slice read from an empty
  JSON list is written back as \<^verbatim>\<open>null\<close>); the block time in the metrics page, which is a parameter; the
  clock and the report of the load generator.
\<close>

section \<open>Starting a node\<close>

text \<open>C12: initialising an empty directory and starting a node on it gives a node whose chain is the genesis
  block, whose three genesis accounts hold the total supply and no other account anything, whose pool
  and peer set satisfy the invariant, and which is the producer of every height.\<close>

theorem init_then_run:
  fixes L :: "'db leveldb"
  assumes "healthy d" and "os_ReadFile d ''chain.json'' = NotExist"
    and "GenerateKey cl seed = Some priv" and "0 < key_D priv" and "digest_size cl"
    and "leveldb_ok L" and "writes_ok L" and "db_empty L db"
    and "\<not> Hash_IsZero (blk_Hash (GenesisBlock cl (PubkeyToAddress cl (Some (PublicKey priv)))))"
  shows "\<exists>d' db' c env n. runInit cl L seed (Some db) d = Returns (d', Some db') None \<and>
    runNodeLoop cl L True net (Some db') d' listen seeds = Some (Returns (c, Some db') (Inr (env, n))) \<and>
    chain_on_disk (nd_chain n) [GenesisBlock cl (PubkeyToAddress cl (Some (PublicKey priv)))] \<and>
    supply_of {treasury, staking, distribution} (balance_of L (st_db (nd_state n))) = unat TotalSupply \<and>
    (\<forall>a. a \<notin> {treasury, staking, distribution} \<longrightarrow> balance_of L (st_db (nd_state n)) a = 0) \<and>
    node_free n \<and> node_ok cl n \<and> (\<forall>l. my_turn L env n l)"
proof -
  obtain d' db' c where run: "runInit cl L seed (Some db) d = Returns (d', Some db') None"
      and init: "initialised cl L priv d' db' c"
    using runInit_initialises [OF assms] by metis
  have "peers_ok (fst (ConnectToSeeds (NewPeerSet 50 seeds listen) net))"
    by (simp add: ConnectToSeeds_def peers_ok_connect_seeds peers_ok_New)
  then obtain env n where n: "runNodeLoop cl L True net (Some db') d' listen seeds = Some (Returns (c, Some db') (Inr (env, n)))"
      "nd_chain n = c" "nd_state n = \<lparr>st_db = db', st_cfg = DefaultChainConfig\<rparr>" "node_free n" "node_ok cl n"
      "\<And>l. my_turn L env n l"
    using runNodeLoop_starts [OF init] by metis
  have "balance_of L db' = genesis_balances (cfg_Genesis DefaultChainConfig)"
      "chain_on_disk c [GenesisBlock cl (PubkeyToAddress cl (Some (PublicKey priv)))]"
    using init by (simp_all add: initialised_def Let_def)
  then show ?thesis using run n default_supply default_elsewhere by (intro exI conjI) auto
qed

theorem init_then_run_witness:
  "\<exists>d' db' c env n. runInit demo_crypto mem_leveldb 0 (Some []) empty_disk = Returns (d', Some db') None \<and>
     runNodeLoop demo_crypto mem_leveldb True quiet_net (Some db') d' '':3030'' [] = Some (Returns (c, Some db') (Inr (env, n))) \<and>
     chain_on_disk (nd_chain n) [demo_genesis]"
proof -
  have nz: "\<not> Hash_IsZero (blk_Hash (GenesisBlock demo_crypto (PubkeyToAddress demo_crypto (Some (PublicKey demo_key)))))"
    using demo_genesis_hash by (simp add: demo_genesis_def demo_key_address)
  have "0 < key_D demo_key" by (simp add: demo_key_def)
  then show ?thesis
    using init_then_run [OF healthy_empty empty_disk_chain demo_GenerateKey [of 0] _ demo_digest_size mem_leveldb_ok
        mem_writes_ok mem_empty nz, of quiet_net "'':3030''" "[]"]
    by (auto simp: demo_genesis_def demo_key_address)
qed

text \<open>C26: joining a network. A directory made by the join command from the directory of an initialised node,
  with a fresh key, starts as a node that agrees with the first one: the same genesis block and genesis
  data, the same balances and nonces, and the same validator set. With another address than the first
  node it is not the producer of any height.\<close>

theorem joined_node_agrees:
  fixes L :: "'db leveldb"
  assumes "initialised cl L priv j dbj cj" and "healthy d" and "os_ReadFile d ''chain.json'' = NotExist"
    and "GenerateKey cl seed = Some priv2" and "0 < key_D priv2" and "digest_size cl"
    and "leveldb_ok L" and "writes_ok L" and "db_empty L db"
    and "PubkeyToAddress cl (Some (PublicKey priv2)) \<noteq> PubkeyToAddress cl (Some (PublicKey priv))"
  shows "\<exists>d' db' c env n. runInitJoin cl L seed (Some db) j d = Returns (d', Some db') None \<and>
    runNodeLoop cl L True net (Some db') d' listen seeds = Some (Returns (c, Some db') (Inr (env, n))) \<and>
    chain_on_disk (nd_chain n) [GenesisBlock cl (PubkeyToAddress cl (Some (PublicKey priv)))] \<and>
    LoadGenesisFromFile d' = LoadGenesisFromFile j \<and> balance_of L (st_db (nd_state n)) = balance_of L dbj \<and>
    nonce_of L (st_db (nd_state n)) = nonce_of L dbj \<and>
    getValidatorSet L n = Some \<lparr>set_list = [\<lparr>sv_Address = PubkeyToAddress cl (Some (PublicKey priv)), sv_Stake = MinStake\<rparr>]\<rparr> \<and>
    node_free n \<and> (\<forall>l. \<not> my_turn L env n l)"
proof -
  let ?a = "PubkeyToAddress cl (Some (PublicKey priv))"
  obtain d' db' c where i: "runInitJoin cl L seed (Some db) j d = Returns (d', Some db') None"
      "NewChain d' (Some DefaultChainConfig) = Inr c" "ch_disk c = d'" "chain_on_disk c [GenesisBlock cl ?a]"
      "LoadKey d' validatorKeyFile = Value (Some priv2)" "LoadGenesisFromFile d' = LoadGenesisFromFile j"
      "balance_of L db' = balance_of L dbj" "nonce_of L db' = nonce_of L dbj"
      "GetValidatorSet L \<lparr>st_db = db', st_cfg = DefaultChainConfig\<rparr> = GetValidatorSet L \<lparr>st_db = dbj, st_cfg = DefaultChainConfig\<rparr>"
    using runInitJoin_joins [OF assms(1-5,7-9) length_PubkeyToAddress [OF assms(6)]] by metis
  obtain g where g: "LoadGenesisFromFile j = Inr g" "gf_Block g = Some (GenesisBlock cl ?a)"
      "GetValidatorSet L \<lparr>st_db = dbj, st_cfg = DefaultChainConfig\<rparr> = ([\<lparr>val_Address = ?a, val_Stake = MinStake\<rparr>], None)"
    using assms(1) by (auto simp: initialised_def Let_def)
  have nz: "\<not> Hash_IsZero (ch_LastHash c)" using i(4) by (auto simp: chain_on_disk_def tip_hash_def)
  obtain env n where run: "runNodeLoop cl L True net (Some db') d' listen seeds = Some (Returns (c, Some db') (Inr (env, n)))"
      "nd_chain n = c" "nd_state n = \<lparr>st_db = db', st_cfg = DefaultChainConfig\<rparr>" "\<not> nd_blockMu n"
      "env_validatorAddr env = PubkeyToAddress cl (Some (PublicKey priv2))"
    using i(2,3,5,6) g(1,2) nz
    by (cases "ConnectToSeeds (NewPeerSet 50 seeds listen) net")
      (simp add: runNodeLoop_def ensure_genesis_def start_services_def Open_def Server_Listen_def)
  have set: "getValidatorSet L n = Some \<lparr>set_list = [\<lparr>sv_Address = ?a, sv_Stake = MinStake\<rparr>]\<rparr>"
    using i(9) g(3) run(3) by (simp add: getValidatorSet_def NewSetFromValidators_def)
  have "node_free n" using run(2,4) i(4) by (simp add: node_free_def chain_on_disk_def)
  moreover have "\<not> my_turn L env n l" for l
    using set run(5) assms(10) by (simp add: my_turn_def ValidatorForHeight_def)
  ultimately show ?thesis
    using i run set by (intro exI [of _ d'] exI [of _ db'] exI [of _ c] exI [of _ env] exI [of _ n]) simp
qed

text \<open>A second key for the witness.\<close>

definition join_crypto :: crypto_lib where
  "join_crypto = demo_crypto\<lparr>ecdsa_GenerateKey := (\<lambda>seed. Some \<lparr>key_D = 5 + seed, key_X = 5 + seed, key_Y = 0\<rparr>)\<rparr>"

lemma join_crypto_fields:
  "digest_size join_crypto" "PubkeyToAddress join_crypto = PubkeyToAddress demo_crypto" "GenesisBlock join_crypto = GenesisBlock demo_crypto"
  "GenerateKey join_crypto 0 = Some demo_key" "GenerateKey join_crypto 1 = Some \<lparr>key_D = 6, key_X = 6, key_Y = 0\<rparr>"
  using demo_digest_size
  by (simp_all add: join_crypto_def digest_size_def PubkeyToAddress_def GenesisBlock_def SetHash_def BlockHash_def
      block_payload_def txHashes_def HashBytes_def GenerateKey_def demo_key_def fun_eq_iff split: option.split)

theorem joined_node_agrees_witness:
  "\<exists>j d' db' c env n. runInitJoin join_crypto mem_leveldb 1 (Some []) j empty_disk = Returns (d', Some db') None \<and>
     runNodeLoop join_crypto mem_leveldb True quiet_net (Some db') d' '':3031'' [] = Some (Returns (c, Some db') (Inr (env, n))) \<and>
     chain_on_disk (nd_chain n) [demo_genesis]"
proof -
  let ?a = "PubkeyToAddress join_crypto (Some (PublicKey demo_key))" and ?k = "\<lparr>key_D = 6, key_X = 6, key_Y = 0\<rparr>"
  have ga: "GenesisBlock join_crypto ?a = demo_genesis" by (simp add: join_crypto_fields demo_key_address demo_genesis_def)
  have nz: "\<not> Hash_IsZero (blk_Hash (GenesisBlock join_crypto ?a))" unfolding ga by (rule demo_genesis_hash)
  have "0 < key_D demo_key" by (simp add: demo_key_def)
  then obtain j dbj cj where j: "initialised join_crypto mem_leveldb demo_key j dbj cj"
    using runInit_initialises [OF healthy_empty empty_disk_chain join_crypto_fields(4) _ join_crypto_fields(1) mem_leveldb_ok
        mem_writes_ok mem_empty nz] by metis
  have other: "PubkeyToAddress join_crypto (Some (PublicKey ?k)) \<noteq> ?a"
    unfolding join_crypto_fields(2) by code_simp
  show ?thesis
    using joined_node_agrees [OF j healthy_empty empty_disk_chain join_crypto_fields(5) _ join_crypto_fields(1) mem_leveldb_ok
        mem_writes_ok mem_empty other, of quiet_net "'':3031''" "[]"] unfolding ga by fastforce
qed

section \<open>Clients\<close>

lemma demo_signatures: "signatures_ok demo_crypto demo_key"
  by (auto simp: signatures_ok_def demo_crypto_def demo_key_def PublicKey_def)

lemma demo_signed_tx: "\<exists>tx. signed_tx demo_crypto seed demo_key to amount fee nonce = Value tx"
  by (simp add: signed_tx_def demo_Sign Let_def)

text \<open>C13: the command that sends a payment, run against the API of a node: with the key of a funded account,
  a fee that suffices and room in the pool, the client reads the account's nonce, signs and posts the
  transaction, the node accepts it, and it is the last one of the pool. It is assumed that signing succeeds and that
  the pool does not already hold a transaction with this hash (the same payment sent again before a block is
  refused); the nonce comes from the answer of the node.\<close>

theorem payment_reaches_pool:
  fixes L :: "'db leveldb"
  assumes "leveldb_ok L" and "digest_size cl" and "signatures_ok cl priv"
    and "LoadKey d keyFile = Value (Some priv)" and "AddressFromHex toHex = Some toAddr"
    and "amount \<noteq> 0" and "MinFee \<le> fee"
    and "amount + fee \<le> balance_of L (st_db (nd_state n)) (PubkeyToAddress cl (Some (PublicKey priv)))"
    and "int (length (mp_txs (nd_pool n))) < mp_max (nd_pool n)"
    and "signed_tx cl seed priv toAddr amount fee
      (nonce_of L (st_db (nd_state n)) (PubkeyToAddress cl (Some (PublicKey priv)))) = Value tx"
    and "TxHash cl tx \<notin> TxHash cl ` set (mp_txs (nd_pool n))"
  shows "runSend cl seed d keyFile toHex amount fee 0 (get_account L n) (post_tx cl L n) = Value (Inr (Hash_Hex (TxHash cl tx))) \<and>
    mp_txs (nd_pool (fst (http_tx cl L (post_request (json_Marshal (tx_json tx))) n))) = mp_txs (nd_pool n) @ [tx]"
  using runSend_accepted [OF assms] by simp

definition idle_node :: "memdb Node" where
  "idle_node = (demo_node (empty_chain empty_disk))\<lparr>nd_pool := Mempool_New 10\<rparr>"

definition key_disk :: disk where
  "key_disk = fst (SaveKey empty_disk ''key.json'' (Some demo_key))"

lemma key_disk_key: "LoadKey key_disk ''key.json'' = Value (Some demo_key)"
proof -
  have "SaveKey empty_disk ''key.json'' (Some demo_key) = (key_disk, None)"
    by (simp add: key_disk_def SaveKey_def os_WriteFile_def empty_disk_def)
  then show ?thesis by (rule LoadKey_SaveKey) (simp_all add: empty_disk_def demo_key_def)
qed

lemma sender_accounts:
  "balance_of mem_leveldb (st_db sender_state) demo_sender = 1000" "nonce_of mem_leveldb (st_db sender_state) demo_sender = 0"
  by code_simp+

lemma idle_accounts:
  "nd_state idle_node = sender_state" "mp_txs (nd_pool idle_node) = []" "mp_max (nd_pool idle_node) = 10"
  by (simp_all add: idle_node_def demo_node_def Mempool_New_def)

theorem payment_reaches_pool_witness:
  "\<exists>tx. runSend demo_crypto 0 key_disk ''key.json'' (Address_Hex bob) 5 100 0 (get_account mem_leveldb idle_node)
     (post_tx demo_crypto mem_leveldb idle_node) = Value (Inr (Hash_Hex (TxHash demo_crypto tx))) \<and>
     mp_txs (nd_pool (fst (http_tx demo_crypto mem_leveldb (post_request (json_Marshal (tx_json tx))) idle_node))) = [tx]"
proof -
  obtain tx where tx: "signed_tx demo_crypto 0 demo_key bob 5 100
      (nonce_of mem_leveldb (st_db (nd_state idle_node)) (PubkeyToAddress demo_crypto (Some (PublicKey demo_key)))) = Value tx"
    using demo_signed_tx by blast
  have "AddressFromHex (Address_Hex bob) = Some bob" by (simp add: AddressFromHex_Hex)
  from payment_reaches_pool [OF mem_leveldb_ok demo_digest_size demo_signatures key_disk_key this _ _ _ _ tx]
  show ?thesis unfolding demo_key_address using idle_accounts sender_accounts by (auto simp: MinFee_def)
qed






end
